(* ===== verification/Prelude.thy ===== *)
theory Prelude
  imports Complex_Main "HOL-Library.Product_Lexorder" "HOL-Library.Sublist"
begin

text \<open>
  Shared vocabulary of the development: Python exceptions as values, the
  result and the state-with-exceptions monads in which handlers are written,
  Python's \<open>max\<close>/\<open>min\<close>/\<open>sorted\<close> with a key, bounded deques, and the
  list lemmas the components share.
\<close>

named_theorems res_simps \<open>unfolding the result and the state monad\<close>
named_theorems wf_intros \<open>introduction rules for well-formedness invariants\<close>

section \<open>Errors as values\<close>

datatype py_error =
    ContractError string
  | ValueError string
  | Missing string
  | ReconciliationChanged string
  | KeyError
  | IndexError
  | TypeError
  | InvalidOperation
  | IntegrityError
  | BrokerFailure string
  | FeedDisconnect "int option"
  | InvalidFrame string

type_synonym 'a res = "py_error + 'a"

definition bindR :: "'a res \<Rightarrow> ('a \<Rightarrow> 'b res) \<Rightarrow> 'b res" where
  "bindR m f = (case m of Inl e \<Rightarrow> Inl e | Inr x \<Rightarrow> f x)"

definition guardR :: "bool \<Rightarrow> py_error \<Rightarrow> unit res" where
  "guardR b e = (if b then Inr () else Inl e)"

definition ok :: "'a res \<Rightarrow> bool" where
  "ok m = (case m of Inl _ \<Rightarrow> False | Inr _ \<Rightarrow> True)"

lemma bindR_simps [simp, res_simps]:
  "bindR (Inl e) f = Inl e" "bindR (Inr x) f = f x"
  by (simp_all add: bindR_def)

lemma guardR_simps [simp, res_simps]:
  "guardR True e = Inr ()" "guardR False e = Inl e"
  by (simp_all add: guardR_def)

lemma bindR_Inr_iff: "bindR m f = Inr y \<longleftrightarrow> (\<exists>x. m = Inr x \<and> f x = Inr y)"
  by (cases m) auto

lemma bindR_InrE:
  assumes "bindR m f = Inr y"
  obtains x where "m = Inr x" "f x = Inr y"
  using assms by (auto simp: bindR_Inr_iff)

lemma guardR_Inr_iff: "guardR b e = Inr u \<longleftrightarrow> b"
  by (simp add: guardR_def)

lemma guardR_bind: "bindR (guardR b e) f = (if b then f () else Inl e)"
  by (simp add: guardR_def)

lemma ok_simps [simp]: "ok (Inl e) = False" "ok (Inr x) = True"
  by (simp_all add: ok_def)

text \<open>\<open>b and m\<close>: the second operand is evaluated only when the first is true; \<open>all\<close> over a generator.\<close>

definition andR :: "bool \<Rightarrow> bool res \<Rightarrow> bool res" where
  "andR b m = (if b then m else Inr False)"

fun allR :: "('a \<Rightarrow> bool res) \<Rightarrow> 'a list \<Rightarrow> bool res" where
  "allR p [] = Inr True"
| "allR p (x # xs) = bindR (p x) (\<lambda>b. andR b (allR p xs))"

lemma andR_simps [simp, res_simps]: "andR True m = m" "andR False m = Inr False"
  by (simp_all add: andR_def)

lemma andR_True: "andR b m = Inr True \<longleftrightarrow> b \<and> m = Inr True"
  by (simp add: andR_def)

lemma allR_True: "allR p xs = Inr True \<longleftrightarrow> (\<forall>x\<in>set xs. p x = Inr True)"
  by (induction xs) (auto simp: bindR_Inr_iff andR_True)

text \<open>Python's loop over a list in which any iteration may raise.\<close>

fun mapR :: "('a \<Rightarrow> 'b res) \<Rightarrow> 'a list \<Rightarrow> 'b list res" where
  "mapR f [] = Inr []"
| "mapR f (x # xs) = bindR (f x) (\<lambda>y. bindR (mapR f xs) (\<lambda>ys. Inr (y # ys)))"

fun foldR :: "('a \<Rightarrow> 'b \<Rightarrow> 'b res) \<Rightarrow> 'a list \<Rightarrow> 'b \<Rightarrow> 'b res" where
  "foldR f [] s = Inr s"
| "foldR f (x # xs) s = bindR (f x s) (foldR f xs)"

lemma mapR_Inr: "(\<And>x. x \<in> set xs \<Longrightarrow> f x = Inr (g x)) \<Longrightarrow> mapR f xs = Inr (map g xs)"
  by (induction xs) auto

lemma foldR_inv:
  assumes "foldR f xs s = Inr t" and "P s"
    and "\<And>x s t. x \<in> set xs \<Longrightarrow> P s \<Longrightarrow> f x s = Inr t \<Longrightarrow> P t"
  shows "P t"
  using assms by (induction xs arbitrary: s) (auto simp: bindR_Inr_iff)

section \<open>State with exceptions\<close>

text \<open>
  A handler that mutates the durable state and may raise part way: the state
  reached at the moment of the exception is part of the result, as the SQLite
  rows already committed are.
\<close>

type_synonym ('s, 'a) sm = "'s \<Rightarrow> 'a res \<times> 's"

definition retS :: "'a \<Rightarrow> ('s, 'a) sm" where
  "retS x = (\<lambda>s. (Inr x, s))"

definition raiseS :: "py_error \<Rightarrow> ('s, 'a) sm" where
  "raiseS e = (\<lambda>s. (Inl e, s))"

definition bindS :: "('s, 'a) sm \<Rightarrow> ('a \<Rightarrow> ('s, 'b) sm) \<Rightarrow> ('s, 'b) sm" where
  "bindS m f = (\<lambda>s. case m s of (Inl e, t) \<Rightarrow> (Inl e, t) | (Inr x, t) \<Rightarrow> f x t)"

definition getS :: "('s, 's) sm" where
  "getS = (\<lambda>s. (Inr s, s))"

definition modifyS :: "('s \<Rightarrow> 's) \<Rightarrow> ('s, unit) sm" where
  "modifyS f = (\<lambda>s. (Inr (), f s))"

definition guardS :: "bool \<Rightarrow> py_error \<Rightarrow> ('s, unit) sm" where
  "guardS b e = (\<lambda>s. (guardR b e, s))"

definition liftS :: "'a res \<Rightarrow> ('s, 'a) sm" where
  "liftS r = (\<lambda>s. (r, s))"

text \<open>
  A transaction: \<open>BEGIN IMMEDIATE \<dots> COMMIT\<close>, rolled back when the body raises.
\<close>

definition transactionS :: "('s \<Rightarrow> ('a \<times> 's) res) \<Rightarrow> ('s, 'a) sm" where
  "transactionS f = (\<lambda>s. case f s of Inl e \<Rightarrow> (Inl e, s) | Inr (x, t) \<Rightarrow> (Inr x, t))"

fun iterS :: "('a \<Rightarrow> ('s, unit) sm) \<Rightarrow> 'a list \<Rightarrow> ('s, unit) sm" where
  "iterS f [] = retS ()"
| "iterS f (x # xs) = bindS (f x) (\<lambda>_. iterS f xs)"

definition whenS :: "bool \<Rightarrow> ('s, unit) sm \<Rightarrow> ('s, unit) sm" where
  "whenS b m = (if b then m else retS ())"

text \<open>Every run of a handler, whether it returns or raises, relates its states by \<open>R\<close>.\<close>

definition always :: "('s \<Rightarrow> 's \<Rightarrow> bool) \<Rightarrow> ('s, 'a) sm \<Rightarrow> bool" where
  "always R m = (\<forall>s r s'. m s = (r, s') \<longrightarrow> R s s')"

lemma sm_simps [simp, res_simps]:
  "retS x s = (Inr x, s)"
  "raiseS e s = (Inl e, s)"
  "getS s = (Inr s, s)"
  "modifyS f s = (Inr (), f s)"
  "guardS b e s = (guardR b e, s)"
  "liftS r s = (r, s)"
  by (simp_all add: retS_def raiseS_def getS_def modifyS_def guardS_def liftS_def)

lemma bindS_run: "bindS m f s = (case m s of (Inl e, t) \<Rightarrow> (Inl e, t) | (Inr x, t) \<Rightarrow> f x t)"
  by (simp add: bindS_def)

lemma transactionS_run:
  "transactionS f s = (case f s of Inl e \<Rightarrow> (Inl e, s) | Inr (x, t) \<Rightarrow> (Inr x, t))"
  by (simp add: transactionS_def)

lemma alwaysD: "always R m \<Longrightarrow> m s = (r, s') \<Longrightarrow> R s s'"
  by (simp add: always_def)

lemma alwaysI: "(\<And>s r s'. m s = (r, s') \<Longrightarrow> R s s') \<Longrightarrow> always R m"
  by (simp add: always_def)

locale step_closed =
  fixes R :: "'s \<Rightarrow> 's \<Rightarrow> bool"
  assumes refl: "R s s" and trans: "R s t \<Longrightarrow> R t u \<Longrightarrow> R s u"
begin

lemma always_ret: "always R (retS x)" and always_raise: "always R (raiseS e)" and always_lift: "always R (liftS v)"
  and always_guard: "always R (guardS b e)" and always_get: "always R getS"
  by (auto simp: always_def refl)

lemma always_bind:
  assumes "always R m" "\<And>x. always R (f x)"
  shows "always R (bindS m f)"
proof (rule alwaysI)
  fix s r s' assume run: "bindS m f s = (r, s')"
  obtain v t where m: "m s = (v, t)" by force
  with assms(1) have "R s t" by (rule alwaysD)
  then show "R s s'"
    using run m assms(2) by (cases v) (auto simp: bindS_def intro: trans dest: alwaysD)
qed

lemma always_iter: "(\<And>x. x \<in> set xs \<Longrightarrow> always R (f x)) \<Longrightarrow> always R (iterS f xs)"
  by (induction xs) (auto intro: always_ret always_bind)

lemma always_when: "(b \<Longrightarrow> always R m) \<Longrightarrow> always R (whenS b m)"
  by (simp add: whenS_def always_ret)

lemma always_transaction:
  assumes "\<And>s x t. f s = Inr (x, t) \<Longrightarrow> R s t"
  shows "always R (transactionS f)"
  using assms by (auto simp: always_def transactionS_def refl split: sum.splits prod.splits)

lemma always_if: "(b \<Longrightarrow> always R m) \<Longrightarrow> (\<not> b \<Longrightarrow> always R n) \<Longrightarrow> always R (if b then m else n)"
  by simp

lemmas always_rules = always_if always_ret always_raise always_lift always_guard always_get always_bind always_iter always_when

end

lemma bindS_okE:
  assumes "bindS m f s = (Inr y, u)"
  obtains x t where "m s = (Inr x, t)" "f x t = (Inr y, u)"
  using assms by (auto simp: bindS_run split: prod.splits sum.splits)

section \<open>Python's selection functions\<close>

text \<open>\<open>max(xs, key=k)\<close> and \<open>min(xs, key=k)\<close>: the first extremal element.\<close>

fun py_max_by :: "('a \<Rightarrow> 'k::linorder) \<Rightarrow> 'a list \<Rightarrow> 'a option" where
  "py_max_by k [] = None"
| "py_max_by k (x # xs) =
     Some (foldl (\<lambda>best y. if k best < k y then y else best) x xs)"

fun py_min_by :: "('a \<Rightarrow> 'k::linorder) \<Rightarrow> 'a list \<Rightarrow> 'a option" where
  "py_min_by k [] = None"
| "py_min_by k (x # xs) =
     Some (foldl (\<lambda>best y. if k y < k best then y else best) x xs)"

lemma foldl_max_in: "foldl (\<lambda>b y. if k b < (k y :: 'k::linorder) then y else b) x xs \<in> insert x (set xs)"
  by (induction xs arbitrary: x) (auto split: if_splits)

lemma foldl_max_ge:
  "y \<in> insert x (set xs) \<Longrightarrow>
   (k y :: 'k::linorder) \<le> k (foldl (\<lambda>b z. if k b < k z then z else b) x xs)"
proof (induction xs arbitrary: x y)
  case (Cons a xs)
  let ?x = "if k x < k a then a else x"
  have "k x \<le> k ?x" "k a \<le> k ?x" by auto
  with Cons.prems show ?case
    using Cons.IH [of ?x ?x] Cons.IH [of y ?x] by (auto intro: order_trans)
qed simp

lemma foldl_min_in: "foldl (\<lambda>b y. if (k y :: 'k::linorder) < k b then y else b) x xs \<in> insert x (set xs)"
  by (induction xs arbitrary: x) (auto split: if_splits)

lemma foldl_min_le:
  "y \<in> insert x (set xs) \<Longrightarrow>
   k (foldl (\<lambda>b z. if (k z :: 'k::linorder) < k b then z else b) x xs) \<le> k y"
proof (induction xs arbitrary: x y)
  case (Cons a xs)
  let ?x = "if k a < k x then a else x"
  have "k ?x \<le> k x" "k ?x \<le> k a" by auto
  with Cons.prems show ?case
    using Cons.IH [of ?x ?x] Cons.IH [of y ?x] by (auto intro: order_trans)
qed simp

lemma py_max_by_in: "py_max_by k xs = Some x \<Longrightarrow> x \<in> set xs"
proof (cases xs)
  case (Cons a as)
  moreover assume "py_max_by k xs = Some x"
  ultimately show ?thesis using foldl_max_in [of k a as] by simp
qed simp

lemma py_max_by_ge: "py_max_by k xs = Some x \<Longrightarrow> y \<in> set xs \<Longrightarrow> k y \<le> k x"
  by (cases xs) (auto intro: foldl_max_ge)

lemma py_max_by_None [simp]: "py_max_by k xs = None \<longleftrightarrow> xs = []"
  by (cases xs) auto

lemma py_min_by_in: "py_min_by k xs = Some x \<Longrightarrow> x \<in> set xs"
proof (cases xs)
  case (Cons a as)
  moreover assume "py_min_by k xs = Some x"
  ultimately show ?thesis using foldl_min_in [of k a as] by simp
qed simp

lemma py_min_by_le: "py_min_by k xs = Some x \<Longrightarrow> y \<in> set xs \<Longrightarrow> k x \<le> k y"
  by (cases xs) (auto intro: foldl_min_le)

lemma py_min_by_None [simp]: "py_min_by k xs = None \<longleftrightarrow> xs = []"
  by (cases xs) auto

section \<open>Lists, slices and bounded deques\<close>

text \<open>\<open>xs[-n:]\<close> for a positive \<open>n\<close>, which is also what \<open>deque(maxlen=n)\<close> retains.\<close>

definition last_n :: "nat \<Rightarrow> 'a list \<Rightarrow> 'a list" where
  "last_n n xs = drop (length xs - n) xs"

lemma length_last_n [simp]: "length (last_n n xs) = min n (length xs)"
  by (simp add: last_n_def)

lemma set_last_n: "set (last_n n xs) \<subseteq> set xs"
  by (simp add: last_n_def set_drop_subset)

lemma last_n_snoc: "0 < n \<Longrightarrow> last_n n (xs @ [x]) = last_n (n - 1) xs @ [x]"
  by (cases "n \<le> length xs") (auto simp: last_n_def Suc_diff_le)

lemma last_n_all [simp]: "length xs \<le> n \<Longrightarrow> last_n n xs = xs"
  by (simp add: last_n_def)

lemma suffix_last_n: "suffix (last_n n xs) xs"
  by (simp add: last_n_def suffix_drop)

definition sum_by :: "('a \<Rightarrow> 'b::comm_monoid_add) \<Rightarrow> 'a list \<Rightarrow> 'b" where
  "sum_by f xs = sum_list (map f xs)"

lemma sum_by_simps [simp]:
  "sum_by f [] = 0" "sum_by f (x # xs) = f x + sum_by f xs"
  "sum_by f (xs @ ys) = sum_by f xs + sum_by f ys"
  by (simp_all add: sum_by_def)

lemma sum_by_cong: "xs = ys \<Longrightarrow> (\<And>x. x \<in> set ys \<Longrightarrow> f x = g x) \<Longrightarrow> sum_by f xs = sum_by g ys"
  by (simp add: sum_by_def cong: map_cong)

lemma sum_by_mult_of_int:
  "sum_by (\<lambda>x. (c :: 'a::comm_ring_1) * of_int (f x)) xs = c * of_int (sum_by f xs)"
  by (induction xs) (simp_all add: distrib_left)

lemma sum_by_nonneg:
  fixes f :: "'a \<Rightarrow> 'b::ordered_comm_monoid_add"
  shows "(\<And>x. x \<in> set xs \<Longrightarrow> 0 \<le> f x) \<Longrightarrow> 0 \<le> sum_by f xs"
  by (induction xs) auto

lemma sum_by_mono:
  fixes f :: "'a \<Rightarrow> 'b::ordered_comm_monoid_add"
  shows "(\<And>x. x \<in> set xs \<Longrightarrow> f x \<le> g x) \<Longrightarrow> sum_by f xs \<le> sum_by g xs"
  by (induction xs) (auto intro: add_mono)

lemma sum_by_filter_le:
  fixes f :: "'a \<Rightarrow> 'b::ordered_comm_monoid_add"
  shows "(\<And>x. x \<in> set xs \<Longrightarrow> 0 \<le> f x) \<Longrightarrow> sum_by f (filter P xs) \<le> sum_by f xs"
proof (induction xs)
  case (Cons x xs)
  have "sum_by f (filter P xs) \<le> sum_by f xs" using Cons by simp
  moreover have "0 \<le> f x" using Cons.prems by simp
  ultimately show ?case by (auto intro: add_mono add_increasing)
qed simp

lemma sum_by_filter_mono:
  fixes f :: "'a \<Rightarrow> 'b::ordered_comm_monoid_add"
  assumes "\<And>x. x \<in> set xs \<Longrightarrow> 0 \<le> f x" "\<And>x. x \<in> set xs \<Longrightarrow> P x \<Longrightarrow> Q x"
  shows "sum_by f (filter P xs) \<le> sum_by f (filter Q xs)"
proof -
  have "filter P xs = filter P (filter Q xs)"
    using assms(2) by (auto intro: filter_cong)
  then show ?thesis
    using sum_by_filter_le [of "filter Q xs" f P] assms(1) by auto
qed

section \<open>Integer division\<close>

lemma div_mult_le: "0 < (d::int) \<Longrightarrow> x div d * d \<le> x"
  using minus_mod_eq_div_mult [of x d] pos_mod_sign [of d x] by linarith

lemma mult_le_div: "0 < (d::int) \<Longrightarrow> m * d \<le> x \<Longrightarrow> m \<le> x div d"
  using zdiv_mono1 [of "m * d" x d] by simp

lemma le_div_mult: "0 < (d::int) \<Longrightarrow> m * d \<le> x \<Longrightarrow> m * d \<le> x div d * d"
  using mult_le_div [of d m x] by simp

end
