(* ===== verification/PyNum.thy ===== *)
theory PyNum
  imports Prelude "HOL-Library.Log_Nat"
begin

text \<open>
  Python numbers. A finite \<open>Decimal\<close> is the rational it denotes. Operations
  whose exact result may need more digits than the decimal context keeps
  (every division, and sums and products of quotients) go through \<open>ctx28\<close>,
  the context's rounding to 28 significant digits, half to even. A double is
  the rational it denotes, rounded by \<open>dbl\<close> to 53 significant bits. An aware
  \<open>datetime\<close> is its UTC time in microseconds since the epoch and a \<open>date\<close>
  its day number; Asia/Kolkata is UTC+05:30 throughout.
\<close>

type_synonym decimal = rat
type_synonym instant = int
type_synonym day = int

section \<open>Rounding\<close>

definition round_half_even :: "rat \<Rightarrow> int" where
  "round_half_even x =
     (let f = \<lfloor>x\<rfloor>; r = x - of_int f
      in if r < 1/2 then f else if 1/2 < r then f + 1 else if even f then f else f + 1)"

definition pow_int :: "nat \<Rightarrow> int \<Rightarrow> rat" where
  "pow_int b e = (if 0 \<le> e then of_nat b ^ nat e else 1 / of_nat b ^ nat (- e))"

text \<open>
  Rounding to \<open>p\<close> significant base-\<open>b\<close> digits: the exponent is read off the
  lengths of numerator and denominator, off by at most one.
\<close>

function ilog :: "int \<Rightarrow> int \<Rightarrow> int" where
  "ilog b n = (if 1 < b \<and> 0 < n then ilog b (n div b) + 1 else 0)"
  by pat_completeness auto
termination
  by (relation "measure (\<lambda>(b, n). nat n)") (auto simp: int_div_less_self)

declare ilog.simps [simp del]

definition fround_exp :: "nat \<Rightarrow> nat \<Rightarrow> rat \<Rightarrow> int" where
  "fround_exp b p r =
     (let (n, d) = quotient_of r;
          e = ilog (int b) n - ilog (int b) d - int p
      in if of_nat b ^ p \<le> r / pow_int b e then e + 1 else e)"

definition fround :: "nat \<Rightarrow> nat \<Rightarrow> rat \<Rightarrow> rat" where
  "fround b p x =
     (if x = 0 then 0
      else let e = fround_exp b p \<bar>x\<bar>
           in sgn x * of_int (round_half_even (\<bar>x\<bar> / pow_int b e)) * pow_int b e)"

definition ctx28 :: "rat \<Rightarrow> rat" where
  "ctx28 x = fround 10 28 x"

definition dbl :: "rat \<Rightarrow> rat" where
  "dbl x = fround 2 53 x"

definition ddiv :: "decimal \<Rightarrow> decimal \<Rightarrow> decimal" where
  "ddiv a b = ctx28 (a / b)"

definition dmul :: "decimal \<Rightarrow> decimal \<Rightarrow> decimal" where
  "dmul a b = ctx28 (a * b)"

definition dadd :: "decimal \<Rightarrow> decimal \<Rightarrow> decimal" where
  "dadd a b = ctx28 (a + b)"

definition dsub :: "decimal \<Rightarrow> decimal \<Rightarrow> decimal" where
  "dsub a b = ctx28 (a - b)"

definition quantize_ceiling :: "decimal \<Rightarrow> decimal \<Rightarrow> decimal" where
  "quantize_ceiling x q = of_int \<lceil>x / q\<rceil> * q"

definition quantize_floor :: "decimal \<Rightarrow> decimal \<Rightarrow> decimal" where
  "quantize_floor x q = of_int \<lfloor>x / q\<rfloor> * q"

definition is_integral :: "decimal \<Rightarrow> bool" where
  "is_integral x = (of_int \<lfloor>x\<rfloor> = x)"

text \<open>\<open>int(x)\<close> of a Decimal or a float truncates towards zero.\<close>

definition trunc :: "rat \<Rightarrow> int" where
  "trunc x = (if 0 \<le> x then \<lfloor>x\<rfloor> else - \<lfloor>- x\<rfloor>)"

lemma pow_int_powi: "pow_int b e = of_nat b powi e"
  by (simp add: pow_int_def power_int_def inverse_eq_divide power_one_over)

lemma pow_int_pos: "0 < b \<Longrightarrow> 0 < pow_int b e"
  by (simp add: pow_int_def)

lemma pow_int_nonzero [simp]: "0 < b \<Longrightarrow> pow_int b e \<noteq> 0"
  using pow_int_pos [of b e] by simp

lemma pow_int_add: "0 < b \<Longrightarrow> pow_int b (e + f) = pow_int b e * pow_int b f"
  by (simp add: pow_int_powi power_int_add)

lemma pow_int_diff: "0 < b \<Longrightarrow> pow_int b (e - f) = pow_int b e / pow_int b f"
  by (simp add: pow_int_powi power_int_diff)

lemma pow_int_of_nat: "pow_int b (int k) = of_nat b ^ k"
  by (simp add: pow_int_def)

lemma pow_int_mono: "1 < b \<Longrightarrow> e \<le> f \<Longrightarrow> pow_int b e \<le> pow_int b f"
  by (simp add: pow_int_powi power_int_increasing)

lemma round_half_even_of_int [simp]: "round_half_even (of_int m) = m"
  by (simp add: round_half_even_def Let_def)

lemma round_half_even_nonneg: "0 \<le> x \<Longrightarrow> 0 \<le> round_half_even x"
  by (auto simp: round_half_even_def Let_def)

lemma round_half_even_error: "\<bar>of_int (round_half_even x) - x\<bar> \<le> 1/2"
proof -
  have f: "of_int \<lfloor>x\<rfloor> \<le> x" "x < of_int \<lfloor>x\<rfloor> + 1" by linarith+
  then have "\<bar>of_int \<lfloor>x\<rfloor> - x\<bar> = x - of_int \<lfloor>x\<rfloor>"
    "\<bar>of_int \<lfloor>x\<rfloor> + 1 - x\<bar> = of_int \<lfloor>x\<rfloor> + 1 - x" by simp_all
  with f show ?thesis by (auto simp: round_half_even_def Let_def)
qed

lemma fround_0 [simp]: "fround b p 0 = 0"
  by (simp add: fround_def)

lemma fround_minus: "fround b p (- x) = - fround b p x"
  by (simp add: fround_def Let_def sgn_minus)

lemma fround_nonneg: "0 < b \<Longrightarrow> 0 \<le> x \<Longrightarrow> 0 \<le> fround b p x"
proof -
  assume b: "0 < b" and x: "0 \<le> x"
  have p: "0 \<le> pow_int b e" for e using pow_int_pos [OF b] by (simp add: less_imp_le)
  have "0 \<le> of_int (round_half_even (x / pow_int b e)) * pow_int b e" for e
    using x p by (intro mult_nonneg_nonneg) (simp_all add: round_half_even_nonneg)
  with x show ?thesis by (auto simp: fround_def Let_def sgn_if)
qed

text \<open>The exponent keeps at least \<open>p\<close> digits in front of the point.\<close>

lemma ilog_floorlog: "ilog (int b) n = int (floorlog b (nat n))"
proof (induction "int b" n rule: ilog.induct)
  case (1 n)
  show ?case
  proof (cases "1 < b \<and> 0 < n")
    case True
    then have "floorlog b (nat n) = floorlog b (nat n div b) + 1"
      by (subst compute_floorlog) simp
    moreover have "nat n div b = nat (n div int b)"
      using True by (simp add: nat_div_distrib)
    ultimately show ?thesis using 1 True by (simp add: ilog.simps [of "int b" n])
  next
    case False
    then show ?thesis by (auto simp: ilog.simps [of "int b" n] floorlog_eq_zero_iff)
  qed
qed

lemma fround_exp_lower:
  assumes b: "1 < b" and r: "0 < r" and p: "0 < p"
  shows "of_nat b ^ (p - 1) \<le> r / pow_int b (fround_exp b p r)"
proof -
  obtain n d where q: "quotient_of r = (n, d)" by force
  have d: "0 < d" and rnd: "r = of_int n / of_int d"
    using quotient_of_denom_pos [OF q] quotient_of_div [OF q] by simp_all
  have n: "0 < n" using r d by (simp add: rnd zero_less_divide_iff)
  let ?ln = "floorlog b (nat n)" and ?ld = "floorlog b (nat d)"
  let ?e = "int ?ln - int ?ld - int p"
  have n0: "0 < nat n" using n by simp
  have d0: "0 < nat d" using d by simp
  have bn: "b ^ (?ln - 1) \<le> nat n" using floorlog_bounds [OF n0 b] by blast
  have bd: "nat d < b ^ ?ld" using floorlog_bounds [OF d0 b] by blast
  have ln: "0 < ?ln" using n b floorlog_eq_zero_iff [of b "nat n"] by auto
  have "of_nat (b ^ (?ln - 1)) \<le> (of_nat (nat n) :: rat)"
    using bn by (rule of_nat_mono)
  then have nl: "of_nat b ^ (?ln - 1) \<le> (of_int n :: rat)" using n by simp
  have "(of_nat (nat d) :: rat) \<le> of_nat (b ^ ?ld)"
    using less_imp_le [OF bd] by (rule of_nat_mono)
  then have dl: "(of_int d :: rat) \<le> of_nat b ^ ?ld" using d by simp
  have "pow_int b ?e * of_nat b ^ (p - 1) = of_nat b ^ (?ln - 1) / of_nat b ^ ?ld"
  proof -
    have "pow_int b ?e * pow_int b (int (p - 1)) = pow_int b (int (?ln - 1) - int ?ld)"
      using b p ln by (simp add: pow_int_add [symmetric] of_nat_diff algebra_simps)
    then show ?thesis using b by (simp add: pow_int_of_nat pow_int_diff)
  qed
  also have "\<dots> \<le> of_int n / of_int d"
    using b nl dl d n by (intro frac_le) simp_all
  finally have "of_nat b ^ (p - 1) * pow_int b ?e \<le> r"
    by (simp only: rnd mult.commute)
  then have base: "of_nat b ^ (p - 1) \<le> r / pow_int b ?e"
    using pow_int_pos [of b ?e] b by (simp only: pos_le_divide_eq)
  show ?thesis
  proof (cases "of_nat b ^ p \<le> r / pow_int b ?e")
    case True
    have "pow_int b (?e + 1) = pow_int b ?e * of_nat b"
      using b pow_int_of_nat [of b 1] by (simp add: pow_int_add)
    moreover have "(of_nat b :: rat) ^ p = of_nat b ^ (p - 1) * of_nat b"
      using p by (metis Suc_diff_1 power_Suc2)
    ultimately have "of_nat b ^ (p - 1) \<le> r / pow_int b (?e + 1)"
      using True b pow_int_pos [of b ?e] by (simp add: field_simps)
    with True show ?thesis by (simp add: fround_exp_def q ilog_floorlog)
  next
    case False
    with base show ?thesis by (simp add: fround_exp_def q ilog_floorlog)
  qed
qed

text \<open>\<open>\<dots>\<close> and at most \<open>p\<close> of them.\<close>

lemma fround_exp_upper:
  assumes b: "1 < b" and r: "0 < r"
  shows "r / pow_int b (fround_exp b p r) < of_nat b ^ p"
proof -
  obtain n d where q: "quotient_of r = (n, d)" by force
  have d: "0 < d" and rnd: "r = of_int n / of_int d"
    using quotient_of_denom_pos [OF q] quotient_of_div [OF q] by simp_all
  have n: "0 < n" using r d by (simp add: rnd zero_less_divide_iff)
  let ?ln = "floorlog b (nat n)" and ?ld = "floorlog b (nat d)"
  let ?e = "int ?ln - int ?ld - int p"
  have n0: "0 < nat n" and d0: "0 < nat d" using n d by simp_all
  have bn: "nat n < b ^ ?ln" and bd: "b ^ (?ld - 1) \<le> nat d"
    using floorlog_bounds [OF n0 b] floorlog_bounds [OF d0 b] by blast+
  have ld: "0 < ?ld" using d b floorlog_eq_zero_iff [of b "nat d"] by auto
  have "(of_nat (nat n) :: rat) < of_nat (b ^ ?ln)" using bn by (simp only: of_nat_less_iff)
  then have nl: "(of_int n :: rat) < of_nat b ^ ?ln" using n by simp
  have "(of_nat (b ^ (?ld - 1)) :: rat) \<le> of_nat (nat d)" using bd by (rule of_nat_mono)
  then have dl: "(of_nat b :: rat) ^ (?ld - 1) \<le> of_int d" using d by simp
  have "r < of_nat b ^ ?ln / of_nat b ^ (?ld - 1)"
    unfolding rnd using b nl dl d n by (intro frac_less) simp_all
  also have "of_nat b ^ ?ln / of_nat b ^ (?ld - 1) = of_nat b ^ (Suc p) * pow_int b ?e"
  proof -
    have "pow_int b (int (Suc p)) * pow_int b ?e = pow_int b (int ?ln - int (?ld - 1))"
      using b ld by (simp add: pow_int_add [symmetric] of_nat_diff algebra_simps)
    then show ?thesis using b by (simp only: pow_int_of_nat pow_int_diff)
  qed
  finally have base: "r / pow_int b ?e < of_nat b ^ Suc p"
    using pow_int_pos [of b ?e] b by (simp only: pos_divide_less_eq)
  show ?thesis
  proof (cases "of_nat b ^ p \<le> r / pow_int b ?e")
    case True
    have "pow_int b (?e + 1) = pow_int b ?e * of_nat b"
      using b pow_int_of_nat [of b 1] by (simp add: pow_int_add)
    then have "r / pow_int b (?e + 1) = r / pow_int b ?e / of_nat b" by simp
    also have "\<dots> < of_nat b ^ p"
      using base b by (simp only: pos_divide_less_eq power_Suc2)
    finally show ?thesis using True by (simp add: fround_exp_def q ilog_floorlog)
  next
    case False
    then show ?thesis by (simp add: fround_exp_def q ilog_floorlog)
  qed
qed

lemma round_half_even_mono: "x \<le> y \<Longrightarrow> round_half_even x \<le> round_half_even y"
proof -
  assume le: "x \<le> y"
  then have fl: "\<lfloor>x\<rfloor> \<le> \<lfloor>y\<rfloor>" by (rule floor_mono)
  show ?thesis
  proof (cases "\<lfloor>x\<rfloor> = \<lfloor>y\<rfloor>")
    case True
    with le show ?thesis by (auto simp: round_half_even_def Let_def)
  next
    case False
    with fl have "\<lfloor>x\<rfloor> + 1 \<le> \<lfloor>y\<rfloor>" by simp
    moreover have "round_half_even x \<le> \<lfloor>x\<rfloor> + 1" "\<lfloor>y\<rfloor> \<le> round_half_even y"
      by (auto simp: round_half_even_def Let_def)
    ultimately show ?thesis by simp
  qed
qed

lemma fround_pos_eq:
  "0 < x \<Longrightarrow> fround b p x = of_int (round_half_even (x / pow_int b (fround_exp b p x))) * pow_int b (fround_exp b p x)"
  by (simp add: fround_def Let_def)

lemma fround_exp_mono:
  assumes b: "1 < b" and p: "0 < p" and x: "0 < x" and le: "x \<le> y"
  shows "fround_exp b p x \<le> fround_exp b p y"
proof (rule ccontr)
  let ?e = "fround_exp b p x" and ?f = "fround_exp b p y"
  assume "\<not> ?e \<le> ?f"
  then have "?f + 1 \<le> ?e" by simp
  then have "pow_int b (?f + 1) \<le> pow_int b ?e" by (rule pow_int_mono [OF b])
  then have "of_nat b ^ (p - 1) * pow_int b (?f + 1) \<le> of_nat b ^ (p - 1) * pow_int b ?e"
    using b by (intro mult_left_mono) simp_all
  also have "\<dots> \<le> x"
    using fround_exp_lower [OF b x p] pow_int_pos [of b ?e] b by (simp only: pos_le_divide_eq)
  also have "\<dots> \<le> y" by (rule le)
  also have "y < of_nat b ^ p * pow_int b ?f"
    using fround_exp_upper [OF b, of y p] x le pow_int_pos [of b ?f] b by (simp only: pos_divide_less_eq)
  finally have "of_nat b ^ (p - 1) * (of_nat b * pow_int b ?f) < of_nat b ^ p * pow_int b ?f"
    using b pow_int_of_nat [of b 1] by (simp add: pow_int_add mult.commute)
  then show False using p by (simp add: power_eq_if)
qed

text \<open>Rounding is monotone: a longer value never rounds below a shorter one.\<close>

lemma fround_mono_pos:
  assumes b: "1 < b" and p: "0 < p" and x: "0 < x" and le: "x \<le> y"
  shows "fround b p x \<le> fround b p y"
proof -
  let ?e = "fround_exp b p x" and ?f = "fround_exp b p y"
  have y: "0 < y" using x le by simp
  have pos: "0 < pow_int b k" for k using b by (simp add: pow_int_pos)
  have ex: "fround b p x = of_int (round_half_even (x / pow_int b ?e)) * pow_int b ?e"
    and ey: "fround b p y = of_int (round_half_even (y / pow_int b ?f)) * pow_int b ?f"
    using x y by (simp_all only: fround_pos_eq)
  show ?thesis
  proof (cases "?e = ?f")
    case True
    have "x / pow_int b ?f \<le> y / pow_int b ?f" using le pos [of ?f] by (intro divide_right_mono) simp_all
    then have "round_half_even (x / pow_int b ?f) \<le> round_half_even (y / pow_int b ?f)"
      by (rule round_half_even_mono)
    then show ?thesis using pos [of ?f] by (simp only: ex ey True) (simp add: mult_right_mono)
  next
    case False
    with fround_exp_mono [OF b p x le] have lt: "?e + 1 \<le> ?f" by simp
    have "x / pow_int b ?e \<le> of_int (int b ^ p)"
      using fround_exp_upper [OF b x] by (simp add: less_imp_le)
    then have "round_half_even (x / pow_int b ?e) \<le> int b ^ p"
      by (metis round_half_even_mono round_half_even_of_int)
    then have "(of_int (round_half_even (x / pow_int b ?e)) :: rat) \<le> of_int (int b ^ p)" by (simp only: of_int_le_iff)
    then have "fround b p x \<le> of_nat b ^ p * pow_int b ?e"
      using pos [of ?e] by (simp only: ex) (simp add: mult_right_mono)
    also have "\<dots> = of_nat b ^ (p - 1) * pow_int b (?e + 1)"
      using b p pow_int_of_nat [of b 1] by (simp add: pow_int_add power_eq_if)
    also have "\<dots> \<le> of_nat b ^ (p - 1) * pow_int b ?f"
      using pow_int_mono [OF b lt] by (intro mult_left_mono) simp_all
    also have "\<dots> \<le> fround b p y"
    proof -
      have "of_int (int b ^ (p - 1)) \<le> y / pow_int b ?f" using fround_exp_lower [OF b y p] by simp
      then have "int b ^ (p - 1) \<le> round_half_even (y / pow_int b ?f)"
        by (metis round_half_even_mono round_half_even_of_int)
      then have "(of_int (int b ^ (p - 1)) :: rat) \<le> of_int (round_half_even (y / pow_int b ?f))"
        by (simp only: of_int_le_iff)
      then show ?thesis using pos [of ?f] by (simp only: ey) (simp add: mult_right_mono)
    qed
    finally show ?thesis .
  qed
qed

text \<open>A value of at most \<open>p\<close> digits is kept as it is.\<close>

lemma fround_exact:
  assumes b: "1 < b" and p: "0 < p" and m: "\<bar>m\<bar> < int b ^ p"
  shows "fround b p (of_int m * pow_int b e) = of_int m * pow_int b e"
proof (cases "m = 0")
  case False
  let ?x = "of_int m * pow_int b e" and ?r = "of_int \<bar>m\<bar> * pow_int b e"
  have pos: "0 < pow_int b k" for k using b by (simp add: pow_int_pos)
  have r: "\<bar>?x\<bar> = ?r" using pos [of e] by (simp add: abs_mult)
  have r0: "0 < ?r" using False pos [of e] by simp
  let ?f = "fround_exp b p ?r"
  have "?f \<le> e"
  proof (rule ccontr)
    assume "\<not> ?f \<le> e"
    then have le: "e + 1 \<le> ?f" by simp
    have "of_nat b ^ (p - 1) * pow_int b (e + 1) \<le> of_nat b ^ (p - 1) * pow_int b ?f"
      using pow_int_mono [OF b le] b by simp
    also have "\<dots> \<le> ?r"
      using fround_exp_lower [OF b r0 p] pos [of ?f] by (simp add: field_simps)
    finally have "of_nat b ^ (p - 1) * of_nat b * pow_int b e \<le> of_int \<bar>m\<bar> * pow_int b e"
      using b pow_int_of_nat [of b 1] by (simp add: pow_int_add algebra_simps)
    then have "(of_nat b :: rat) ^ (p - 1) * of_nat b \<le> of_int \<bar>m\<bar>"
      using pos [of e] by simp
    then have "(of_nat b :: rat) ^ p \<le> of_int \<bar>m\<bar>"
      using p by (metis Suc_diff_1 power_Suc2)
    then have "(of_int (int b ^ p) :: rat) \<le> of_int \<bar>m\<bar>" by simp
    then have "int b ^ p \<le> \<bar>m\<bar>" by (simp only: of_int_le_iff)
    with m show False by simp
  qed
  then obtain k where k: "e = ?f + int k"
    by (metis add.commute diff_add_cancel nonneg_int_cases diff_ge_0_iff_ge)
  have "pow_int b e = pow_int b ?f * of_nat b ^ k"
    using b by (subst k) (simp add: pow_int_add pow_int_of_nat)
  then have "?r / pow_int b ?f = of_int \<bar>m\<bar> * of_nat b ^ k * (pow_int b ?f / pow_int b ?f)"
    by (simp only: times_divide_eq_right mult_ac)
  then have "?r / pow_int b ?f = of_int (\<bar>m\<bar> * int b ^ k)"
    using pow_int_nonzero [of b ?f] b by simp
  then have "round_half_even (?r / pow_int b ?f) = \<bar>m\<bar> * int b ^ k"
    by (simp only: round_half_even_of_int)
  then have "fround b p ?x = sgn ?x * of_int (\<bar>m\<bar> * int b ^ k) * pow_int b ?f"
    using False b r by (simp add: fround_def Let_def)
  also have "\<dots> = sgn ?x * ?r"
    using \<open>pow_int b e = pow_int b ?f * of_nat b ^ k\<close> by (simp add: mult.commute)
  also have "\<dots> = ?x"
    by (subst r [symmetric]) (rule sgn_mult_abs)
  finally show ?thesis .
qed simp

lemma ctx28_exact: "\<bar>m\<bar> < 10 ^ 28 \<Longrightarrow> ctx28 (of_int m * pow_int 10 e) = of_int m * pow_int 10 e"
  using fround_exact [of 10 28 m e] by (simp add: ctx28_def)

lemma ctx28_of_int: "\<bar>m\<bar> < 10 ^ 28 \<Longrightarrow> ctx28 (of_int m) = of_int m"
  using ctx28_exact [of m 0] by (simp add: pow_int_def)

lemma dbl_of_int: "\<bar>m\<bar> < 2 ^ 53 \<Longrightarrow> dbl (of_int m) = of_int m"
  using fround_exact [of 2 53 m 0] by (simp add: dbl_def pow_int_def)

lemma ctx28_mono: "0 < x \<Longrightarrow> x \<le> y \<Longrightarrow> ctx28 x \<le> ctx28 y"
  by (simp add: ctx28_def fround_mono_pos)

text \<open>The relative error of a rounding to \<open>p\<close> digits.\<close>

lemma fround_error:
  assumes b: "1 < b" and p: "0 < p" and x: "0 \<le> x"
  shows "\<bar>fround b p x - x\<bar> \<le> x / (2 * of_nat b ^ (p - 1))"
proof (cases "x = 0")
  case False
  with x have x: "0 < x" by simp
  let ?B = "pow_int b (fround_exp b p x)"
  have B: "0 < ?B" using b pow_int_pos by simp
  have "fround b p x - x = (of_int (round_half_even (x / ?B)) - x / ?B) * ?B"
    using B by (simp add: fround_pos_eq [OF x] left_diff_distrib)
  then have "\<bar>fround b p x - x\<bar> = \<bar>of_int (round_half_even (x / ?B)) - x / ?B\<bar> * ?B"
    using B by (simp add: abs_mult)
  also have "\<dots> \<le> 1 / 2 * ?B" using B round_half_even_error by (intro mult_right_mono) simp_all
  also have "\<dots> \<le> x / (2 * of_nat b ^ (p - 1))"
  proof -
    have "of_nat b ^ (p - 1) * ?B \<le> x"
      using fround_exp_lower [OF b x p] B by (simp add: pos_le_divide_eq)
    moreover have "0 < (of_nat b ^ (p - 1) :: rat)" using b by simp
    ultimately show ?thesis by (simp add: pos_le_divide_eq algebra_simps)
  qed
  finally show ?thesis .
qed simp

text \<open>The context never rounds a quotient below an integer of fewer than 28 digits that it reaches.\<close>

lemma ctx28_ge_int: "0 < m \<Longrightarrow> m < 10 ^ 28 \<Longrightarrow> of_int m \<le> x \<Longrightarrow> of_int m \<le> ctx28 x"
  using ctx28_mono [of "of_int m" x] by (simp add: ctx28_of_int)

lemma ctx28_0 [simp]: "ctx28 0 = 0"
  by (simp add: ctx28_def)

lemma ctx28_nonneg: "0 \<le> x \<Longrightarrow> 0 \<le> ctx28 x"
  by (simp add: ctx28_def fround_nonneg)

section \<open>Quantisation\<close>

lemma quantize_ceiling_ge: "0 < q \<Longrightarrow> x \<le> quantize_ceiling x q"
  unfolding quantize_ceiling_def
  using le_of_int_ceiling [of "x / q"] by (subst (asm) pos_divide_le_eq) (auto simp: mult.commute)

lemma quantize_ceiling_less: "0 < q \<Longrightarrow> quantize_ceiling x q < x + q"
  using ceiling_correct [of "x / q"] by (simp add: quantize_ceiling_def field_simps)

lemma quantize_ceiling_mono: "0 < q \<Longrightarrow> x \<le> y \<Longrightarrow> quantize_ceiling x q \<le> quantize_ceiling y q"
  by (simp add: quantize_ceiling_def ceiling_mono divide_right_mono mult_right_mono)

lemma quantize_ceiling_nonneg: "0 < q \<Longrightarrow> 0 \<le> x \<Longrightarrow> 0 \<le> quantize_ceiling x q"
  using quantize_ceiling_ge [of q x] by linarith

lemma quantize_floor_le: "0 < q \<Longrightarrow> quantize_floor x q \<le> x"
  unfolding quantize_floor_def
  using of_int_floor_le [of "x / q"] by (subst (asm) pos_le_divide_eq) (auto simp: mult.commute)

lemma quantize_floor_nonneg: "0 < q \<Longrightarrow> 0 \<le> x \<Longrightarrow> 0 \<le> quantize_floor x q"
  by (simp add: quantize_floor_def)

lemma quantize_floor_greater: "0 < q \<Longrightarrow> x - q < quantize_floor x q"
  using floor_correct [of "x / q"] by (simp add: quantize_floor_def field_simps)

lemma is_integral_of_int [simp]: "is_integral (of_int m)"
  by (simp add: is_integral_def)

lemma is_integralE: "is_integral x \<Longrightarrow> (\<And>m. x = of_int m \<Longrightarrow> thesis) \<Longrightarrow> thesis"
  by (metis is_integral_def)

section \<open>Instants and calendar days\<close>

definition IST_OFFSET :: int where
  "IST_OFFSET = 19800000000"

definition DAY_US :: int where
  "DAY_US = 86400000000"

definition ist_date :: "instant \<Rightarrow> day" where
  "ist_date t = (t + IST_OFFSET) div DAY_US"

definition ist_time :: "instant \<Rightarrow> int" where
  "ist_time t = (t + IST_OFFSET) mod DAY_US"

definition ist_at :: "day \<Rightarrow> int \<Rightarrow> instant" where
  "ist_at d tod = d * DAY_US + tod - IST_OFFSET"

text \<open>\<open>time(h, m)\<close> as microseconds into the day.\<close>

definition clock :: "int \<Rightarrow> int \<Rightarrow> int" where
  "clock h m = (h * 60 + m) * 60000000"

definition seconds :: "int \<Rightarrow> int" where
  "seconds n = n * 1000000"

definition minutes :: "int \<Rightarrow> int" where
  "minutes n = n * 60000000"

text \<open>
  \<open>at.timestamp()*1_000_000_000\<close>: a double product of the double nearest to the
  instant in seconds.
\<close>

definition timestamp_ns :: "instant \<Rightarrow> rat" where
  "timestamp_ns t = dbl (dbl (of_int t / 1000000) * 1000000000)"

definition ns :: "instant \<Rightarrow> int" where
  "ns t = trunc (timestamp_ns t)"

lemma ist_date_at [simp]: "0 \<le> tod \<Longrightarrow> tod < DAY_US \<Longrightarrow> ist_date (ist_at d tod) = d"
  by (simp add: ist_date_def ist_at_def DAY_US_def)

lemma ist_time_at [simp]: "0 \<le> tod \<Longrightarrow> tod < DAY_US \<Longrightarrow> ist_time (ist_at d tod) = tod"
  by (simp add: ist_time_def ist_at_def DAY_US_def)

lemma ist_at_date_time [simp]: "ist_at (ist_date t) (ist_time t) = t"
  using div_mult_mod_eq [of "t + IST_OFFSET" DAY_US]
  by (simp add: ist_at_def ist_date_def ist_time_def)

end
