(* ===== verification/PyText.thy ===== *)
theory PyText
  imports PyNum "HOL-Library.Char_ord" "HOL-Library.List_Lexorder"
begin

text \<open>
  The parts of Python's text handling the program relies on: \<open>str.upper\<close>,
  \<open>str.strip\<close>, \<open>int(text)\<close> and \<open>Decimal(text)\<close>, on ASCII text. Strings are
  ordered lexicographically, as Python orders them.
\<close>

definition is_space :: "char \<Rightarrow> bool" where
  "is_space c = (c \<in> set [CHR '' '', CHR 0x09, CHR 0x0A, CHR 0x0B, CHR 0x0C, CHR 0x0D])"

definition strip :: "string \<Rightarrow> string" where
  "strip s = rev (dropWhile is_space (rev (dropWhile is_space s)))"

definition digit_chars :: string where
  "digit_chars = ''0123456789''"

definition is_digit :: "char \<Rightarrow> bool" where
  "is_digit c = (c \<in> set digit_chars)"

definition lower_chars :: string where
  "lower_chars = ''abcdefghijklmnopqrstuvwxyz''"

definition upper_chars :: string where
  "upper_chars = ''ABCDEFGHIJKLMNOPQRSTUVWXYZ''"

definition char_upper :: "char \<Rightarrow> char" where
  "char_upper c = (case map_of (zip lower_chars upper_chars) c of None \<Rightarrow> c | Some d \<Rightarrow> d)"

definition char_lower :: "char \<Rightarrow> char" where
  "char_lower c = (case map_of (zip upper_chars lower_chars) c of None \<Rightarrow> c | Some d \<Rightarrow> d)"

definition upper :: "string \<Rightarrow> string" where
  "upper s = map char_upper s"

definition lower :: "string \<Rightarrow> string" where
  "lower s = map char_lower s"

definition digit_val :: "char \<Rightarrow> int" where
  "digit_val c = (case map_of (zip digit_chars [0, 1, 2, 3, 4, 5, 6, 7, 8, 9]) c of None \<Rightarrow> 0 | Some n \<Rightarrow> n)"

definition digits_val :: "string \<Rightarrow> int" where
  "digits_val s = foldl (\<lambda>n c. 10 * n + digit_val c) 0 s"

definition split_sign :: "string \<Rightarrow> int \<times> string" where
  "split_sign s =
     (case s of [] \<Rightarrow> (1, [])
      | c # r \<Rightarrow> if c = CHR ''-'' then (- 1, r) else if c = CHR ''+'' then (1, r) else (1, s))"

text \<open>Digits with single underscores between them, as \<open>int()\<close> accepts.\<close>

fun grouped_digits :: "string \<Rightarrow> bool" where
  "grouped_digits [] = False"
| "grouped_digits [c] = is_digit c"
| "grouped_digits (c # d # r) =
     (is_digit c \<and> (if d = CHR ''_'' then grouped_digits r else grouped_digits (d # r)))"

definition parse_int :: "string \<Rightarrow> int option" where
  "parse_int s =
     (let (sign, body) = split_sign (strip s)
      in if grouped_digits body then Some (sign * digits_val (filter is_digit body)) else None)"

datatype decnum = Finite decimal | NonFinite

definition parse_exponent :: "string \<Rightarrow> int option" where
  "parse_exponent s =
     (case s of [] \<Rightarrow> Some 0
      | e # r \<Rightarrow>
          let (sign, body) = split_sign r
          in if char_lower e = CHR ''e'' \<and> body \<noteq> [] \<and> list_all is_digit body
             then Some (sign * digits_val body) else None)"

definition parse_number :: "string \<Rightarrow> decimal option" where
  "parse_number s =
     (let whole = takeWhile is_digit s; rest = dropWhile is_digit s;
          (frac, tail) = (case rest of [] \<Rightarrow> ([], [])
            | c # r \<Rightarrow> if c = CHR ''.'' then (takeWhile is_digit r, dropWhile is_digit r) else ([], rest))
      in if whole @ frac = [] then None
         else map_option (\<lambda>e. of_int (digits_val (whole @ frac)) * pow_int 10 (e - int (length frac)))
                (parse_exponent tail))"

definition parse_decimal :: "string \<Rightarrow> decnum option" where
  "parse_decimal s =
     (let (sign, body) = split_sign (filter (\<lambda>c. c \<noteq> CHR ''_'') (strip s)); low = lower body;
          nan = (if take 1 low = ''s'' then drop 1 low else low)
      in if low = ''inf'' \<or> low = ''infinity'' then Some NonFinite
         else if take 3 nan = ''nan'' \<and> list_all is_digit (drop 3 nan) then Some NonFinite
         else map_option (\<lambda>x. Finite (of_int sign * x)) (parse_number body))"

text \<open>\<open>Decimal(text)\<close> where a later comparison needs a finite value.\<close>

definition parse_finite :: "string \<Rightarrow> decimal option" where
  "parse_finite s = (case parse_decimal s of Some (Finite x) \<Rightarrow> Some x | _ \<Rightarrow> None)"

section \<open>Formatting and searching\<close>

function show_nat_int :: "int \<Rightarrow> string" where
  "show_nat_int n =
     (if n < 10 then [digit_chars ! nat (max 0 n)] else show_nat_int (n div 10) @ [digit_chars ! nat (n mod 10)])"
  by pat_completeness auto
termination
  by (relation "measure nat") (auto simp: int_div_less_self)

declare show_nat_int.simps [simp del]

definition show_int :: "int \<Rightarrow> string" where
  "show_int n = (if n < 0 then CHR ''-'' # show_nat_int (- n) else show_nat_int n)"

definition pad :: "nat \<Rightarrow> string \<Rightarrow> string" where
  "pad n s = replicate (n - length s) (CHR ''0'') @ s"

text \<open>The proleptic Gregorian date of a day number counted from 1970-01-01.\<close>

definition civil_of_day :: "day \<Rightarrow> int \<times> int \<times> int" where
  "civil_of_day z =
     (let z = z + 719468; era = z div 146097; doe = z mod 146097;
          yoe = (doe - doe div 1460 + doe div 36524 - doe div 146096) div 365;
          doy = doe - (365 * yoe + yoe div 4 - yoe div 100);
          mp = (5 * doy + 2) div 153;
          d = doy - (153 * mp + 2) div 5 + 1;
          m = (if mp < 10 then mp + 3 else mp - 9);
          y = yoe + era * 400 + (if m \<le> 2 then 1 else 0)
      in (y, m, d))"

definition isoformat :: "day \<Rightarrow> string" where
  "isoformat z =
     (let (y, m, d) = civil_of_day z
      in pad 4 (show_int y) @ ''-'' @ pad 2 (show_int m) @ ''-'' @ pad 2 (show_int d))"

fun contains :: "string \<Rightarrow> string \<Rightarrow> bool" where
  "contains needle [] = (needle = [])"
| "contains needle (c # s) = (take (length needle) (c # s) = needle \<or> contains needle s)"

text \<open>
  \<open>re.search(r"(?<!\d)" + re.escape(needle) + r"(?!\d)", text)\<close>; the flag says
  whether the character before the position is a digit.
\<close>

fun contains_token :: "string \<Rightarrow> bool \<Rightarrow> string \<Rightarrow> bool" where
  "contains_token needle after_digit [] = (needle = [] \<and> \<not> after_digit)"
| "contains_token needle after_digit (c # s) =
     (let here = take (length needle) (c # s) = needle; rest = drop (length needle) (c # s)
      in (\<not> after_digit \<and> here \<and> (case rest of [] \<Rightarrow> True | d # _ \<Rightarrow> \<not> is_digit d))
         \<or> contains_token needle (is_digit c) s)"

section \<open>Lemmas\<close>

lemma parse_number_nonneg: "parse_number s = Some x \<Longrightarrow> 0 \<le> x"
proof -
  have dv: "0 \<le> digit_val c" for c
    by (auto simp: digit_val_def digit_chars_def split: option.splits dest!: map_of_SomeD)
  have "0 \<le> n \<Longrightarrow> 0 \<le> foldl (\<lambda>n c. 10 * n + digit_val c) n t" for n t
    by (induction t arbitrary: n) (auto simp: dv)
  then have "0 \<le> digits_val t" for t by (simp add: digits_val_def)
  moreover have "0 < pow_int 10 e" for e by (simp add: pow_int_pos)
  ultimately show "parse_number s = Some x \<Longrightarrow> 0 \<le> x"
    by (auto simp: parse_number_def Let_def less_imp_le split: if_splits prod.splits)
qed

end
