(* ===== verification/Json.thy ===== *)
theory Json
  imports PyText "HOL-Library.AList"
begin

text \<open>
  What \<open>json.loads(text, parse_float=Decimal)\<close> hands to the program: a flat
  object is a list of keys and values. A number with a fraction or an exponent
  keeps the text its \<open>Decimal\<close> prints; a nested value is represented by its
  truth value and the text \<open>str\<close> gives, the two things the program reads off it.
\<close>

datatype jval =
    JNull
  | JBool bool
  | JInt int
  | JDec string
  | JStr string
  | JNested bool string

type_synonym jrow = "(string \<times> jval) list"

definition jget :: "string \<Rightarrow> jrow \<Rightarrow> jval option" where
  "jget k row = map_of row k"

definition jget_or :: "string \<Rightarrow> jval \<Rightarrow> jrow \<Rightarrow> jval" where
  "jget_or k d row = (case jget k row of None \<Rightarrow> d | Some v \<Rightarrow> v)"

definition jindex :: "string \<Rightarrow> jrow \<Rightarrow> jval res" where
  "jindex k row = (case jget k row of None \<Rightarrow> Inl KeyError | Some v \<Rightarrow> Inr v)"

fun py_str :: "jval \<Rightarrow> string" where
  "py_str JNull = ''None''"
| "py_str (JBool b) = (if b then ''True'' else ''False'')"
| "py_str (JInt n) = show_int n"
| "py_str (JDec t) = t"
| "py_str (JStr s) = s"
| "py_str (JNested b t) = t"

fun truthy :: "jval \<Rightarrow> bool" where
  "truthy JNull = False"
| "truthy (JBool b) = b"
| "truthy (JInt n) = (n \<noteq> 0)"
| "truthy (JDec t) = (case parse_decimal t of Some (Finite x) \<Rightarrow> x \<noteq> 0 | _ \<Rightarrow> True)"
| "truthy (JStr s) = (s \<noteq> [])"
| "truthy (JNested b t) = b"

text \<open>\<open>Decimal(str(v))\<close>, \<open>int(v)\<close>\<close>

definition jdecimal :: "jval \<Rightarrow> decnum res" where
  "jdecimal v = (case parse_decimal (py_str v) of None \<Rightarrow> Inl InvalidOperation | Some d \<Rightarrow> Inr d)"

fun jint :: "jval \<Rightarrow> int res" where
  "jint (JInt n) = Inr n"
| "jint (JBool b) = Inr (if b then 1 else 0)"
| "jint (JStr s) = (case parse_int s of None \<Rightarrow> Inl (ValueError ''int'') | Some n \<Rightarrow> Inr n)"
| "jint (JDec t) = (case parse_decimal t of Some (Finite x) \<Rightarrow> Inr (trunc x) | _ \<Rightarrow> Inl (ValueError ''int''))"
| "jint _ = Inl TypeError"

text \<open>A decimal that must be finite to be used as an amount; the others raise.\<close>

definition jamount :: "jval \<Rightarrow> decimal res" where
  "jamount v = bindR (jdecimal v) (\<lambda>d. case d of Finite x \<Rightarrow> Inr x | NonFinite \<Rightarrow> Inl InvalidOperation)"

text \<open>
  \<open>json.dumps(json_safe(row), sort_keys=True)\<close> as far as equality goes: keys in
  order, decimals as their text.
\<close>

fun json_safe :: "jval \<Rightarrow> jval" where
  "json_safe (JDec t) = JStr t"
| "json_safe v = v"

definition encode_row :: "jrow \<Rightarrow> jrow" where
  "encode_row row = map (\<lambda>(k, v). (k, json_safe v)) (sort_key fst row)"

lemma jget_Nil [simp]: "jget k [] = None"
  by (simp add: jget_def)

lemma jget_Cons [simp]: "jget k ((k', v) # row) = (if k = k' then Some v else jget k row)"
  by (simp add: jget_def)

lemma json_safe_idem [simp]: "json_safe (json_safe v) = json_safe v"
  by (cases v) simp_all

lemma py_str_json_safe [simp]: "py_str (json_safe v) = py_str v"
  by (cases v) simp_all

lemma jdecimal_json_safe [simp]: "jdecimal (json_safe v) = jdecimal v"
  by (simp add: jdecimal_def)

end
