(* ===== verification/Tables.thy ===== *)
theory Tables
  imports Prelude
begin

text \<open>
  The SQL the durable ledger is written in, over tables kept as lists of rows in
  \<open>rowid\<close> order. \<open>key\<close> is the primary key column.
\<close>

definition row_with :: "('r \<Rightarrow> 'k) \<Rightarrow> 'k \<Rightarrow> 'r list \<Rightarrow> 'r option" where
  "row_with key k rows = find (\<lambda>r. key r = k) rows"

text \<open>\<open>INSERT\<close>: a violated key constraint aborts the statement.\<close>

definition insert_row :: "('r \<Rightarrow> 'k) \<Rightarrow> 'r \<Rightarrow> 'r list \<Rightarrow> 'r list res" where
  "insert_row key r rows = (if row_with key (key r) rows = None then Inr (rows @ [r]) else Inl IntegrityError)"

text \<open>\<open>INSERT OR IGNORE\<close>\<close>

definition insert_ignore :: "('r \<Rightarrow> 'k) \<Rightarrow> 'r \<Rightarrow> 'r list \<Rightarrow> 'r list" where
  "insert_ignore key r rows = (if row_with key (key r) rows = None then rows @ [r] else rows)"

text \<open>\<open>INSERT OR REPLACE\<close>: the conflicting row is deleted, the new one gets a new \<open>rowid\<close>.\<close>

definition replace_row :: "('r \<Rightarrow> 'k) \<Rightarrow> 'r \<Rightarrow> 'r list \<Rightarrow> 'r list" where
  "replace_row key r rows = filter (\<lambda>x. key x \<noteq> key r) rows @ [r]"

text \<open>\<open>UPDATE \<dots> WHERE\<close>\<close>

definition update_where :: "('r \<Rightarrow> bool) \<Rightarrow> ('r \<Rightarrow> 'r) \<Rightarrow> 'r list \<Rightarrow> 'r list" where
  "update_where p f rows = map (\<lambda>r. if p r then f r else r) rows"

text \<open>\<open>INSERT \<dots> ON CONFLICT(key) DO UPDATE\<close>: the row keeps its place, \<open>merge\<close> says which columns are set.\<close>

definition upsert_row :: "('r \<Rightarrow> 'k) \<Rightarrow> ('r \<Rightarrow> 'r \<Rightarrow> 'r) \<Rightarrow> 'r \<Rightarrow> 'r list \<Rightarrow> 'r list" where
  "upsert_row key merge r rows =
     (if row_with key (key r) rows = None then rows @ [r]
      else update_where (\<lambda>x. key x = key r) (\<lambda>old. merge old r) rows)"

section \<open>Lemmas\<close>

lemma row_with_Nil [simp]: "row_with key k [] = None"
  by (simp add: row_with_def)

lemma row_with_Cons [simp]: "row_with key k (r # rows) = (if key r = k then Some r else row_with key k rows)"
  by (simp add: row_with_def)

lemma row_with_SomeD: "row_with key k rows = Some r \<Longrightarrow> r \<in> set rows \<and> key r = k"
  by (induction rows) (auto split: if_splits)

lemma row_with_None: "row_with key k rows = None \<longleftrightarrow> k \<notin> key ` set rows"
  by (induction rows) auto

lemma row_with_in: "distinct (map key rows) \<Longrightarrow> r \<in> set rows \<Longrightarrow> row_with key (key r) rows = Some r"
  by (induction rows) (auto simp: image_iff)

lemma row_with_append: "row_with key k (xs @ ys) = (case row_with key k xs of None \<Rightarrow> row_with key k ys | Some r \<Rightarrow> Some r)"
  by (induction xs) auto

lemma row_with_filter_key: "row_with key k (filter (\<lambda>x. key x \<noteq> j) rows) = (if k = j then None else row_with key k rows)"
  by (induction rows) auto

lemma set_update_where: "set (update_where p f rows) = (\<lambda>r. if p r then f r else r) ` set rows"
  by (simp add: update_where_def)

lemma length_update_where [simp]: "length (update_where p f rows) = length rows"
  by (simp add: update_where_def)

lemma map_update_where:
  "(\<And>r. p r \<Longrightarrow> g (f r) = g r) \<Longrightarrow> map g (update_where p f rows) = map g rows"
  by (induction rows) (auto simp: update_where_def)

lemma row_with_update_where:
  assumes "\<And>r. p r \<Longrightarrow> key (f r) = key r"
  shows "row_with key k (update_where p f rows) = map_option (\<lambda>r. if p r then f r else r) (row_with key k rows)"
  using assms by (induction rows) (auto simp: update_where_def)

lemma sum_by_update_where:
  "(\<And>r. p r \<Longrightarrow> g (f r) = g r) \<Longrightarrow> sum_by g (update_where p f rows) = sum_by g rows"
  by (induction rows) (auto simp: update_where_def)

lemma filter_update_where:
  "(\<And>r. p r \<Longrightarrow> q (f r) = q r) \<Longrightarrow> filter q (update_where p f rows) = update_where p f (filter q rows)"
  by (induction rows) (auto simp: update_where_def)

lemma distinct_insert_row: "distinct (map key rows) \<Longrightarrow> insert_row key r rows = Inr rows' \<Longrightarrow> distinct (map key rows')"
  by (auto simp: insert_row_def row_with_None split: if_splits)

lemma distinct_insert_ignore: "distinct (map key rows) \<Longrightarrow> distinct (map key (insert_ignore key r rows))"
  by (auto simp: insert_ignore_def row_with_None)

lemma distinct_replace_row: "distinct (map key rows) \<Longrightarrow> distinct (map key (replace_row key r rows))"
  by (auto simp: replace_row_def distinct_map_filter)

lemma distinct_upsert_row:
  assumes "distinct (map key rows)" "\<And>old. key old = key r \<Longrightarrow> key (merge old r) = key r"
  shows "distinct (map key (upsert_row key merge r rows))"
proof -
  have "map key (update_where (\<lambda>x. key x = key r) (\<lambda>old. merge old r) rows) = map key rows"
    by (rule map_update_where) (simp add: assms(2))
  with assms(1) show ?thesis by (auto simp: upsert_row_def row_with_None)
qed

section \<open>The write contract\<close>

text \<open>
  A keyed store: after a write the key holds what was written and no other key
  changed. Both overwriting statements give it; a history of writes leaves the
  last one for each key.
\<close>

locale keyed_store =
  fixes key :: "'r \<Rightarrow> 'k" and put :: "'r \<Rightarrow> 'r list \<Rightarrow> 'r list"
  assumes put_same: "distinct (map key rows) \<Longrightarrow> row_with key (key r) (put r rows) = Some r"
    and put_other: "k \<noteq> key r \<Longrightarrow> row_with key k (put r rows) = row_with key k rows"
    and put_distinct: "distinct (map key rows) \<Longrightarrow> distinct (map key (put r rows))"
begin

lemma puts_distinct: "distinct (map key rows) \<Longrightarrow> distinct (map key (fold put rs rows))"
  by (induction rs arbitrary: rows) (auto intro: put_distinct)

lemma puts_last:
  assumes "distinct (map key rows)"
  shows "row_with key k (fold put rs rows) =
    (case filter (\<lambda>r. key r = k) rs of [] \<Rightarrow> row_with key k rows | xs \<Rightarrow> Some (last xs))"
  using assms
proof (induction rs arbitrary: rows)
  case (Cons r rs)
  from Cons.IH [OF put_distinct [OF Cons.prems]] Cons.prems show ?case
    by (cases "key r = k") (auto simp: put_same put_other split: list.splits)
qed simp

end

lemma keyed_store_replace: "keyed_store key (replace_row key)"
proof
  fix r :: 'a and rows
  show "row_with key (key r) (replace_row key r rows) = Some r"
    by (simp add: replace_row_def row_with_append row_with_filter_key)
  show "k \<noteq> key r \<Longrightarrow> row_with key k (replace_row key r rows) = row_with key k rows" for k
    by (auto simp: replace_row_def row_with_append row_with_filter_key split: option.splits)
qed (rule distinct_replace_row)

lemma keyed_store_upsert: "keyed_store key (upsert_row key (\<lambda>old r. r))"
proof
  fix r :: 'a and rows
  let ?put = "upsert_row key (\<lambda>old r. r) r rows"
  have upd: "row_with key k (update_where (\<lambda>x. key x = key r) (\<lambda>old. r) rows)
      = map_option (\<lambda>x. if key x = key r then r else x) (row_with key k rows)" for k
    by (rule row_with_update_where) simp
  show "row_with key (key r) ?put = Some r"
    by (auto simp: upsert_row_def row_with_append upd dest: row_with_SomeD)
  show "k \<noteq> key r \<Longrightarrow> row_with key k ?put = row_with key k rows" for k
    by (auto simp: upsert_row_def row_with_append upd option.map_id0 map_option_case
        split: option.splits dest: row_with_SomeD)
qed (rule distinct_upsert_row, simp_all)

end
