(* ===== verification/Domain.thy ===== *)
theory Domain
  imports PyText
begin

text \<open>
  The contract types of \<open>dhan_cas_bot/domain.py\<close>. A frozen dataclass is a
  record; its \<open>__post_init__\<close> or \<open>validate\<close> is a check that returns the value
  or the exception the class raises.
\<close>

datatype pyvalue =
    PyNone | PyBool bool | PyFloat rat | PyInt int | PyStr string | PyDecimal decnum | PyOther

definition dec :: "pyvalue \<Rightarrow> string \<Rightarrow> bool \<Rightarrow> decimal res" where
  "dec v field_name allow_negative =
     (let finish = (\<lambda>d. case d of
          NonFinite \<Rightarrow> Inl (ContractError (field_name @ '' must be finite''))
        | Finite x \<Rightarrow> if \<not> allow_negative \<and> x < 0
            then Inl (ContractError (field_name @ '' cannot be negative'')) else Inr x)
      in case v of
           PyInt n \<Rightarrow> finish (Finite (of_int n))
         | PyDecimal d \<Rightarrow> finish d
         | PyStr s \<Rightarrow> (case parse_decimal s of
               None \<Rightarrow> Inl (ContractError (field_name @ '' is not decimal''))
             | Some d \<Rightarrow> finish d)
         | _ \<Rightarrow> Inl (ContractError (field_name @ '' must be an exact decimal string/integer'')))"

text \<open>A value of \<open>details\<close>; a decimal stands for the text it is written and read back as.\<close>

datatype dval = DNone | DText string | DDec decimal | DBool bool | DInt int | DTime instant

type_synonym details = "(string \<times> dval) list"

definition dget :: "string \<Rightarrow> details \<Rightarrow> dval" where
  "dget k d = (case map_of d k of None \<Rightarrow> DNone | Some v \<Rightarrow> v)"

datatype segment = NSE_FNO | NSE_INDEX

datatype option_type = CE | PE

datatype cas_phase = CTS_CLOSE | CAS_LM_START | CAS_M_STOP | CAS_STOP | UNKNOWN_PHASE

record instrument =
  security_id :: string
  underlying :: string
  seg :: segment
  expiry :: day
  otype :: option_type
  strike :: decimal
  lot_size :: int
  tick_size :: decimal
  freeze_qty :: int
  lower_limit :: "decimal option"
  upper_limit :: "decimal option"

definition check_instrument :: "instrument \<Rightarrow> instrument res" where
  "check_instrument i =
     (if security_id i = [] \<or> seg i \<noteq> NSE_FNO \<or> upper (underlying i) \<noteq> ''NIFTY''
      then Inl (ContractError ''instrument is not an NSE NIFTY option'')
      else if lot_size i \<le> 0 \<or> freeze_qty i < lot_size i
      then Inl (ContractError ''freeze quantity must permit at least one lot'')
      else if tick_size i \<le> 0 \<or> strike i < 0
      then Inl (ContractError ''invalid instrument price metadata'')
      else Inr i)"

definition tick :: "instrument \<Rightarrow> decimal \<Rightarrow> int res" where
  "tick i price =
     (let quotient = ddiv price (tick_size i)
      in if \<not> is_integral quotient then Inl (ContractError ''price is not tick aligned'')
         else Inr \<lfloor>quotient\<rfloor>)"

record level =
  lv_price :: decimal
  lv_qty :: int

definition check_level :: "level \<Rightarrow> level res" where
  "check_level l = (if lv_price l \<le> 0 \<or> lv_qty l < 0 then Inl (ContractError ''invalid book level'') else Inr l)"

record market_statistics =
  last_price :: decimal
  last_quantity :: int
  average_price :: decimal
  volume :: int
  total_sell_quantity :: int
  total_buy_quantity :: int
  open_interest :: int
  oi_day_high :: int
  oi_day_low :: int
  day_open :: decimal
  day_close :: "decimal option"
  day_high :: decimal
  day_low :: decimal

definition check_statistics :: "market_statistics \<Rightarrow> market_statistics res" where
  "check_statistics m =
     (if last_price m < 0 \<or> average_price m < 0 \<or> day_open m < 0
         \<or> (case day_close m of None \<Rightarrow> False | Some x \<Rightarrow> x < 0) \<or> day_high m < 0 \<or> day_low m < 0
      then Inl (ContractError ''invalid market statistic price'')
      else if last_quantity m < 0 \<or> volume m < 0 \<or> total_sell_quantity m < 0 \<or> total_buy_quantity m < 0
         \<or> open_interest m < 0 \<or> oi_day_high m < 0 \<or> oi_day_low m < 0
      then Inl (ContractError ''invalid market statistic quantity'')
      else Inr m)"

record option_book =
  instr :: instrument
  bids :: "level list"
  asks :: "level list"
  bk_epoch :: string
  bk_received_ns :: int
  bk_provider_ts :: "int option"
  bk_statistics :: "market_statistics option"

definition check_book :: "option_book \<Rightarrow> option_book res" where
  "check_book b =
     (if 5 < length (bids b) \<or> 5 < length (asks b)
      then Inl (ContractError ''Dhan Full book must have at most five levels'')
      else if bk_epoch b = [] \<or> bk_received_ns b \<le> 0
      then Inl (ContractError ''book identity is required'')
      else Inr b)"

definition top_bid :: "option_book \<Rightarrow> level option" where
  "top_bid b = find (\<lambda>x. 0 < lv_qty x) (bids b)"

definition top_ask :: "option_book \<Rightarrow> level option" where
  "top_ask b = find (\<lambda>x. 0 < lv_qty x) (asks b)"

record index_observation =
  ob_value :: decimal
  provider_ts_ms :: int
  ob_received_ns :: int
  ob_epoch :: string
  receiver_seq :: int
  frame_kind :: string
  raw_identity :: string
  wrapper_present :: bool

definition check_observation :: "index_observation \<Rightarrow> index_observation res" where
  "check_observation x =
     (if ob_value x \<le> 0 \<or> provider_ts_ms x < 0 \<or> ob_received_ns x \<le> 0 \<or> receiver_seq x < 0
      then Inl (ContractError ''invalid index observation'')
      else if frame_kind x \<noteq> ''live_feed'' \<or> \<not> wrapper_present x
      then Inl (ContractError ''reference observations require a live IEP/LTP frame'')
      else Inr x)"

record cas_status =
  phase :: cas_phase
  updated_time_ms :: int
  st_trading_date :: day
  st_epoch :: string

record mandate =
  md_account_id :: string
  md_strategy_id :: string
  allocated_capital :: decimal
  cumulative_entry_debit_cap :: "decimal option"
  debit_cap_scope :: string
  reinvest_realized_profit :: bool
  equity_ceiling :: "decimal option"
  probe_max_attempts_per_session :: int
  probe_entry_debit_cap_per_session :: decimal
  probe_spending_cap_per_mandate :: decimal
  live_order_authority :: bool

definition validate_mandate :: "mandate \<Rightarrow> unit res" where
  "validate_mandate m =
     (if md_account_id m = [] \<or> md_strategy_id m \<noteq> ''CAS_LAG_V1''
      then Inl (ContractError ''invalid mandate identity'')
      else if allocated_capital m < 0
      then Inl (ContractError ''allocated capital cannot be negative'')
      else if (case cumulative_entry_debit_cap m of None \<Rightarrow> False | Some c \<Rightarrow> c < 0)
      then Inl (ContractError ''entry debit cap cannot be negative'')
      else if debit_cap_scope m \<notin> {''none'', ''session'', ''mandate''}
      then Inl (ContractError ''invalid debit cap scope'')
      else if cumulative_entry_debit_cap m = None \<and> debit_cap_scope m \<noteq> ''none''
      then Inl (ContractError ''null debit cap requires scope none'')
      else if cumulative_entry_debit_cap m \<noteq> None \<and> debit_cap_scope m = ''none''
      then Inl (ContractError ''finite debit cap requires session or mandate scope'')
      else if probe_max_attempts_per_session m \<le> 0
      then Inl (ContractError ''probe attempts must be positive'')
      else if probe_entry_debit_cap_per_session m \<le> 0 \<or> probe_spending_cap_per_mandate m \<le> 0
      then Inl (ContractError ''probe budgets must be finite and positive'')
      else if (case equity_ceiling m of None \<Rightarrow> False | Some e \<Rightarrow> e \<le> 0)
      then Inl (ContractError ''equity ceiling must be positive'')
      else Inr ())"

record funds_snapshot =
  observed_at :: instant
  spendable_cash :: decimal
  strategy_equity :: decimal
  withdrawable_cash :: decimal
  collateral :: decimal
  broker_account :: string

record fill =
  f_trade_id :: string
  f_order_id :: string
  f_security_id :: string
  f_quantity :: int
  f_price :: decimal
  f_fees :: decimal
  f_occurred_at :: instant

definition check_fill :: "fill \<Rightarrow> fill res" where
  "check_fill f =
     (if f_trade_id f = [] \<or> f_order_id f = [] \<or> f_quantity f \<le> 0 \<or> f_price f \<le> 0 \<or> f_fees f < 0
      then Inl (ContractError ''invalid fill'') else Inr f)"

datatype side = BUY | SELL

record intent =
  in_id :: string
  in_side :: side
  in_instrument :: instrument
  in_quantity :: int
  in_limit_price :: decimal
  in_client_order_id :: string
  in_created_at :: instant
  in_lifecycle_id :: string

definition check_intent :: "intent \<Rightarrow> intent res" where
  "check_intent n =
     (if in_quantity n \<le> 0 then Inl (ContractError ''invalid intent'')
      else if in_limit_price n \<le> 0
      then Inl (ContractError ''only positive LIMIT IOC intents are supported'')
      else if in_quantity n mod lot_size (in_instrument n) \<noteq> 0
      then Inl (ContractError ''intent quantity must be whole lots'')
      else Inr n)"

section \<open>Lemmas\<close>

lemma find_SomeD: "find P xs = Some x \<Longrightarrow> x \<in> set xs \<and> P x"
  by (metis find_Some_iff nth_mem)

lemma top_bidD: "top_bid b = Some l \<Longrightarrow> l \<in> set (bids b) \<and> 0 < lv_qty l"
  by (auto simp: top_bid_def dest: find_SomeD)

lemma top_askD: "top_ask b = Some l \<Longrightarrow> l \<in> set (asks b) \<and> 0 < lv_qty l"
  by (auto simp: top_ask_def dest: find_SomeD)

lemma top_ask_None: "top_ask b = None \<longleftrightarrow> (\<forall>l \<in> set (asks b). lv_qty l \<le> 0)"
  by (auto simp: top_ask_def find_None_iff not_less)

lemma check_instrument_Inr:
  "check_instrument i = Inr j \<longleftrightarrow>
     j = i \<and> security_id i \<noteq> [] \<and> seg i = NSE_FNO \<and> upper (underlying i) = ''NIFTY''
     \<and> 0 < lot_size i \<and> lot_size i \<le> freeze_qty i \<and> 0 < tick_size i \<and> 0 \<le> strike i"
  by (auto simp: check_instrument_def)

definition instrument_ok :: "instrument \<Rightarrow> bool" where
  "instrument_ok i = (check_instrument i = Inr i)"

lemma instrument_okD:
  assumes "instrument_ok i"
  shows "0 < lot_size i" "lot_size i \<le> freeze_qty i" "0 < tick_size i" "0 \<le> strike i"
  using assms by (simp_all add: instrument_ok_def check_instrument_Inr)

lemma check_intent_Inr:
  "check_intent n = Inr m \<longleftrightarrow>
     m = n \<and> 0 < in_quantity n \<and> 0 < in_limit_price n \<and> in_quantity n mod lot_size (in_instrument n) = 0"
  by (auto simp: check_intent_def)

text \<open>A multiple of the tick with at most 28 digits of tick count is accepted.\<close>

lemma tick_of_multiple:
  assumes "0 < tick_size i" "\<bar>k\<bar> < 10 ^ 28"
  shows "tick i (of_int k * tick_size i) = Inr k"
  using assms by (simp add: tick_def ddiv_def Let_def ctx28_of_int)

lemma tick_Inr:
  assumes "tick i p = Inr k"
  shows "ddiv p (tick_size i) = of_int k"
  using assms by (auto simp: tick_def Let_def is_integral_def split: if_splits)

section \<open>A concrete contract and book\<close>

text \<open>The inputs at which the development's witnesses are evaluated.\<close>

definition demo_instrument :: instrument where
  "demo_instrument = \<lparr>security_id = ''1'', underlying = ''NIFTY'', seg = NSE_FNO, expiry = 20000, otype = CE,
     strike = 24000, lot_size = 75, tick_size = 1 / 20, freeze_qty = 1800,
     lower_limit = Some (1 / 20), upper_limit = Some 500\<rparr>"

definition demo_book :: option_book where
  "demo_book = \<lparr>instr = demo_instrument, bids = [\<lparr>lv_price = 100, lv_qty = 150\<rparr>, \<lparr>lv_price = 99, lv_qty = 75\<rparr>],
     asks = [\<lparr>lv_price = 101, lv_qty = 150\<rparr>, \<lparr>lv_price = 102, lv_qty = 300\<rparr>], bk_epoch = ''e'', bk_received_ns = 1,
     bk_provider_ts = None, bk_statistics = None\<rparr>"

lemma demo_instrument_ok: "instrument_ok demo_instrument"
  by code_simp

end
