(* ===== verification/Search.thy ===== *)
theory Search
  imports Prelude
begin

text \<open>
  The integer bisections of the program. Both the sizing of an order in lots
  (\<open>strategy.py\<close>) and the search for a price ceiling in ticks
  (\<open>seconds_strategies.py\<close>) look for the largest admissible position and are
  right because admissibility is lost only once as the position grows; that
  contract is the locale \<open>threshold\<close>.
\<close>

section \<open>The two loops\<close>

text \<open>
  \<open>while low < high: middle = (low+high+1)//2\<close>; keep the middle when it is
  permitted, go below it otherwise.
\<close>

function search_lots :: "(int \<Rightarrow> bool res) \<Rightarrow> int \<Rightarrow> int \<Rightarrow> int res" where
  "search_lots p low high =
     (if low < high then
        let middle = (low + high + 1) div 2
        in bindR (p middle) (\<lambda>yes. if yes then search_lots p middle high else search_lots p low (middle - 1))
      else Inr low)"
  by pat_completeness auto
termination
  by (relation "measure (\<lambda>(p, low, high). nat (high - low))") auto

declare search_lots.simps [simp del]

text \<open>
  \<open>while lo <= hi: step = (lo+hi)//2\<close>; the best step seen so far is carried along.
\<close>

function search_steps :: "(int \<Rightarrow> bool res) \<Rightarrow> int \<Rightarrow> int \<Rightarrow> int \<Rightarrow> int res" where
  "search_steps p best lo hi =
     (if lo \<le> hi then
        let step = (lo + hi) div 2
        in bindR (p step) (\<lambda>yes. if yes then search_steps p step (step + 1) hi else search_steps p best lo (step - 1))
      else Inr best)"
  by pat_completeness auto
termination
  by (relation "measure (\<lambda>(p, best, lo, hi). nat (hi - lo + 1))") auto

declare search_steps.simps [simp del]

section \<open>Thresholds\<close>

locale threshold =
  fixes p :: "int \<Rightarrow> bool" and least :: int
  assumes downward: "least \<le> m \<Longrightarrow> m \<le> n \<Longrightarrow> p n \<Longrightarrow> p m"
begin

lemma search_lots_finds:
  assumes "low \<le> high" "least \<le> low + 1"
    and "\<And>k. low < k \<Longrightarrow> k \<le> high \<Longrightarrow> q k = Inr (p k)"
    and "low = base \<or> p low" "base \<le> low"
  shows "\<exists>k. search_lots q low high = Inr k \<and> low \<le> k \<and> k \<le> high \<and> (k = base \<or> p k)
           \<and> (\<forall>j. k < j \<longrightarrow> j \<le> high \<longrightarrow> \<not> p j)"
  using assms
proof (induction q low high rule: search_lots.induct)
  case (1 q low high)
  show ?case
  proof (cases "low < high")
    case True
    define mid where "mid = (low + high + 1) div 2"
    have mid: "low < mid" "mid \<le> high" using True by (simp_all add: mid_def)
    have qm: "q mid = Inr (p mid)" using 1(5) mid by simp
    have unf: "search_lots q low high =
        (if p mid then search_lots q mid high else search_lots q low (mid - 1))"
      using True qm by (subst search_lots.simps) (simp add: Let_def mid_def)
    show ?thesis
    proof (cases "p mid")
      case True
      have "\<exists>k. search_lots q mid high = Inr k \<and> mid \<le> k \<and> k \<le> high \<and> (k = base \<or> p k)
               \<and> (\<forall>j. k < j \<longrightarrow> j \<le> high \<longrightarrow> \<not> p j)"
        by (rule "1.IH"(1) [of mid True])
           (use \<open>low < high\<close> mid mid_def True 1(4-) in auto)
      with True mid unf show ?thesis by force
    next
      case False
      have "\<exists>k. search_lots q low (mid - 1) = Inr k \<and> low \<le> k \<and> k \<le> mid - 1 \<and> (k = base \<or> p k)
               \<and> (\<forall>j. k < j \<longrightarrow> j \<le> mid - 1 \<longrightarrow> \<not> p j)"
        by (rule "1.IH"(2) [of mid False])
           (use \<open>low < high\<close> mid mid_def False 1(4-) in auto)
      then obtain k where k: "search_lots q low (mid - 1) = Inr k" "low \<le> k" "k \<le> mid - 1"
          "k = base \<or> p k" "\<forall>j. k < j \<longrightarrow> j \<le> mid - 1 \<longrightarrow> \<not> p j" by blast
      have "\<not> p j" if "mid \<le> j" for j
        using downward [of mid j] mid 1(4) False that by auto
      then have "\<not> p j" if "k < j" "j \<le> high" for j
        using k(5) that by (cases "j \<le> mid - 1") auto
      with k mid False unf show ?thesis by auto
    qed
  next
    case False
    then have "search_lots q low high = Inr low"
      by (subst search_lots.simps) simp
    moreover have "low = high" using False "1.prems" by simp
    ultimately have "search_lots q low high = Inr low" "low = high" by simp_all
    with "1.prems" show ?thesis by auto
  qed
qed

text \<open>The bisection returns the largest permitted position, or its start when none is.\<close>

lemma search_lots_max:
  assumes "low \<le> high" "least \<le> low + 1" "\<And>k. low < k \<Longrightarrow> k \<le> high \<Longrightarrow> q k = Inr (p k)"
  obtains k where "search_lots q low high = Inr k" "low \<le> k" "k \<le> high" "k = low \<or> p k"
    "\<And>j. k < j \<Longrightarrow> j \<le> high \<Longrightarrow> \<not> p j"
  using search_lots_finds [of low high q low] assms by auto

lemma search_steps_finds:
  assumes "\<And>k. lo \<le> k \<Longrightarrow> k \<le> hi \<Longrightarrow> q k = Inr (p k)"
    and "least \<le> best" "p best" "best \<le> lo" "lo \<le> best + 1" "best \<le> N" "hi \<le> N"
    and "\<And>j. hi < j \<Longrightarrow> j \<le> N \<Longrightarrow> j \<le> best \<or> \<not> p j"
  shows "\<exists>k. search_steps q best lo hi = Inr k \<and> best \<le> k \<and> k \<le> N \<and> p k
           \<and> (\<forall>j. k < j \<longrightarrow> j \<le> N \<longrightarrow> \<not> p j)"
  using assms
proof (induction q best lo hi rule: search_steps.induct)
  case (1 q best lo hi)
  show ?case
  proof (cases "lo \<le> hi")
    case True
    define mid where "mid = (lo + hi) div 2"
    have mid: "lo \<le> mid" "mid \<le> hi" using True by (simp_all add: mid_def)
    have qm: "q mid = Inr (p mid)" using "1.prems"(1) mid by simp
    have unf: "search_steps q best lo hi =
        (if p mid then search_steps q mid (mid + 1) hi else search_steps q best lo (mid - 1))"
      using True qm by (subst search_steps.simps) (simp add: Let_def mid_def)
    show ?thesis
    proof (cases "p mid")
      case True
      have "\<exists>k. search_steps q mid (mid + 1) hi = Inr k \<and> mid \<le> k \<and> k \<le> N \<and> p k
               \<and> (\<forall>j. k < j \<longrightarrow> j \<le> N \<longrightarrow> \<not> p j)"
        by (rule "1.IH"(1) [of mid True])
           (use \<open>lo \<le> hi\<close> mid mid_def True "1.prems" in force)+
      with True mid "1.prems" unf show ?thesis by force
    next
      case False
      have above: "\<not> p j" if "mid \<le> j" for j
        using downward [of mid j] mid "1.prems"(2,4) False that by auto
      have "\<exists>k. search_steps q best lo (mid - 1) = Inr k \<and> best \<le> k \<and> k \<le> N \<and> p k
               \<and> (\<forall>j. k < j \<longrightarrow> j \<le> N \<longrightarrow> \<not> p j)"
        by (rule "1.IH"(2) [of mid False])
           (use \<open>lo \<le> hi\<close> mid mid_def False "1.prems" above in auto)
      with False unf show ?thesis by auto
    qed
  next
    case False
    then have "search_steps q best lo hi = Inr best"
      by (simp add: search_steps.simps [of q best lo hi])
    moreover have "\<not> p j" if "best < j" "j \<le> N" for j
      using "1.prems"(5) "1.prems"(8) [of j] False that by force
    ultimately show ?thesis using "1.prems" by auto
  qed
qed

lemma search_steps_max:
  assumes "\<And>k. 0 \<le> k \<Longrightarrow> k \<le> hi \<Longrightarrow> q k = Inr (p k)" "least \<le> 0" "p 0" "0 \<le> hi"
  obtains k where "search_steps q 0 0 hi = Inr k" "0 \<le> k" "k \<le> hi" "p k"
    "\<And>j. k < j \<Longrightarrow> j \<le> hi \<Longrightarrow> \<not> p j"
  using search_steps_finds [where lo = 0 and hi = hi and best = 0 and N = hi and q = q] assms by auto

end

end
