(* ===== verification/Risk.thy ===== *)
theory Risk
  imports Domain Search
begin

text \<open>
  \<open>dhan_cas_bot/risk.py\<close>: the capital rule, the fee envelope, the cash an entry
  may need, the allocation a decision is checked against and the quantities it
  admits. Fees enter the other components through the contract
  \<open>fee_envelope\<close>: nonnegative, and no smaller for more turnover or more orders.
\<close>

section \<open>Definitions\<close>

definition PAISE :: decimal where
  "PAISE = 1 / 100"

definition ceil_paise :: "decimal \<Rightarrow> decimal" where
  "ceil_paise x = quantize_ceiling x PAISE"

definition floor_paise :: "decimal \<Rightarrow> decimal" where
  "floor_paise x = quantize_floor x PAISE"

definition lifecycle_ceiling :: "decimal \<Rightarrow> decimal" where
  "lifecycle_ceiling bankroll =
     (if bankroll \<le> 0 then 0
      else if bankroll < 40000 then min bankroll 10000
      else floor_paise (bankroll * (1 / 4)))"

record fee_schedule =
  brokerage_per_child :: decimal
  exchange_rate :: decimal
  sebi_rate :: decimal
  ipft_rate :: decimal
  buy_stamp_rate :: decimal
  sell_stt_rate :: decimal
  gst_rate :: decimal

definition default_fees :: fee_schedule where
  "default_fees = \<lparr>brokerage_per_child = 20, exchange_rate = 355299 / 1000000000,
     sebi_rate = 10 / 10000000, ipft_rate = 1 / 1000000000, buy_stamp_rate = 3 / 100000,
     sell_stt_rate = 15 / 10000, gst_rate = 18 / 100\<rparr>"

definition fee_upper :: "decimal \<Rightarrow> decimal \<Rightarrow> int \<Rightarrow> decimal res" where
  "fee_upper value quantum children =
     (if value < 0 \<or> children \<le> 0 then Inl (ContractError ''invalid fee inputs'')
      else Inr (quantize_ceiling value quantum + of_int (children - 1) * quantum))"

definition fee_common :: "fee_schedule \<Rightarrow> decimal \<Rightarrow> int \<Rightarrow> decimal res" where
  "fee_common f turnover children =
     (let brokerage = brokerage_per_child f * of_int children
      in bindR (fee_upper (turnover * exchange_rate f) PAISE children) (\<lambda>exchange.
         bindR (fee_upper (turnover * sebi_rate f) PAISE children) (\<lambda>sebi.
         bindR (fee_upper (turnover * ipft_rate f) PAISE children) (\<lambda>ipft.
           let base = brokerage + exchange + sebi + ipft
           in bindR (fee_upper (base * gst_rate f) PAISE children) (\<lambda>gst. Inr (base + gst))))))"

definition fee_buy :: "fee_schedule \<Rightarrow> decimal \<Rightarrow> int \<Rightarrow> decimal res" where
  "fee_buy f turnover children =
     bindR (fee_common f turnover children) (\<lambda>c.
     bindR (fee_upper (turnover * buy_stamp_rate f) 1 children) (\<lambda>s. Inr (c + s)))"

definition fee_sell :: "fee_schedule \<Rightarrow> decimal \<Rightarrow> int \<Rightarrow> decimal res" where
  "fee_sell f turnover children =
     bindR (fee_common f turnover children) (\<lambda>c.
     bindR (fee_upper (turnover * sell_stt_rate f) 1 children) (\<lambda>s. Inr (c + s)))"

definition worst_case_entry_cash :: "fee_schedule \<Rightarrow> int \<Rightarrow> decimal \<Rightarrow> int \<Rightarrow> decimal res" where
  "worst_case_entry_cash f quantity limit children =
     (if limit < 0 then Inl (ContractError ''limit cannot be negative'')
      else if quantity \<le> 0 \<or> children \<le> 0 \<or> limit \<le> 0
      then Inl (ContractError ''entry cash inputs must be positive'')
      else let turnover = of_int quantity * limit
           in bindR (fee_buy f turnover children) (\<lambda>fees. Inr (turnover + fees)))"

definition conditional_sale_cash :: "fee_schedule \<Rightarrow> int \<Rightarrow> decimal \<Rightarrow> int \<Rightarrow> decimal res" where
  "conditional_sale_cash f quantity target children =
     (let turnover = of_int quantity * target
      in bindR (fee_sell f turnover children) (\<lambda>fees. Inr (turnover - fees)))"

definition reserve_cash :: "decimal \<Rightarrow> decimal" where
  "reserve_cash value = ceil_paise value"

record allocation =
  bankroll :: decimal
  ceiling_amount :: decimal
  remaining :: decimal
  al_spendable :: decimal
  selected_cap_remaining :: "decimal option"

definition allocation_start ::
  "decimal \<Rightarrow> decimal \<Rightarrow> decimal \<Rightarrow> decimal \<Rightarrow> decimal option \<Rightarrow> allocation" where
  "allocation_start bank spendable consumed reserved debit_cap_remaining =
     (let ceil = lifecycle_ceiling bank; rest = ceil - consumed - reserved
      in \<lparr>bankroll = bank, ceiling_amount = ceil, remaining = max 0 rest,
          al_spendable = max 0 spendable, selected_cap_remaining = debit_cap_remaining\<rparr>)"

definition permits :: "allocation \<Rightarrow> decimal \<Rightarrow> bool" where
  "permits a cash =
     (if cash \<le> 0 then False
      else if cash > remaining a \<or> cash > al_spendable a then False
      else (case selected_cap_remaining a of None \<Rightarrow> True | Some cap \<Rightarrow> cash \<le> cap))"

definition ladder_capacity :: "option_book \<Rightarrow> decimal \<Rightarrow> int res" where
  "ladder_capacity b limit =
     bindR (tick (instr b) limit) (\<lambda>_.
       let total = sum_by lv_qty (filter (\<lambda>l. lv_price l \<le> limit) (asks b))
       in Inr (total div lot_size (instr b) * lot_size (instr b)))"

text \<open>\<open>range(start, stop, step)\<close> for a positive step.\<close>

definition py_range :: "int \<Rightarrow> int \<Rightarrow> int \<Rightarrow> int list" where
  "py_range start stop step = map (\<lambda>k. start + step * k) [0 .. (stop - start + step - 1) div step - 1]"

definition candidate_quantities ::
  "option_book \<Rightarrow> decimal \<Rightarrow> allocation \<Rightarrow> int \<Rightarrow> fee_schedule \<Rightarrow> int list res" where
  "candidate_quantities b limit a children f =
     bindR (ladder_capacity b limit) (\<lambda>capacity.
       let available = min capacity (freeze_qty (instr b)); lot = lot_size (instr b)
       in bindR (mapR (\<lambda>q. bindR (worst_case_entry_cash f q limit children)
                    (\<lambda>c. Inr (q, permits a (reserve_cash c))))
                  (py_range lot (available + 1) lot))
            (\<lambda>rows. Inr (map fst (filter snd rows))))"

definition reconcile_funds :: "funds_snapshot \<Rightarrow> decimal \<Rightarrow> decimal res" where
  "reconcile_funds s mandate_capital =
     (if broker_account s = [] then Inl (ContractError ''broker account is missing'')
      else if mandate_capital < 0 then Inl (ContractError ''mandate capital cannot be negative'')
      else Inr (if mandate_capital \<noteq> 0 then min (strategy_equity s) mandate_capital else strategy_equity s))"

section \<open>The fee contract\<close>

locale fee_envelope =
  fixes fee :: "decimal \<Rightarrow> int \<Rightarrow> decimal"
  assumes fee_nonneg: "0 \<le> t \<Longrightarrow> 1 \<le> c \<Longrightarrow> 0 \<le> fee t c"
    and fee_mono: "0 \<le> t \<Longrightarrow> t \<le> u \<Longrightarrow> 1 \<le> c \<Longrightarrow> c \<le> d \<Longrightarrow> fee t c \<le> fee u d"
begin

text \<open>The debit of a quantity bought at a limit, split into children of a given size.\<close>

lemma debit_mono:
  assumes "0 \<le> q" "q \<le> r" "0 \<le> limit" "1 \<le> c" "c \<le> d"
  shows "of_int q * limit + fee (of_int q * limit) c \<le> of_int r * limit + fee (of_int r * limit) d"
proof -
  have "of_int q * limit \<le> of_int r * limit"
    using assms by (intro mult_right_mono) simp_all
  moreover have "0 \<le> of_int q * limit" using assms by simp
  ultimately show ?thesis using assms fee_mono by (intro add_mono) auto
qed

lemma debit_strict:
  assumes "0 \<le> q" "q < r" "0 < limit" "1 \<le> c" "c \<le> d"
  shows "of_int q * limit + fee (of_int q * limit) c < of_int r * limit + fee (of_int r * limit) d"
proof -
  have "of_int q * limit < of_int r * limit" using assms by simp
  moreover have "fee (of_int q * limit) c \<le> fee (of_int r * limit) d"
    using assms by (intro fee_mono) (simp_all add: mult_right_mono)
  ultimately show ?thesis by linarith
qed

lemma debit_ge_turnover: "0 \<le> t \<Longrightarrow> 1 \<le> c \<Longrightarrow> t \<le> t + fee t c"
  using fee_nonneg by simp

end

definition upper_amount :: "decimal \<Rightarrow> decimal \<Rightarrow> int \<Rightarrow> decimal" where
  "upper_amount value quantum children = quantize_ceiling value quantum + of_int (children - 1) * quantum"

definition base_amount :: "fee_schedule \<Rightarrow> decimal \<Rightarrow> int \<Rightarrow> decimal" where
  "base_amount f t c = brokerage_per_child f * of_int c + upper_amount (t * exchange_rate f) PAISE c
     + upper_amount (t * sebi_rate f) PAISE c + upper_amount (t * ipft_rate f) PAISE c"

definition common_amount :: "fee_schedule \<Rightarrow> decimal \<Rightarrow> int \<Rightarrow> decimal" where
  "common_amount f t c = base_amount f t c + upper_amount (base_amount f t c * gst_rate f) PAISE c"

definition buy_amount :: "fee_schedule \<Rightarrow> decimal \<Rightarrow> int \<Rightarrow> decimal" where
  "buy_amount f t c = common_amount f t c + upper_amount (t * buy_stamp_rate f) 1 c"

definition sell_amount :: "fee_schedule \<Rightarrow> decimal \<Rightarrow> int \<Rightarrow> decimal" where
  "sell_amount f t c = common_amount f t c + upper_amount (t * sell_stt_rate f) 1 c"

definition fees_ok :: "fee_schedule \<Rightarrow> bool" where
  "fees_ok f = (0 \<le> brokerage_per_child f \<and> 0 \<le> exchange_rate f \<and> 0 \<le> sebi_rate f
     \<and> 0 \<le> ipft_rate f \<and> 0 \<le> buy_stamp_rate f \<and> 0 \<le> sell_stt_rate f \<and> 0 \<le> gst_rate f)"

lemma fees_ok_default [simp]: "fees_ok default_fees"
  by (simp add: fees_ok_def default_fees_def)

lemma PAISE_pos [simp]: "0 < PAISE"
  by (simp add: PAISE_def)

lemma upper_amount_nonneg: "0 \<le> v \<Longrightarrow> 0 < q \<Longrightarrow> 1 \<le> c \<Longrightarrow> 0 \<le> upper_amount v q c"
  by (simp add: upper_amount_def quantize_ceiling_nonneg)

lemma upper_amount_ge: "0 < q \<Longrightarrow> 1 \<le> c \<Longrightarrow> v \<le> upper_amount v q c"
  using quantize_ceiling_ge [of q v] by (simp add: upper_amount_def add_increasing2)

lemma upper_amount_mono:
  "v \<le> w \<Longrightarrow> 0 < q \<Longrightarrow> c \<le> d \<Longrightarrow> upper_amount v q c \<le> upper_amount w q d"
  unfolding upper_amount_def
  by (intro add_mono quantize_ceiling_mono mult_right_mono) simp_all

lemma fee_upper_eq: "0 \<le> v \<Longrightarrow> 1 \<le> c \<Longrightarrow> fee_upper v q c = Inr (upper_amount v q c)"
  by (simp add: fee_upper_def upper_amount_def)

lemma base_amount_nonneg: "fees_ok f \<Longrightarrow> 0 \<le> t \<Longrightarrow> 1 \<le> c \<Longrightarrow> 0 \<le> base_amount f t c"
  by (auto simp: base_amount_def fees_ok_def intro!: add_nonneg_nonneg upper_amount_nonneg)

lemma base_amount_mono:
  "fees_ok f \<Longrightarrow> 0 \<le> t \<Longrightarrow> t \<le> u \<Longrightarrow> 1 \<le> c \<Longrightarrow> c \<le> d \<Longrightarrow> base_amount f t c \<le> base_amount f u d"
  unfolding base_amount_def
  by (intro add_mono mult_left_mono upper_amount_mono mult_right_mono) (simp_all add: fees_ok_def)

lemma fee_common_eq:
  assumes "fees_ok f" "0 \<le> t" "1 \<le> c"
  shows "fee_common f t c = Inr (common_amount f t c)"
proof -
  have "0 \<le> base_amount f t c * gst_rate f"
    using base_amount_nonneg [OF assms] assms by (simp add: fees_ok_def)
  then show ?thesis
    using assms by (simp add: fee_common_def common_amount_def base_amount_def Let_def fees_ok_def fee_upper_eq)
qed

lemma fee_buy_eq: "fees_ok f \<Longrightarrow> 0 \<le> t \<Longrightarrow> 1 \<le> c \<Longrightarrow> fee_buy f t c = Inr (buy_amount f t c)"
  by (simp add: fee_buy_def buy_amount_def fee_common_eq fee_upper_eq fees_ok_def)

lemma fee_sell_eq: "fees_ok f \<Longrightarrow> 0 \<le> t \<Longrightarrow> 1 \<le> c \<Longrightarrow> fee_sell f t c = Inr (sell_amount f t c)"
  by (simp add: fee_sell_def sell_amount_def fee_common_eq fee_upper_eq fees_ok_def)

lemma common_amount_nonneg: "fees_ok f \<Longrightarrow> 0 \<le> t \<Longrightarrow> 1 \<le> c \<Longrightarrow> 0 \<le> common_amount f t c"
  unfolding common_amount_def
  by (intro add_nonneg_nonneg upper_amount_nonneg mult_nonneg_nonneg base_amount_nonneg)
     (simp_all add: fees_ok_def)

lemma common_amount_mono:
  "fees_ok f \<Longrightarrow> 0 \<le> t \<Longrightarrow> t \<le> u \<Longrightarrow> 1 \<le> c \<Longrightarrow> c \<le> d \<Longrightarrow> common_amount f t c \<le> common_amount f u d"
  unfolding common_amount_def
  by (intro add_mono upper_amount_mono mult_right_mono base_amount_mono) (simp_all add: fees_ok_def)

lemma buy_amount_nonneg: "fees_ok f \<Longrightarrow> 0 \<le> t \<Longrightarrow> 1 \<le> c \<Longrightarrow> 0 \<le> buy_amount f t c"
  unfolding buy_amount_def
  by (intro add_nonneg_nonneg upper_amount_nonneg mult_nonneg_nonneg common_amount_nonneg)
     (simp_all add: fees_ok_def)

lemma sell_amount_nonneg: "fees_ok f \<Longrightarrow> 0 \<le> t \<Longrightarrow> 1 \<le> c \<Longrightarrow> 0 \<le> sell_amount f t c"
  unfolding sell_amount_def
  by (intro add_nonneg_nonneg upper_amount_nonneg mult_nonneg_nonneg common_amount_nonneg)
     (simp_all add: fees_ok_def)

lemma buy_amount_mono:
  "fees_ok f \<Longrightarrow> 0 \<le> t \<Longrightarrow> t \<le> u \<Longrightarrow> 1 \<le> c \<Longrightarrow> c \<le> d \<Longrightarrow> buy_amount f t c \<le> buy_amount f u d"
  unfolding buy_amount_def
  by (intro add_mono common_amount_mono upper_amount_mono mult_right_mono) (simp_all add: fees_ok_def)

lemma sell_amount_mono:
  "fees_ok f \<Longrightarrow> 0 \<le> t \<Longrightarrow> t \<le> u \<Longrightarrow> 1 \<le> c \<Longrightarrow> c \<le> d \<Longrightarrow> sell_amount f t c \<le> sell_amount f u d"
  unfolding sell_amount_def
  by (intro add_mono common_amount_mono upper_amount_mono mult_right_mono) (simp_all add: fees_ok_def)

interpretation buy_fees: fee_envelope "buy_amount default_fees"
  by unfold_locales (simp_all add: buy_amount_nonneg buy_amount_mono)

interpretation sell_fees: fee_envelope "sell_amount default_fees"
  by unfold_locales (simp_all add: sell_amount_nonneg sell_amount_mono)

section \<open>Lemmas on cash and quantities\<close>

lemma worst_case_entry_cash_eq:
  assumes "fees_ok f" "0 < q" "0 < limit" "1 \<le> c"
  shows "worst_case_entry_cash f q limit c = Inr (of_int q * limit + buy_amount f (of_int q * limit) c)"
  using assms by (simp add: worst_case_entry_cash_def Let_def fee_buy_eq)

lemma conditional_sale_cash_eq:
  assumes "fees_ok f" "0 \<le> q" "0 \<le> target" "1 \<le> c"
  shows "conditional_sale_cash f q target c = Inr (of_int q * target - sell_amount f (of_int q * target) c)"
  using assms by (simp add: conditional_sale_cash_def Let_def fee_sell_eq)

lemma ceil_paise_mono: "x \<le> y \<Longrightarrow> ceil_paise x \<le> ceil_paise y"
  by (simp add: ceil_paise_def quantize_ceiling_mono)

lemma ceil_paise_ge: "x \<le> ceil_paise x"
  by (simp add: ceil_paise_def quantize_ceiling_ge)

lemma reserve_cash_mono: "x \<le> y \<Longrightarrow> reserve_cash x \<le> reserve_cash y"
  by (simp add: reserve_cash_def ceil_paise_mono)

lemma reserve_cash_pos: "0 < x \<Longrightarrow> 0 < reserve_cash x"
  using ceil_paise_ge [of x] by (simp add: reserve_cash_def)

text \<open>A smaller positive amount is permitted wherever a larger one is.\<close>

lemma permits_antimono: "0 < x \<Longrightarrow> x \<le> y \<Longrightarrow> permits a y \<Longrightarrow> permits a x"
  by (auto simp: permits_def split: if_splits option.splits)

lemma permits_iff:
  "permits a x \<longleftrightarrow> 0 < x \<and> x \<le> remaining a \<and> x \<le> al_spendable a
     \<and> (\<forall>cap. selected_cap_remaining a = Some cap \<longrightarrow> x \<le> cap)"
  by (auto simp: permits_def split: option.splits)

lemma set_py_range:
  assumes "0 < step"
  shows "set (py_range step (n + 1) step) = {q. \<exists>k\<ge>1. q = k * step \<and> q \<le> n}"
proof -
  have "(n + 1 - step + step - 1) div step = n div step" by simp
  moreover have "(\<exists>k. 0 \<le> k \<and> k \<le> n div step - 1 \<and> q = step + step * k)
      \<longleftrightarrow> (\<exists>k\<ge>1. q = k * step \<and> q \<le> n)" for q
  proof
    assume "\<exists>k. 0 \<le> k \<and> k \<le> n div step - 1 \<and> q = step + step * k"
    then obtain k where k: "0 \<le> k" "k + 1 \<le> n div step" "q = (k + 1) * step"
      by (auto simp: algebra_simps)
    have "(k + 1) * step \<le> n div step * step" using k(2) assms by (intro mult_right_mono) simp_all
    also have "\<dots> \<le> n" using assms by (simp add: minus_mod_eq_div_mult [symmetric])
    finally show "\<exists>k\<ge>1. q = k * step \<and> q \<le> n" using k by (intro exI [of _ "k + 1"]) simp
  next
    assume "\<exists>k\<ge>1. q = k * step \<and> q \<le> n"
    then obtain k where k: "1 \<le> k" "q = k * step" "k * step \<le> n" by auto
    have "k = k * step div step" using assms by simp
    also have "\<dots> \<le> n div step" using k(3) assms by (intro zdiv_mono1)
    finally show "\<exists>k. 0 \<le> k \<and> k \<le> n div step - 1 \<and> q = step + step * k"
      using k by (intro exI [of _ "k - 1"]) (simp add: algebra_simps)
  qed
  moreover have "set (py_range step (n + 1) step)
      = {q. \<exists>k. 0 \<le> k \<and> k \<le> (n + 1 - step + step - 1) div step - 1 \<and> q = step + step * k}"
    by (auto simp: py_range_def image_iff)
  ultimately show ?thesis by simp
qed

lemma sorted_py_range: "0 < step \<Longrightarrow> sorted (py_range a b step) \<and> distinct (py_range a b step)"
proof -
  assume s: "0 < step"
  have "sorted_wrt (<) (py_range a b step)"
    unfolding py_range_def sorted_wrt_map
    by (rule sorted_wrt_mono_rel [OF _ sorted_wrt_upto]) (use s in simp)
  then show ?thesis by (simp add: strict_sorted_iff)
qed

lemma ladder_capacity_eq:
  assumes "tick (instr b) limit = Inr k"
  shows "ladder_capacity b limit = Inr (sum_by lv_qty (filter (\<lambda>l. lv_price l \<le> limit) (asks b))
           div lot_size (instr b) * lot_size (instr b))"
  using assms by (simp add: ladder_capacity_def Let_def)

section \<open>Properties\<close>

text \<open>
  The capital rule of a lifecycle: never more than the bankroll, nothing for
  a bankroll that is not positive, all of it up to 10000 rupees below 40000, and
  from 40000 on a quarter of it to within a paisa; it never falls when the
  bankroll grows.
\<close>

theorem lifecycle_ceiling_rule:
  "0 \<le> lifecycle_ceiling x \<and> lifecycle_ceiling x \<le> max 0 x
   \<and> (0 < x \<longrightarrow> x < 40000 \<longrightarrow> lifecycle_ceiling x = min x 10000)
   \<and> (40000 \<le> x \<longrightarrow> x / 4 - 1 / 100 < lifecycle_ceiling x \<and> lifecycle_ceiling x \<le> x / 4)
   \<and> (x \<le> y \<longrightarrow> lifecycle_ceiling x \<le> lifecycle_ceiling y)"
proof -
  have le: "floor_paise z \<le> z" and gt: "z - 1 / 100 < floor_paise z" for z
    using quantize_floor_le [of PAISE z] quantize_floor_greater [of PAISE z]
    by (simp_all add: floor_paise_def PAISE_def)
  have mono: "w \<le> z \<Longrightarrow> floor_paise w \<le> floor_paise z" for w z
    by (simp add: floor_paise_def quantize_floor_def PAISE_def floor_mono)
  have ten: "10000 \<le> floor_paise (z / 4)" if "40000 \<le> z" for z
    using mono [of 10000 "z / 4"] that by (simp add: floor_paise_def quantize_floor_def PAISE_def)
  have "lifecycle_ceiling x \<le> lifecycle_ceiling y" if "x \<le> y"
    using that mono [of "x / 4" "y / 4"] ten [of y] by (auto simp: lifecycle_ceiling_def min_def)
  then show ?thesis
    using le [of "x / 4"] gt [of "x / 4"] ten [of x] by (auto simp: lifecycle_ceiling_def min_def)
qed

theorem lifecycle_ceiling_rule_witness: "lifecycle_ceiling 9411 \<le> lifecycle_ceiling 60000"
  using lifecycle_ceiling_rule [of 9411 60000] by simp

text \<open>
  C15: The quantities offered for an entry at a tick-aligned limit are exactly the
  whole-lot multiples within the displayed depth at or below the limit and the
  freeze quantity whose reserved worst-case debit the allocation permits; they
  come in increasing order, and with a quantity every smaller whole-lot quantity
  is offered too.
\<close>

theorem candidate_quantities_exact:
  assumes ins: "instrument_ok (instr b)" and tk: "tick (instr b) limit = Inr k"
    and "0 < limit" and "fees_ok f" and "1 \<le> children"
  shows "\<exists>qs. candidate_quantities b limit a children f = Inr qs \<and> sorted qs \<and> distinct qs
    \<and> set qs = {q. \<exists>n\<ge>1. q = n * lot_size (instr b) \<and> q \<le> freeze_qty (instr b)
          \<and> q \<le> sum_by lv_qty (filter (\<lambda>l. lv_price l \<le> limit) (asks b)) div lot_size (instr b) * lot_size (instr b)
          \<and> permits a (reserve_cash (of_int q * limit + buy_amount f (of_int q * limit) children))}
    \<and> (\<forall>n m. 1 \<le> m \<longrightarrow> m \<le> n \<longrightarrow> n * lot_size (instr b) \<in> set qs \<longrightarrow> m * lot_size (instr b) \<in> set qs)"
proof -
  let ?lot = "lot_size (instr b)"
  let ?cap = "sum_by lv_qty (filter (\<lambda>l. lv_price l \<le> limit) (asks b)) div ?lot * ?lot"
  let ?N = "min ?cap (freeze_qty (instr b))"
  let ?cash = "\<lambda>q. of_int q * limit + buy_amount f (of_int q * limit) children"
  let ?ok = "\<lambda>q. permits a (reserve_cash (?cash q))"
  let ?R = "py_range ?lot (?N + 1) ?lot"
  have lot: "0 < ?lot" using ins by (rule instrument_okD)
  have range: "set ?R = {q. \<exists>n\<ge>1. q = n * ?lot \<and> q \<le> ?N}" by (rule set_py_range [OF lot])
  have pos: "0 < q" if "q \<in> set ?R" for q using that lot by (auto simp: range)
  have rows: "mapR (\<lambda>q. bindR (worst_case_entry_cash f q limit children) (\<lambda>c. Inr (q, permits a (reserve_cash c)))) ?R
      = Inr (map (\<lambda>q. (q, ?ok q)) ?R)"
    by (rule mapR_Inr) (use pos assms in \<open>simp add: worst_case_entry_cash_eq\<close>)
  have "candidate_quantities b limit a children f = Inr (filter ?ok ?R)"
    using rows by (simp add: candidate_quantities_def ladder_capacity_eq [OF tk] Let_def filter_map o_def)
  moreover have "sorted (filter ?ok ?R)" "distinct (filter ?ok ?R)"
    using sorted_py_range [OF lot] by (simp_all add: sorted_filter [of "\<lambda>x. x", simplified])
  moreover have "m * ?lot \<in> set (filter ?ok ?R)"
    if m: "1 \<le> m" "m \<le> n" and n: "n * ?lot \<in> set (filter ?ok ?R)" for n m
  proof -
    have le: "m * ?lot \<le> n * ?lot" using m lot by (intro mult_right_mono) simp_all
    have p: "0 < m * ?lot" using m lot by simp
    have "?cash (m * ?lot) \<le> ?cash (n * ?lot)"
    proof -
      have t: "of_int (m * ?lot) * limit \<le> of_int (n * ?lot) * limit"
        using le assms(3) by (intro mult_right_mono) (simp_all del: of_int_mult)
      have "0 \<le> of_int (m * ?lot) * limit" using p assms(3) by (simp del: of_int_mult)
      with t show ?thesis using assms(4,5) by (intro add_mono buy_amount_mono) simp_all
    qed
    moreover have "0 < ?cash (m * ?lot)"
      using p assms(3-5) by (intro add_pos_nonneg buy_amount_nonneg) (simp_all del: of_int_mult)
    ultimately have "?ok (m * ?lot)"
      using n by (auto intro!: permits_antimono [of _ "reserve_cash (?cash (n * ?lot))"]
          reserve_cash_pos reserve_cash_mono simp del: of_int_mult)
    moreover have "m * ?lot \<in> set ?R"
    proof -
      have "n * ?lot \<in> set ?R" using n by simp
      then have "n * ?lot \<le> ?N" unfolding range by blast
      with m le show ?thesis unfolding range by (intro CollectI exI [of _ m]) simp
    qed
    ultimately show ?thesis by simp
  qed
  ultimately show ?thesis by (intro exI [of _ "filter ?ok ?R"]) (auto simp: range)
qed

definition demo_allocation :: allocation where
  "demo_allocation = allocation_start 9411 9411 0 0 None"

theorem candidate_quantities_exact_witness:
  "candidate_quantities demo_book 101 demo_allocation 1 default_fees = Inr [75] \<and> sorted [75 :: int]"
proof -
  have e: "candidate_quantities demo_book 101 demo_allocation 1 default_fees = Inr [75]" by code_simp
  have "instr demo_book = demo_instrument" by (simp add: demo_book_def)
  moreover have "tick demo_instrument 101 = Inr 2020" by code_simp
  ultimately show ?thesis
    using candidate_quantities_exact [of demo_book 101 2020 default_fees 1 demo_allocation] e demo_instrument_ok
    by auto
qed

section \<open>Charges in the kernel\<close>

text \<open>The rules with which the simplifier computes charges of concrete orders.\<close>

lemmas price_rules = fee_buy_def fee_sell_def fee_common_def fee_upper_def quantize_ceiling_def default_fees_def PAISE_def Let_def
  ceiling_divide_eq_div_numeral conditional_sale_cash_def worst_case_entry_cash_def reserve_cash_def ceil_paise_def

lemma ceiling_div: "\<lceil>numeral a / numeral b :: rat\<rceil> = - (- numeral a div numeral b)"
  using ceiling_divide_eq_div [of "numeral a" "numeral b", where 'a = rat] by simp

lemma ceiling_inverse: "\<lceil>1 / numeral b :: rat\<rceil> = - (- 1 div numeral b)"
  using ceiling_divide_eq_div [of "1" "numeral b", where 'a = rat] by simp

end
