(* ===== verification/Settlement.thy ===== *)
theory Settlement
  imports Risk
begin

text \<open>
  \<open>settlement.py\<close>, \<open>settlement_cash.py\<close>, \<open>settlement_adapter.py\<close> and the
  intrinsic value of \<open>strategy.py\<close>: the verified final index value, the value of
  exercising against it, the comparison with a sale and the strict match of a
  broker statement row to one expiring contract.
\<close>

section \<open>The final value\<close>

text \<open>
  A timestamp text is represented by what \<open>datetime.fromisoformat\<close> makes of it,
  a date text by its day, \<open>None\<close> standing for a text it rejects.
\<close>

datatype iso_time = BadTime | NaiveTime instant | AwareTime instant

record final_value =
  fv_trading_date :: "day option"
  fv_value :: decnum
  fv_source :: string
  fv_source_field :: string
  fv_published_at :: iso_time
  fv_received_at :: iso_time
  fv_revision :: string
  fv_settlement_regime :: string
  fv_finality_kind :: string

definition finite_positive :: "decnum \<Rightarrow> bool" where
  "finite_positive d = (case d of Finite x \<Rightarrow> 0 < x | NonFinite \<Rightarrow> False)"

definition validate_final :: "final_value \<Rightarrow> unit res" where
  "validate_final f =
     (if fv_source f \<notin> {''NSE'', ''NSE_CLEARING''}
         \<or> fv_source_field f \<notin> {''official_settlement_value'', ''closing_index_value''}
         \<or> \<not> finite_positive (fv_value f) \<or> fv_finality_kind f \<notin> {''FINAL'', ''OFFICIAL_SETTLEMENT''}
      then Inl (ContractError ''final input is not verified'')
      else case (fv_published_at f, fv_received_at f, fv_trading_date f) of
          (BadTime, _, _) \<Rightarrow> Inl (ValueError ''isoformat'')
        | (_, BadTime, _) \<Rightarrow> Inl (ValueError ''isoformat'')
        | (_, _, None) \<Rightarrow> Inl (ValueError ''isoformat'')
        | (AwareTime p, AwareTime r, Some _) \<Rightarrow>
            if p > r \<or> fv_revision f = [] \<or> fv_settlement_regime f \<notin> {''CASH'', ''NSE_CAS_2026''}
            then Inl (ContractError ''invalid final input provenance'') else Inr ()
        | _ \<Rightarrow> Inl (ContractError ''invalid final input provenance''))"

definition final_amount :: "final_value \<Rightarrow> decimal" where
  "final_amount f = (case fv_value f of Finite x \<Rightarrow> x | NonFinite \<Rightarrow> 0)"

text \<open>
  \<open>FinalValueAdapter.parse\<close>, for a payload whose keys are exactly the nine
  required ones; \<open>all_fields\<close> says that they are.
\<close>

definition parse_final :: "bool \<Rightarrow> final_value \<Rightarrow> final_value res" where
  "parse_final all_fields f =
     (if \<not> all_fields then Inl (ContractError ''final value adapter fields are incomplete'')
      else bindR (validate_final f) (\<lambda>_.
        if list_ex (\<lambda>x. contains x (lower (fv_source_field f))) [''previous'', ''provisional'', ''ltpc'', ''iep'']
        then Inl (ContractError ''provisional/previous fields cannot establish finality'')
        else Inr f))"

section \<open>Exercise, sale and the broker statement\<close>

definition intrinsic :: "option_type \<Rightarrow> decimal \<Rightarrow> decimal \<Rightarrow> decimal" where
  "intrinsic t k index = (if t = CE then max (index - k) 0 else max (k - index) 0)"

definition exercise_intrinsic :: "option_type \<Rightarrow> decimal \<Rightarrow> decimal \<Rightarrow> decimal" where
  "exercise_intrinsic t k final = (if t = CE then max (final - k) 0 else max (k - final) 0)"

datatype settlement_choice = SALE | EXERCISE

definition compare_sale_and_exercise ::
  "decimal \<Rightarrow> decimal \<Rightarrow> decimal \<Rightarrow> decimal \<Rightarrow> settlement_choice res" where
  "compare_sale_and_exercise sale_proceeds exercise_value sale_costs exercise_costs =
     (if min (min sale_proceeds exercise_value) (min sale_costs exercise_costs) < 0
      then Inl (ContractError ''settlement amounts cannot be negative'')
      else Inr (if sale_proceeds - sale_costs \<ge> exercise_value - exercise_costs then SALE else EXERCISE))"

record statement_row =
  sr_account :: string
  sr_narration :: string
  sr_exchange :: string
  sr_credit :: decimal
  sr_debit :: decimal
  sr_voucher :: string

definition settlement_row_matches :: "instrument \<Rightarrow> decimal \<Rightarrow> decimal \<Rightarrow> statement_row \<Rightarrow> bool" where
  "settlement_row_matches i gross estimated row =
     (let narration = upper (sr_narration row); credit = sr_credit row - sr_debit row
      in (contains ''EXERCISE'' narration \<or> contains ''EXPIRY SETTLEMENT'' narration)
         \<and> contains_token (security_id i) False narration
         \<and> contains (isoformat (expiry i)) narration \<and> contains ''NIFTY'' narration
         \<and> sr_exchange row \<in> {''NSE-FO'', ''NSE-FNO'', ''NSE_FNO'', ''NSE-DERIVATIVES''}
         \<and> estimated \<le> credit \<and> credit \<le> gross \<and> sr_voucher row \<noteq> [])"

fun settlement_matches ::
  "string \<Rightarrow> instrument \<Rightarrow> decimal \<Rightarrow> decimal \<Rightarrow> statement_row list \<Rightarrow> (string \<times> decimal) list res" where
  "settlement_matches account i gross estimated [] = Inr []"
| "settlement_matches account i gross estimated (row # rows) =
     (if sr_account row \<noteq> account then Inl (ContractError ''foreign broker ledger account'')
      else bindR (settlement_matches account i gross estimated rows) (\<lambda>found.
        Inr (if settlement_row_matches i gross estimated row
             then (sr_voucher row, sr_credit row - sr_debit row) # found else found)))"

definition match_settlement ::
  "statement_row list \<Rightarrow> string \<Rightarrow> instrument \<Rightarrow> final_value \<Rightarrow> int \<Rightarrow> (string \<times> decimal) option res" where
  "match_settlement rows account i final quantity =
     (let gross = intrinsic (otype i) (strike i) (final_amount final) * of_int quantity
      in bindR (fee_sell default_fees gross 1) (\<lambda>fees.
         bindR (settlement_matches account i gross (gross - fees) rows) (\<lambda>found.
           Inr (case found of [r] \<Rightarrow> Some r | _ \<Rightarrow> None))))"

section \<open>Lemmas\<close>

lemma intrinsic_nonneg [simp]: "0 \<le> intrinsic t k x"
  by (simp add: intrinsic_def)

lemma exercise_intrinsic_eq: "exercise_intrinsic t k x = intrinsic t k x"
  by (simp add: exercise_intrinsic_def intrinsic_def)

lemma settlement_matches_sound:
  "settlement_matches account i gross estimated rows = Inr found \<Longrightarrow>
   found = map (\<lambda>r. (sr_voucher r, sr_credit r - sr_debit r)) (filter (settlement_row_matches i gross estimated) rows)
   \<and> (\<forall>r \<in> set rows. sr_account r = account)"
  by (induction rows arbitrary: found) (auto simp: bindR_Inr_iff split: if_splits)

lemma fee_sell_default: "0 \<le> t \<Longrightarrow> 1 \<le> c \<Longrightarrow> fee_sell default_fees t c = Inr (sell_amount default_fees t c)"
  by (simp add: fee_sell_eq)

section \<open>Properties\<close>

text \<open>
  C18: An expiring holding is credited from the broker's statement only by one
  unambiguous row: it belongs to the account, names the contract and its expiry
  date, carries a voucher, and its net credit lies between the exercise value
  less the estimated charges and the exercise value itself. Any second matching
  row leaves the settlement pending.
\<close>

theorem match_settlement_sound:
  assumes "0 \<le> quantity"
    and "match_settlement rows account i final quantity = Inr (Some (voucher, credit))"
  shows "\<exists>row \<in> set rows. filter (settlement_row_matches i
             (intrinsic (otype i) (strike i) (final_amount final) * of_int quantity)
             (intrinsic (otype i) (strike i) (final_amount final) * of_int quantity
               - sell_amount default_fees (intrinsic (otype i) (strike i) (final_amount final) * of_int quantity) 1))
           rows = [row]
         \<and> voucher = sr_voucher row \<and> voucher \<noteq> [] \<and> credit = sr_credit row - sr_debit row
         \<and> sr_account row = account
         \<and> contains_token (security_id i) False (upper (sr_narration row))
         \<and> contains (isoformat (expiry i)) (upper (sr_narration row))
         \<and> credit \<le> intrinsic (otype i) (strike i) (final_amount final) * of_int quantity"
proof -
  define gross where "gross = intrinsic (otype i) (strike i) (final_amount final) * of_int quantity"
  define est where "est = gross - sell_amount default_fees gross 1"
  have g: "0 \<le> gross" using assms(1) by (simp add: gross_def)
  obtain found where f: "settlement_matches account i gross est rows = Inr found"
      "(case found of [r] \<Rightarrow> Some r | _ \<Rightarrow> None) = Some (voucher, credit)"
    using assms(2) fee_sell_default [OF g, of 1]
    by (auto simp: match_settlement_def Let_def gross_def est_def bindR_Inr_iff)
  then have found: "found = [(voucher, credit)]" by (auto split: list.splits)
  let ?sel = "filter (settlement_row_matches i gross est) rows"
  from settlement_matches_sound [OF f(1)] found obtain row where row: "?sel = [row]"
      "voucher = sr_voucher row" "credit = sr_credit row - sr_debit row"
    and acc: "\<forall>r \<in> set rows. sr_account r = account" by auto
  have "row \<in> set ?sel" using row(1) by simp
  then have "row \<in> set rows" "settlement_row_matches i gross est row" by simp_all
  with row acc show ?thesis
    unfolding gross_def [symmetric] est_def [symmetric]
    by (intro bexI [of _ row]) (auto simp: settlement_row_matches_def Let_def)
qed

definition demo_final :: final_value where
  "demo_final = \<lparr>fv_trading_date = Some 20000, fv_value = Finite 24100, fv_source = ''NSE'',
     fv_source_field = ''closing_index_value'', fv_published_at = AwareTime 1000, fv_received_at = AwareTime 2000,
     fv_revision = ''1'', fv_settlement_regime = ''CASH'', fv_finality_kind = ''FINAL''\<rparr>"

definition demo_statement :: "statement_row list" where
  "demo_statement = [\<lparr>sr_account = ''A'', sr_narration = ''Exercise NIFTY 1 2024-10-04'', sr_exchange = ''NSE-FO'',
     sr_credit = 7500, sr_debit = 30, sr_voucher = ''V1''\<rparr>]"

theorem match_settlement_sound_witness:
  "match_settlement demo_statement ''A'' demo_instrument demo_final 75 = Inr (Some (''V1'', 7470))
   \<and> (\<exists>row \<in> set demo_statement. contains (isoformat 20000) (upper (sr_narration row)))"
proof -
  have m: "match_settlement demo_statement ''A'' demo_instrument demo_final 75 = Inr (Some (''V1'', 7470))"
    by code_simp
  moreover have "expiry demo_instrument = 20000" by (simp add: demo_instrument_def)
  ultimately show ?thesis using match_settlement_sound [OF _ m] by auto
qed

end
