(* ===== verification/Exits.thy ===== *)
theory Exits
  imports Settlement
begin

text \<open>
  \<open>exits.py\<close>, \<open>exit_manager.py\<close> (its quantity and price decisions) and
  \<open>profit_exit.py\<close>: the marketable limit of a sale, the depth a holding can be
  sold into, and the net-profit ratchet. The contract that the two profit
  guards of the program share (high-water marks only rise, a trigger stays) is
  the locale \<open>ratchet\<close>.
\<close>

section \<open>Sale limit and depth\<close>

definition clamp_band :: "instrument \<Rightarrow> decimal \<Rightarrow> decimal" where
  "clamp_band i v =
     (let v = (case lower_limit i of None \<Rightarrow> v | Some l \<Rightarrow> max v l)
      in (case upper_limit i of None \<Rightarrow> v | Some u \<Rightarrow> min v u))"

text \<open>\<open>(value / tick).to_integral_value(rounding=ROUND_CEILING) * tick\<close>\<close>

definition round_up_tick :: "instrument \<Rightarrow> decimal \<Rightarrow> decimal" where
  "round_up_tick i v = of_int \<lceil>ddiv v (tick_size i)\<rceil> * tick_size i"

definition sale_start :: "option_book \<Rightarrow> bool \<Rightarrow> decimal" where
  "sale_start b emergency =
     (case top_bid b of None \<Rightarrow> tick_size (instr b)
      | Some l \<Rightarrow> lv_price l - tick_size (instr b) * (if emergency then 10 else 2))"

definition sell_limit :: "option_book \<Rightarrow> bool \<Rightarrow> decimal res" where
  "sell_limit b emergency =
     (if top_bid b = None \<and> \<not> emergency then Inl (ContractError ''no current bid for normal sale'')
      else let i = instr b; v = round_up_tick i (clamp_band i (max (tick_size i) (sale_start b emergency)))
           in bindR (tick i v) (\<lambda>_. Inr v))"

fun sale_slices :: "int \<Rightarrow> level list \<Rightarrow> (int \<times> decimal) list" where
  "sale_slices rest [] = []"
| "sale_slices rest (l # ls) =
     (if rest \<le> 0 then []
      else let units = min rest (lv_qty l)
           in if units \<noteq> 0 then (units, lv_price l) # sale_slices (rest - units) ls
              else sale_slices rest ls)"

definition executable_sale_units :: "option_book \<Rightarrow> int \<Rightarrow> (int \<times> decimal) list" where
  "executable_sale_units b quantity = (if quantity \<le> 0 then [] else sale_slices quantity (bids b))"

text \<open>\<open>ExitManager.reduce\<close>: the child quantity and the limit it submits.\<close>

definition whole_lots :: "instrument \<Rightarrow> int" where
  "whole_lots i = freeze_qty i div lot_size i * lot_size i"

definition reduce_order :: "instrument \<Rightarrow> int \<Rightarrow> option_book \<Rightarrow> bool \<Rightarrow> (int \<times> decimal) res" where
  "reduce_order i quantity b emergency =
     (if quantity \<le> 0 \<or> quantity mod lot_size i \<noteq> 0
      then Inl (ContractError ''exit quantity must be whole lots'')
      else bindR (sell_limit b emergency) (\<lambda>limit. Inr (min quantity (whole_lots i), limit)))"

section \<open>The net-profit ratchet\<close>

record profit_guard =
  pg_peak :: decimal
  pg_floor :: "decimal option"
  pg_net :: decimal
  pg_triggered :: bool

definition observe_profit ::
  "decimal \<Rightarrow> decimal \<Rightarrow> profit_guard option \<Rightarrow> decimal \<Rightarrow> profit_guard res" where
  "observe_profit net_pnl round_trip_cost previous retain =
     (if round_trip_cost < 0 \<or> \<not> (0 < retain \<and> retain < 1)
      then Inl (ValueError ''invalid profit-protection policy'')
      else let peak = (case previous of None \<Rightarrow> net_pnl | Some g \<Rightarrow> max net_pnl (pg_peak g));
               floor = (case previous of None \<Rightarrow> None | Some g \<Rightarrow> pg_floor g);
               floor = (if 0 < peak \<and> 2 * round_trip_cost \<le> peak
                        then Some (max (case floor of None \<Rightarrow> 0 | Some f \<Rightarrow> f) (peak * retain)) else floor);
               triggered = ((case previous of None \<Rightarrow> False | Some g \<Rightarrow> pg_triggered g)
                            \<or> (case floor of None \<Rightarrow> False | Some f \<Rightarrow> net_pnl \<le> f))
           in Inr \<lparr>pg_peak = peak, pg_floor = floor, pg_net = net_pnl, pg_triggered = triggered\<rparr>)"

section \<open>The ratchet contract\<close>

locale ratchet =
  fixes step :: "'o \<Rightarrow> 's \<Rightarrow> 's"
    and peak :: "'s \<Rightarrow> decimal" and floor_of :: "'s \<Rightarrow> decimal" and latched :: "'s \<Rightarrow> bool"
  assumes step_peak: "peak s \<le> peak (step x s)"
    and step_floor: "floor_of s \<le> floor_of (step x s)"
    and step_latched: "latched s \<Longrightarrow> latched (step x s)"
begin

lemma run_peak: "peak s \<le> peak (fold step xs s)"
  by (induction xs arbitrary: s) (auto intro: order_trans [OF step_peak])

lemma run_floor: "floor_of s \<le> floor_of (fold step xs s)"
  by (induction xs arbitrary: s) (auto intro: order_trans [OF step_floor])

lemma run_latched: "latched s \<Longrightarrow> latched (fold step xs s)"
  by (induction xs arbitrary: s) (auto intro: step_latched)

lemma run_between: "latched (fold step xs s) \<Longrightarrow> latched (fold step (xs @ ys) s)"
  by (simp add: run_latched)

end

text \<open>
  One observation of a recorded guard; a rejected observation leaves the guard
  as it was.
\<close>

definition profit_step :: "decimal \<Rightarrow> decimal \<times> decimal \<Rightarrow> profit_guard \<Rightarrow> profit_guard" where
  "profit_step retain x g =
     (case observe_profit (fst x) (snd x) (Some g) retain of Inl _ \<Rightarrow> g | Inr h \<Rightarrow> h)"

definition guard_floor :: "profit_guard \<Rightarrow> decimal" where
  "guard_floor g = (case pg_floor g of None \<Rightarrow> 0 | Some f \<Rightarrow> max 0 f)"

lemma profit_step_cases:
  "profit_step retain (net, cost) g = g \<or>
   (\<exists>h. observe_profit net cost (Some g) retain = Inr h \<and> profit_step retain (net, cost) g = h)"
  by (auto simp: profit_step_def split: sum.splits)

interpretation profit: ratchet "profit_step retain" pg_peak guard_floor pg_triggered for retain
proof unfold_locales
  fix g :: profit_guard and x :: "decimal \<times> decimal"
  show "pg_peak g \<le> pg_peak (profit_step retain x g)"
    by (auto simp: profit_step_def observe_profit_def Let_def split: sum.splits if_splits)
  show "guard_floor g \<le> guard_floor (profit_step retain x g)"
    by (auto simp: profit_step_def observe_profit_def Let_def guard_floor_def
        split: sum.splits if_splits option.splits)
  show "pg_triggered g \<Longrightarrow> pg_triggered (profit_step retain x g)"
    by (auto simp: profit_step_def observe_profit_def Let_def split: sum.splits if_splits)
qed

section \<open>Lemmas\<close>

lemma sale_slices_sum:
  "(\<And>l. l \<in> set ls \<Longrightarrow> 0 \<le> lv_qty l) \<Longrightarrow> 0 \<le> n \<Longrightarrow>
   sum_by fst (sale_slices n ls) = min n (sum_by lv_qty ls)"
proof (induction n ls rule: sale_slices.induct)
  case (2 n l ls)
  have "0 \<le> sum_by lv_qty ls" using "2.prems" by (intro sum_by_nonneg) auto
  with 2 show ?case by (auto simp: Let_def min_def)
qed simp

lemma sale_slices_positive:
  assumes "\<And>l. l \<in> set ls \<Longrightarrow> 0 \<le> lv_qty l" "(u, p) \<in> set (sale_slices n ls)"
  shows "0 < u \<and> (\<exists>l \<in> set ls. p = lv_price l \<and> u \<le> lv_qty l)"
  using assms
proof (induction n ls rule: sale_slices.induct)
  case (2 n l ls)
  let ?u = "min n (lv_qty l)"
  have n: "0 < n" using "2.prems"(2) by (auto split: if_splits)
  have q: "0 \<le> lv_qty l" using "2.prems"(1) by simp
  consider "(u, p) = (?u, lv_price l)" "?u \<noteq> 0" | "?u \<noteq> 0" "(u, p) \<in> set (sale_slices (n - ?u) ls)"
    | "?u = 0" "(u, p) \<in> set (sale_slices n ls)"
    using n "2.prems"(2) by (auto simp: Let_def split: if_splits)
  then show ?case
  proof cases
    case 1
    with n q show ?thesis by auto
  next
    case 2
    with "2.IH"(1) [OF _ refl] "2.prems"(1) n show ?thesis by auto
  next
    case 3
    with "2.IH"(2) [OF _ refl] "2.prems"(1) n show ?thesis by auto
  qed
qed simp

lemma sale_slices_value_le:
  fixes best :: decimal
  assumes "\<And>l. l \<in> set ls \<Longrightarrow> 0 \<le> lv_qty l" "\<And>l. l \<in> set ls \<Longrightarrow> lv_price l \<le> best"
  shows "sum_by (\<lambda>(u, p). of_int u * p) (sale_slices n ls) \<le> of_int (sum_by fst (sale_slices n ls)) * best"
  using assms
proof (induction n ls rule: sale_slices.induct)
  case (2 n l ls)
  let ?u = "min n (lv_qty l)"
  have "of_int ?u * lv_price l \<le> of_int ?u * best" if "0 < n"
    using that "2.prems" by (intro mult_left_mono) (simp_all add: min_def)
  with 2 show ?case by (auto simp: Let_def distrib_right intro: add_mono)
qed simp

text \<open>The price a sale aims at, before it is rounded to a tick.\<close>

definition exit_target :: "option_book \<Rightarrow> bool \<Rightarrow> decimal" where
  "exit_target b emergency = clamp_band (instr b) (max (tick_size (instr b)) (sale_start b emergency))"

lemma clamp_band_ge_lower:
  "lower_limit i = Some l \<Longrightarrow> (case upper_limit i of None \<Rightarrow> True | Some u \<Rightarrow> l \<le> u) \<Longrightarrow> l \<le> clamp_band i v"
  by (auto simp: clamp_band_def Let_def split: option.splits)

lemma clamp_band_le_upper: "upper_limit i = Some u \<Longrightarrow> clamp_band i v \<le> u"
  by (auto simp: clamp_band_def Let_def split: option.splits)

lemma sell_limit_Inr:
  "sell_limit b emergency = Inr v \<longleftrightarrow>
     (top_bid b = None \<longrightarrow> emergency)
     \<and> v = round_up_tick (instr b) (clamp_band (instr b) (max (tick_size (instr b)) (sale_start b emergency)))
     \<and> (\<exists>k. tick (instr b) v = Inr k)"
  by (auto simp: sell_limit_def Let_def bindR_Inr_iff)

text \<open>Where the tick count is representable, rounding up only moves to the next tick.\<close>

lemma round_up_tick_ge:
  assumes "0 < tick_size i" "ctx28 (v / tick_size i) = v / tick_size i"
  shows "v \<le> round_up_tick i v" "round_up_tick i v < v + tick_size i"
  using assms quantize_ceiling_ge [of "tick_size i" v] quantize_ceiling_less [of "tick_size i" v]
  by (simp_all add: round_up_tick_def ddiv_def quantize_ceiling_def)

lemma round_up_tick_le_multiple:
  assumes "0 < tick_size i" "ctx28 (v / tick_size i) = v / tick_size i" "v \<le> of_int k * tick_size i"
  shows "round_up_tick i v \<le> of_int k * tick_size i"
proof -
  have "v / tick_size i \<le> of_int k" using assms(1,3) by (simp add: pos_divide_le_eq)
  then have "\<lceil>v / tick_size i\<rceil> \<le> k" by (rule ceiling_le)
  with assms(1,2) show ?thesis by (simp add: round_up_tick_def ddiv_def)
qed

lemma observe_profit_Inr:
  assumes "observe_profit n c (Some h) r = Inr g"
  shows "pg_peak g = max n (pg_peak h)"
    and "pg_floor g = pg_floor h
      \<or> (0 < pg_peak g \<and> pg_floor g = Some (max (case pg_floor h of None \<Rightarrow> 0 | Some f \<Rightarrow> f) (pg_peak g * r)))"
  using assms by (auto simp: observe_profit_def Let_def split: if_splits)

lemma profit_step_floor:
  assumes r: "0 < r" and inv: "\<forall>f. pg_floor h = Some f \<longrightarrow> 0 < f \<and> f \<le> r * pg_peak h"
  shows "\<forall>f. pg_floor (profit_step r x h) = Some f \<longrightarrow> 0 < f \<and> f \<le> r * pg_peak (profit_step r x h)"
proof (cases "observe_profit (fst x) (snd x) (Some h) r")
  case (Inl e)
  with inv show ?thesis by (simp add: profit_step_def)
next
  case (Inr g)
  have le: "r * pg_peak h \<le> r * pg_peak g"
    using r observe_profit_Inr(1) [OF Inr] by (intro mult_left_mono) simp_all
  show ?thesis
  proof (cases "pg_floor g = pg_floor h")
    case True
    with inv le Inr show ?thesis by (auto simp: profit_step_def intro: order_trans)
  next
    case False
    with observe_profit_Inr(2) [OF Inr] have pos: "0 < pg_peak g"
      and fl: "pg_floor g = Some (max (case pg_floor h of None \<Rightarrow> 0 | Some f \<Rightarrow> f) (pg_peak g * r))" by auto
    have "0 < r * pg_peak g" using r pos by simp
    moreover have "(case pg_floor h of None \<Rightarrow> 0 | Some f \<Rightarrow> f) \<le> r * pg_peak g"
      using inv le calculation by (auto split: option.splits intro: order_trans)
    ultimately show ?thesis using fl Inr by (simp add: profit_step_def mult.commute less_max_iff_disj)
  qed
qed

lemma sell_limit_bounds:
  assumes ok: "instrument_ok (instr b)" and run: "sell_limit b emergency = Inr v"
    and band: "\<forall>l u. lower_limit (instr b) = Some l \<longrightarrow> upper_limit (instr b) = Some u \<longrightarrow> l \<le> u"
      "\<forall>u. upper_limit (instr b) = Some u \<longrightarrow> 0 < u"
    and digits: "ctx28 (exit_target b emergency / tick_size (instr b)) = exit_target b emergency / tick_size (instr b)"
  shows "(\<exists>k. 1 \<le> k \<and> v = of_int k * tick_size (instr b))
         \<and> exit_target b emergency \<le> v \<and> v < exit_target b emergency + tick_size (instr b)
         \<and> (\<forall>l. lower_limit (instr b) = Some l \<longrightarrow> l \<le> v)
         \<and> (\<forall>u. upper_limit (instr b) = Some u \<longrightarrow> v < u + tick_size (instr b)
              \<and> (v \<le> u \<longleftrightarrow> (\<exists>k. exit_target b emergency \<le> of_int k * tick_size (instr b) \<and> of_int k * tick_size (instr b) \<le> u)))"
proof -
  let ?i = "instr b" and ?c = "exit_target b emergency"
  have t: "0 < tick_size ?i" using ok by (rule instrument_okD)
  have v: "v = round_up_tick ?i ?c" using run by (simp add: sell_limit_Inr exit_target_def)
  have ge: "?c \<le> v" "v < ?c + tick_size ?i" using round_up_tick_ge [OF t digits] v by simp_all
  have pos: "0 < ?c"
    using t band(2) by (auto simp: exit_target_def clamp_band_def Let_def less_max_iff_disj split: option.splits)
  define k where "k = \<lceil>ddiv ?c (tick_size ?i)\<rceil>"
  have k: "v = of_int k * tick_size ?i" by (simp add: v round_up_tick_def k_def)
  have "0 < k" using pos t ge(1) k by (metis dual_order.strict_trans1 of_int_0_less_iff zero_less_mult_pos2)
  moreover have "l \<le> ?c" if "lower_limit ?i = Some l" for l
    unfolding exit_target_def using that band(1) by (intro clamp_band_ge_lower) (auto split: option.splits)
  moreover have "?c \<le> u" if "upper_limit ?i = Some u" for u
    unfolding exit_target_def using that by (rule clamp_band_le_upper)
  moreover have "v \<le> u" if "?c \<le> of_int j * tick_size ?i" "of_int j * tick_size ?i \<le> u" for u j
    using round_up_tick_le_multiple [OF t digits that(1)] that(2) v by simp
  ultimately show ?thesis using ge k by (force intro: exI [of _ k])
qed

section \<open>Properties\<close>

text \<open>
  C16: The limit of a sale is the first whole tick at or above the price it aims at: two
  ticks under the best bid, or ten in an emergency, kept to one tick at least and clamped to
  the band. So it is a positive number of ticks, no lower than the lower band, and below the
  upper band plus one tick. It is within the upper band exactly when some tick lies between
  the price aimed at and that band: the clamp comes before the rounding, so an upper band
  between two ticks can be left. The quotient of price and tick is taken to fit 28 digits.
\<close>

theorem sell_limit_in_band:
  assumes ok: "instrument_ok (instr b)" and run: "sell_limit b emergency = Inr v"
    and band: "\<forall>l u. lower_limit (instr b) = Some l \<longrightarrow> upper_limit (instr b) = Some u \<longrightarrow> l \<le> u"
      "\<forall>u. upper_limit (instr b) = Some u \<longrightarrow> 0 < u"
    and digits: "ctx28 (exit_target b emergency / tick_size (instr b)) = exit_target b emergency / tick_size (instr b)"
  shows "(\<exists>k. 1 \<le> k \<and> v = of_int k * tick_size (instr b))
         \<and> exit_target b emergency \<le> v \<and> v < exit_target b emergency + tick_size (instr b)
         \<and> (\<forall>l. lower_limit (instr b) = Some l \<longrightarrow> l \<le> v)
         \<and> (\<forall>u. upper_limit (instr b) = Some u \<longrightarrow> v < u + tick_size (instr b)
              \<and> (v \<le> u \<longleftrightarrow> (\<exists>k. exit_target b emergency \<le> of_int k * tick_size (instr b) \<and> of_int k * tick_size (instr b) \<le> u)))"
  by (rule sell_limit_bounds [OF assms])

text \<open>A band between two ticks: 10.02 with a tick of 0.05, and a bid above it.\<close>

definition unaligned_book :: option_book where
  "unaligned_book = demo_book\<lparr>instr := demo_instrument\<lparr>upper_limit := Some (1002 / 100)\<rparr>,
     bids := [\<lparr>lv_price = 102 / 10, lv_qty = 75\<rparr>]\<rparr>"

lemma unaligned_band: "upper_limit (instr unaligned_book) = Some (1002 / 100)" "tick_size (instr unaligned_book) = 1 / 20"
  "\<forall>l u. lower_limit (instr unaligned_book) = Some l \<longrightarrow> upper_limit (instr unaligned_book) = Some u \<longrightarrow> l \<le> u"
  "\<forall>u. upper_limit (instr unaligned_book) = Some u \<longrightarrow> 0 < u"
  by (auto simp: unaligned_book_def demo_instrument_def)

lemma unaligned_facts:
  "instrument_ok (instr unaligned_book)" "sell_limit unaligned_book False = Inr (1005 / 100)"
  "exit_target unaligned_book False = 1002 / 100"
  "ctx28 (exit_target unaligned_book False / tick_size (instr unaligned_book)) = exit_target unaligned_book False / tick_size (instr unaligned_book)"
  unfolding instrument_ok_def by (code_simp, code_simp, code_simp, code_simp)

theorem sell_limit_in_band_witness:
  "sell_limit demo_book False = Inr (999 / 10)
   \<and> (\<exists>k. exit_target demo_book False \<le> of_int k / 20 \<and> of_int k / 20 \<le> (500 :: decimal))
   \<and> \<not> (\<exists>k. 1002 / 100 \<le> of_int k / (20 :: decimal) \<and> of_int k / 20 \<le> (1002 / 100 :: decimal))"
proof -
  have s: "sell_limit demo_book False = Inr (999 / 10)" by code_simp
  have e: "ctx28 (exit_target demo_book False / tick_size demo_instrument) = exit_target demo_book False / tick_size demo_instrument" by code_simp
  have i: "instr demo_book = demo_instrument" by (simp add: demo_book_def)
  have d: "lower_limit demo_instrument = Some (1 / 20)" "upper_limit demo_instrument = Some 500" "tick_size demo_instrument = 1 / 20"
    by (simp_all add: demo_instrument_def)
  have "\<exists>k. exit_target demo_book False \<le> of_int k / 20 \<and> of_int k / 20 \<le> (500 :: decimal)"
    using sell_limit_in_band [of demo_book False "999 / 10"] demo_instrument_ok e s by (simp add: i d)
  moreover have "\<not> (\<exists>k. 1002 / 100 \<le> of_int k / (20 :: decimal) \<and> of_int k / 20 \<le> (1002 / 100 :: decimal))"
  proof -
    have "1005 / 100 \<le> (1002 / 100 :: decimal) \<longleftrightarrow> (\<exists>k. exit_target unaligned_book False \<le> of_int k * tick_size (instr unaligned_book)
        \<and> of_int k * tick_size (instr unaligned_book) \<le> 1002 / 100)"
      using sell_limit_in_band [OF unaligned_facts(1,2) unaligned_band(3,4) unaligned_facts(4)] unaligned_band(1) by blast
    then show ?thesis by (simp add: unaligned_facts(3) unaligned_band(2))
  qed
  ultimately show ?thesis using s by simp
qed

text \<open>
  A holding is mapped onto displayed depth only: the slices sum to the
  holding or to the whole displayed depth when that is smaller, every slice is a
  positive part of one displayed level at that level's price, and their value is
  at most the holding sold at the best displayed price.
\<close>

theorem executable_sale_units_finite_depth:
  assumes "\<forall>l \<in> set (bids b). 0 \<le> lv_qty l" "0 < quantity" "\<forall>l \<in> set (bids b). lv_price l \<le> best" "0 \<le> best"
  shows "sum_by fst (executable_sale_units b quantity) = min quantity (sum_by lv_qty (bids b))
         \<and> (\<forall>(u, p) \<in> set (executable_sale_units b quantity).
              0 < u \<and> (\<exists>l \<in> set (bids b). p = lv_price l \<and> u \<le> lv_qty l))
         \<and> sum_by (\<lambda>(u, p). of_int u * p) (executable_sale_units b quantity) \<le> of_int quantity * best"
proof -
  let ?s = "executable_sale_units b quantity"
  have s: "?s = sale_slices quantity (bids b)" using assms(2) by (simp add: executable_sale_units_def)
  have sum: "sum_by fst ?s = min quantity (sum_by lv_qty (bids b))"
    using assms s by (simp add: sale_slices_sum)
  have "sum_by (\<lambda>(u, p). of_int u * p) ?s \<le> of_int (sum_by fst ?s) * best"
    using assms s sale_slices_value_le [of "bids b" best quantity] by auto
  also have "\<dots> \<le> of_int quantity * best"
    using assms(4) by (intro mult_right_mono) (simp_all add: sum)
  finally show ?thesis using sum s assms(1) sale_slices_positive [of "bids b"] by fastforce
qed

theorem executable_sale_units_finite_depth_witness:
  "executable_sale_units demo_book 200 = [(150, 100), (50, 99)]
   \<and> sum_by (\<lambda>(u, p). of_int u * p) (executable_sale_units demo_book 200) \<le> of_int 200 * (100 :: decimal)"
proof -
  have e: "executable_sale_units demo_book 200 = [(150, 100), (50, 99)]" by code_simp
  have "\<forall>l \<in> set (bids demo_book). 0 \<le> lv_qty l" "\<forall>l \<in> set (bids demo_book). lv_price l \<le> 100"
    by (simp_all add: demo_book_def)
  with e show ?thesis using executable_sale_units_finite_depth [of demo_book 200 100] by simp
qed

text \<open>
  C17: Along any sequence of observations the profit guard never lowers its peak
  or its floor, never forgets a trigger, and its floor stays within the retained
  fraction of the peak.
\<close>

theorem profit_guard_ratchet:
  assumes "0 < retain" "retain < 1" "pg_floor g = None"
  shows "pg_peak (fold (profit_step retain) xs g) \<le> pg_peak (fold (profit_step retain) (xs @ ys) g)
         \<and> guard_floor (fold (profit_step retain) xs g) \<le> guard_floor (fold (profit_step retain) (xs @ ys) g)
         \<and> (pg_triggered (fold (profit_step retain) xs g) \<longrightarrow> pg_triggered (fold (profit_step retain) (xs @ ys) g))
         \<and> (\<forall>f. pg_floor (fold (profit_step retain) xs g) = Some f \<longrightarrow>
              0 < f \<and> f \<le> retain * pg_peak (fold (profit_step retain) xs g))"
proof -
  let ?inv = "\<lambda>h. \<forall>f. pg_floor h = Some f \<longrightarrow> 0 < f \<and> f \<le> retain * pg_peak h"
  have step: "?inv h \<Longrightarrow> ?inv (profit_step retain x h)" for h x
    using profit_step_floor [OF assms(1)] by blast
  have inv: "?inv (fold (profit_step retain) xs g)"
    by (rule fold_invariant [where Q = "\<lambda>_. True" and P = ?inv]) (use step assms(3) in simp_all)
  show ?thesis
    unfolding fold_append o_apply
    using inv by (simp add: profit.run_peak profit.run_floor profit.run_latched)
qed

theorem profit_guard_ratchet_witness:
  "fold (profit_step (1/2)) [(300, 100), (140, 100)]
      \<lparr>pg_peak = 10, pg_floor = None, pg_net = 10, pg_triggered = False\<rparr>
    = \<lparr>pg_peak = 300, pg_floor = Some 150, pg_net = 140, pg_triggered = True\<rparr>
   \<and> (150 :: decimal) \<le> 1/2 * 300"
proof -
  let ?g = "\<lparr>pg_peak = 10, pg_floor = None, pg_net = 10, pg_triggered = False\<rparr>"
  have r: "fold (profit_step (1/2)) [(300, 100), (140, 100)] ?g
    = \<lparr>pg_peak = 300, pg_floor = Some 150, pg_net = 140, pg_triggered = True\<rparr>" by code_simp
  have "(0::rat) < 1/2" "(1/2 :: rat) < 1" "pg_floor ?g = None" by simp_all
  from profit_guard_ratchet [OF this, of "[(300, 100), (140, 100)]" "[]"] r show ?thesis by simp
qed

end
