(* ===== verification/Strategy.thy ===== *)
theory Strategy
  imports Exits "HOL-Library.AList"
begin

text \<open>
  \<open>strategy.py\<close>: freezing the pre-auction reference as the median of five
  observations, and choosing the best executable single-contract opportunity.
  Sizing bisects on the number of lots; that the bisection is right is the
  contract \<open>threshold\<close>, met because reserved debits grow with the quantity.
\<close>

section \<open>The reference\<close>

definition REFERENCE_MAX_AGE_MS :: int where
  "REFERENCE_MAX_AGE_MS = 30000"

definition MAX_CLOCK_UNCERTAINTY_MS :: int where
  "MAX_CLOCK_UNCERTAINTY_MS = 100"

record reference =
  rf_value :: decimal
  boundary_ms :: int
  event_ids :: "string list"
  rf_epoch :: string

definition reference_eligible :: "cas_status \<Rightarrow> int \<Rightarrow> index_observation \<Rightarrow> bool" where
  "reference_eligible s u x =
     (ob_epoch x = st_epoch s
      \<and> updated_time_ms s - REFERENCE_MAX_AGE_MS \<le> provider_ts_ms x \<and> provider_ts_ms x < updated_time_ms s
      \<and> updated_time_ms s - REFERENCE_MAX_AGE_MS \<le> ob_received_ns x div 1000000
      \<and> ob_received_ns x div 1000000 + u < updated_time_ms s
      \<and> 0 \<le> receiver_seq x \<and> frame_kind x = ''live_feed'' \<and> wrapper_present x)"

text \<open>
  The dictionary key of an observation: its raw identity, or else the text
  \<open>epoch:timestamp:sequence:\<close> followed by its value.
\<close>

definition observation_key :: "index_observation \<Rightarrow> string \<times> decimal option" where
  "observation_key x =
     (if raw_identity x \<noteq> [] then (raw_identity x, None)
      else (ob_epoch x @ '':'' @ show_int (provider_ts_ms x) @ '':'' @ show_int (receiver_seq x) @ '':'',
            Some (ob_value x)))"

definition event_id :: "index_observation \<Rightarrow> string" where
  "event_id x = (if raw_identity x \<noteq> [] then raw_identity x
     else show_int (provider_ts_ms x) @ '':'' @ show_int (receiver_seq x))"

definition last_five :: "index_observation list \<Rightarrow> cas_status \<Rightarrow> int \<Rightarrow> index_observation list" where
  "last_five observations s u =
     (let by_identity = foldl (\<lambda>d x. AList.update (observation_key x) x d) []
            (filter (reference_eligible s u) observations)
      in last_n 5 (sort_key (\<lambda>x. (provider_ts_ms x, receiver_seq x)) (map snd by_identity)))"

definition select_reference :: "index_observation list \<Rightarrow> cas_status \<Rightarrow> int \<Rightarrow> reference res" where
  "select_reference observations s u =
     (if phase s \<noteq> CTS_CLOSE then Inl (ContractError ''reference boundary must be CTS_CLOSE'')
      else if u > MAX_CLOCK_UNCERTAINTY_MS then Inl (ContractError ''host clock uncertainty is too high'')
      else let eligible = last_five observations s u
           in if length eligible \<noteq> 5
              then Inl (ContractError ''REFERENCE_UNAVAILABLE: five distinct observations required'')
              else Inr \<lparr>rf_value = sort (map ob_value eligible) ! 2, boundary_ms = updated_time_ms s,
                        event_ids = map event_id eligible, rf_epoch = st_epoch s\<rparr>)"

section \<open>Opportunities\<close>

definition permitted_limit :: "instrument \<Rightarrow> decimal \<Rightarrow> bool" where
  "permitted_limit i price =
     (case tick i price of Inl _ \<Rightarrow> False
      | Inr _ \<Rightarrow> 0 < price \<and> (case lower_limit i of None \<Rightarrow> True | Some l \<Rightarrow> l \<le> price)
          \<and> (case upper_limit i of None \<Rightarrow> True | Some u \<Rightarrow> price \<le> u))"

record opportunity =
  op_instrument :: instrument
  op_quantity :: int
  op_limit :: decimal
  op_edge :: decimal
  op_score :: "decimal \<times> decimal \<times> int"
  op_reason :: string

definition same_direction :: "option_type \<Rightarrow> decimal \<Rightarrow> decimal \<Rightarrow> bool" where
  "same_direction t current ref = ((ref < current \<and> t = CE) \<or> (current < ref \<and> t = PE))"

text \<open>\<open>int(min(remaining, spendable)/limit) // lot * lot\<close>\<close>

definition cash_units :: "allocation \<Rightarrow> decimal \<Rightarrow> int \<Rightarrow> int" where
  "cash_units a limit lot = trunc (ddiv (min (remaining a) (al_spendable a)) limit) div lot * lot"

definition children_of :: "int \<Rightarrow> int \<Rightarrow> int" where
  "children_of child units = (units + child - 1) div child"

text \<open>The test both sizing loops make at the middle number of lots.\<close>

definition lots_permitted ::
  "fee_schedule \<Rightarrow> allocation \<Rightarrow> instrument \<Rightarrow> decimal \<Rightarrow> int \<Rightarrow> bool res" where
  "lots_permitted f a i limit lots =
     (let units = lots * lot_size i
      in bindR (worst_case_entry_cash f units limit (children_of (whole_lots i) units))
           (\<lambda>cash. Inr (permits a (reserve_cash cash))))"

definition candidate_sizes :: "instrument \<Rightarrow> int \<Rightarrow> int list" where
  "candidate_sizes i maximum =
     (let child = whole_lots i;
          boundaries = concat (map (\<lambda>b. [b, b - lot_size i]) (py_range child (maximum + child) child))
      in sort (remdups (filter (\<lambda>q. 0 < q \<and> q \<le> maximum) ([lot_size i, maximum] @ boundaries))))"

definition size_opportunity ::
  "fee_schedule \<Rightarrow> allocation \<Rightarrow> instrument \<Rightarrow> decimal \<Rightarrow> decimal \<Rightarrow> int \<Rightarrow> (string list \<times> opportunity list) res" where
  "size_opportunity f a i limit target quantity =
     (let children = children_of (whole_lots i) quantity
      in bindR (worst_case_entry_cash f quantity limit children) (\<lambda>cash.
         let entry = reserve_cash cash
         in if \<not> permits a entry then Inr ([], [])
            else bindR (conditional_sale_cash f quantity target children) (\<lambda>sale.
              let edge = sale - entry
              in if edge \<le> 0 then Inr ([''NET_EDGE_NONPOSITIVE''], [])
                 else Inr ([], [\<lparr>op_instrument = i, op_quantity = quantity, op_limit = limit, op_edge = edge,
                        op_score = (ddiv edge entry, edge, quantity), op_reason = ''CAS_LAG_V1''\<rparr>]))))"

text \<open>Notes and eligible opportunities of several steps, in the order of the loop.\<close>

definition gather :: "('a \<Rightarrow> (string list \<times> 'b list) res) \<Rightarrow> 'a list \<Rightarrow> (string list \<times> 'b list) res" where
  "gather g xs = bindR (mapR g xs) (\<lambda>rs. Inr (concat (map fst rs), concat (map snd rs)))"

definition limit_opportunities ::
  "fee_schedule \<Rightarrow> allocation \<Rightarrow> option_book \<Rightarrow> decimal \<Rightarrow> decimal \<Rightarrow> (string list \<times> opportunity list) res" where
  "limit_opportunities f a b target limit =
     (let i = instr b in
      bindR (ladder_capacity b limit) (\<lambda>capacity.
        let available = min (capacity div lot_size i * lot_size i) (cash_units a limit (lot_size i))
        in bindR (search_lots (lots_permitted f a i limit) 0 (available div lot_size i)) (\<lambda>lots.
             let maximum = lots * lot_size i
             in bindR (gather (size_opportunity f a i limit target) (candidate_sizes i maximum)) (\<lambda>(notes, ops).
                  Inr ((if maximum = 0 then [''CASH_OR_CAP_TOO_SMALL''] else []) @ notes, ops)))))"

definition book_target :: "option_type \<Rightarrow> instrument \<Rightarrow> decimal list \<Rightarrow> decimal" where
  "book_target direction i contiguous = Min (set (map (intrinsic direction (strike i)) contiguous))"

definition limits_below :: "option_book \<Rightarrow> (level \<Rightarrow> bool) \<Rightarrow> decimal list" where
  "limits_below b keep = sort (remdups (map lv_price (filter keep (asks b))))"

definition book_opportunities ::
  "fee_schedule \<Rightarrow> allocation \<Rightarrow> option_type \<Rightarrow> decimal list \<Rightarrow> option_book \<Rightarrow> (string list \<times> opportunity list) res" where
  "book_opportunities f a direction contiguous b =
     (let i = instr b in
      if otype i \<noteq> direction then Inr ([''DIRECTION_MISMATCH''], [])
      else case (top_ask b, top_bid b) of
          (Some ask, Some bid) \<Rightarrow>
            if lv_qty ask < lot_size i \<or> lv_qty bid < lot_size i then Inr ([''INSUFFICIENT_DEPTH''], [])
            else let target = book_target direction i contiguous
                 in if lv_price ask + tick_size i > target then Inr ([''INTRINSIC_GAP_MISSING''], [])
                    else let limits = limits_below b (\<lambda>l. lv_price l < target \<and> 0 < lv_qty l \<and> permitted_limit i (lv_price l))
                         in bindR (gather (limit_opportunities f a b target) limits) (\<lambda>(notes, ops).
                              Inr ((if limits = [] then [''PRICE_BAND_REJECTED''] else []) @ notes, ops))
        | _ \<Rightarrow> Inr ([''EMPTY_BOOK''], []))"

text \<open>
  \<open>max(eligible, key=lambda x: (x.score, -int(security_id), -x.limit_price))\<close>;
  a contract whose identifier is not an integer makes the key raise.
\<close>

definition opportunity_key :: "opportunity \<Rightarrow> ((decimal \<times> decimal \<times> int) \<times> int \<times> decimal) res" where
  "opportunity_key x = (case parse_int (security_id (op_instrument x)) of
      None \<Rightarrow> Inl (ValueError ''int'') | Some n \<Rightarrow> Inr (op_score x, - n, - op_limit x))"

definition best_opportunity :: "opportunity list \<Rightarrow> opportunity option res" where
  "best_opportunity xs =
     bindR (mapR (\<lambda>x. bindR (opportunity_key x) (\<lambda>k. Inr (k, x))) xs)
       (\<lambda>keyed. Inr (map_option snd (py_max_by fst keyed)))"

definition find_opportunity ::
  "fee_schedule \<Rightarrow> reference \<Rightarrow> (decimal \<times> string) list \<Rightarrow> option_book list \<Rightarrow> allocation
     \<Rightarrow> (string list \<times> opportunity option) res" where
  "find_opportunity f ref observations books a =
     (if length observations < 2 then Inr ([''CONFIRMATION_MISSING''], None)
      else let current = fst (last observations)
           in if current = rf_value ref \<or> card (set (map snd observations)) < 2
              then Inr ([''CONFIRMATION_MISSING''], None)
              else let direction = (if rf_value ref < current then CE else PE);
                       contiguous = takeWhile (\<lambda>v. same_direction direction v (rf_value ref)) (map fst (rev observations))
                   in if length contiguous < 2 then Inr ([''CONFIRMATION_MISSING''], None)
                      else bindR (gather (book_opportunities f a direction contiguous) books) (\<lambda>(notes, ops).
                           bindR (best_opportunity ops) (\<lambda>best. Inr (notes, best))))"

section \<open>The residual after the final value\<close>

definition final_limit_opportunities ::
  "allocation \<Rightarrow> option_book \<Rightarrow> decimal \<Rightarrow> decimal \<Rightarrow> (string list \<times> opportunity list) res" where
  "final_limit_opportunities a b target limit =
     (let i = instr b; f = default_fees in
      bindR (ladder_capacity b limit) (\<lambda>capacity.
        let units = min capacity (cash_units a limit (lot_size i))
        in bindR (search_lots (lots_permitted f a i limit) 0 (units div lot_size i)) (\<lambda>lots.
             let quantity = lots * lot_size i; children = children_of (whole_lots i) quantity
             in if quantity = 0 then Inr ([''CASH_OR_CAP_TOO_SMALL''], [])
                else bindR (worst_case_entry_cash f quantity limit children) (\<lambda>cash.
                     bindR (conditional_sale_cash f quantity target children) (\<lambda>sale.
                       let entry = reserve_cash cash; edge = sale - entry
                       in Inr ([], if 0 < edge then [\<lparr>op_instrument = i, op_quantity = quantity, op_limit = limit,
                            op_edge = edge, op_score = (ddiv edge entry, edge, quantity),
                            op_reason = ''FINAL_RESIDUAL''\<rparr>] else []))))))"

definition final_book_opportunities ::
  "final_value \<Rightarrow> allocation \<Rightarrow> option_book \<Rightarrow> (string list \<times> opportunity list) res" where
  "final_book_opportunities final a b =
     (let i = instr b; target = intrinsic (otype i) (strike i) (final_amount final)
      in if Some (expiry i) \<noteq> fv_trading_date final \<or> top_ask b = None then Inr ([], [])
         else gather (final_limit_opportunities a b target)
           (limits_below b (\<lambda>l. lv_price l + tick_size i \<le> target \<and> permitted_limit i (lv_price l))))"

definition find_final_opportunity ::
  "final_value \<Rightarrow> option_book list \<Rightarrow> allocation \<Rightarrow> (string list \<times> opportunity option) res" where
  "find_final_opportunity final books a =
     bindR (validate_final final) (\<lambda>_.
     bindR (gather (final_book_opportunities final a) books) (\<lambda>(notes, ops).
     bindR (best_opportunity ops) (\<lambda>best. Inr (notes, best))))"

section \<open>Lemmas\<close>

lemma whole_lots_pos: "instrument_ok i \<Longrightarrow> 0 < whole_lots i"
proof -
  assume ok: "instrument_ok i"
  have "lot_size i div lot_size i \<le> freeze_qty i div lot_size i"
    using instrument_okD [OF ok] by (intro zdiv_mono1) simp_all
  with instrument_okD [OF ok] show ?thesis by (simp add: whole_lots_def zero_less_mult_iff)
qed

lemma children_of_mono: "0 < child \<Longrightarrow> q \<le> r \<Longrightarrow> children_of child q \<le> children_of child r"
  by (simp add: children_of_def zdiv_mono1)

lemma children_of_pos: "0 < child \<Longrightarrow> 0 < q \<Longrightarrow> 1 \<le> children_of child q"
  using zdiv_mono1 [of child "q + child - 1" child] by (simp add: children_of_def)

text \<open>The debit of some units of a contract, split into freeze-sized children.\<close>

definition entry_debit :: "fee_schedule \<Rightarrow> instrument \<Rightarrow> decimal \<Rightarrow> int \<Rightarrow> decimal" where
  "entry_debit f i limit units =
     of_int units * limit + buy_amount f (of_int units * limit) (children_of (whole_lots i) units)"

definition lots_ok :: "fee_schedule \<Rightarrow> allocation \<Rightarrow> instrument \<Rightarrow> decimal \<Rightarrow> int \<Rightarrow> bool" where
  "lots_ok f a i limit lots =
     (instrument_ok i \<and> fees_ok f \<and> 0 < limit
      \<and> permits a (reserve_cash (entry_debit f i limit (lots * lot_size i))))"

lemma worst_case_children:
  assumes "instrument_ok i" "fees_ok f" "0 < limit" "0 < q"
  shows "worst_case_entry_cash f q limit (children_of (whole_lots i) q) = Inr (entry_debit f i limit q)"
  using assms children_of_pos [OF whole_lots_pos] by (simp add: worst_case_entry_cash_eq entry_debit_def)

lemma entry_debit_mono:
  assumes "instrument_ok i" "fees_ok f" "0 \<le> limit" "0 < q" "q \<le> r"
  shows "entry_debit f i limit q \<le> entry_debit f i limit r"
proof -
  have t: "of_int q * limit \<le> of_int r * limit" using assms by (intro mult_right_mono) simp_all
  have "0 \<le> of_int q * limit" using assms by simp
  with t assms show ?thesis
    unfolding entry_debit_def
    by (intro add_mono buy_amount_mono children_of_mono children_of_pos whole_lots_pos) simp_all
qed

lemma entry_debit_ge_turnover:
  assumes "instrument_ok i" "fees_ok f" "0 \<le> limit" "0 < q"
  shows "of_int q * limit \<le> entry_debit f i limit q"
  using assms buy_amount_nonneg [of f "of_int q * limit"] children_of_pos [OF whole_lots_pos, of i q]
  by (simp add: entry_debit_def)

lemma entry_debit_pos:
  assumes "instrument_ok i" "fees_ok f" "0 < limit" "0 < q"
  shows "0 < entry_debit f i limit q"
proof -
  have "0 < of_int q * limit" using assms by simp
  also have "\<dots> \<le> entry_debit f i limit q" using assms by (intro entry_debit_ge_turnover) simp_all
  finally show ?thesis .
qed

lemma lots_permitted_eq:
  assumes "instrument_ok i" "fees_ok f" "0 < limit" "1 \<le> lots"
  shows "lots_permitted f a i limit lots = Inr (lots_ok f a i limit lots)"
proof -
  have "0 < lots * lot_size i" using assms instrument_okD by simp
  with assms show ?thesis by (simp add: lots_permitted_def lots_ok_def Let_def worst_case_children)
qed

interpretation sizing: threshold "lots_ok f a i limit" 1 for f a i limit
proof unfold_locales
  fix m n :: int
  assume m: "1 \<le> m" "m \<le> n" and p: "lots_ok f a i limit n"
  then have ok: "instrument_ok i" "fees_ok f" "0 < limit" by (simp_all add: lots_ok_def)
  have lot: "0 < lot_size i" using ok(1) by (rule instrument_okD)
  have q: "0 < m * lot_size i" "m * lot_size i \<le> n * lot_size i"
    using m lot by (simp_all add: mult_right_mono)
  have "entry_debit f i limit (m * lot_size i) \<le> entry_debit f i limit (n * lot_size i)"
    using entry_debit_mono [OF ok(1,2) _ q] ok(3) by simp
  moreover have "0 < entry_debit f i limit (m * lot_size i)" by (rule entry_debit_pos [OF ok q(1)])
  ultimately show "lots_ok f a i limit m"
    using p ok permits_antimono [OF reserve_cash_pos reserve_cash_mono] by (auto simp: lots_ok_def)
qed

lemma permits_cash_units:
  assumes "instrument_ok i" "fees_ok f" "0 < limit" "0 < q" "q < 10 ^ 28" "q mod lot_size i = 0"
    and "permits a (reserve_cash (entry_debit f i limit q))"
  shows "q \<le> cash_units a limit (lot_size i)"
proof -
  let ?m = "min (remaining a) (al_spendable a)"
  have "of_int q * limit \<le> entry_debit f i limit q"
    using assms by (intro entry_debit_ge_turnover) simp_all
  also have "\<dots> \<le> reserve_cash (entry_debit f i limit q)" by (simp add: reserve_cash_def ceil_paise_ge)
  also have "\<dots> \<le> ?m" using assms(7) by (simp add: permits_iff)
  finally have "of_int q \<le> ?m / limit" using assms(3) by (simp add: pos_le_divide_eq)
  then have "of_int q \<le> ddiv ?m limit" using assms(4,5) by (simp add: ddiv_def ctx28_ge_int)
  then have "q \<le> trunc (ddiv ?m limit)"
    using assms(4) order_trans [of 0 "of_int q" "ddiv ?m limit"] by (auto simp: trunc_def le_floor_iff)
  then have "q div lot_size i \<le> trunc (ddiv ?m limit) div lot_size i"
    using instrument_okD(1) [OF assms(1)] by (intro zdiv_mono1)
  then have "q div lot_size i * lot_size i \<le> cash_units a limit (lot_size i)"
    unfolding cash_units_def using instrument_okD(1) [OF assms(1)] by (intro mult_right_mono) simp_all
  with assms(6) show ?thesis by (simp add: mult.commute dvd_div_mult_self mod_eq_0_iff_dvd)
qed

lemma cash_units_nonneg:
  assumes "0 < limit" "0 \<le> remaining a" "0 \<le> al_spendable a" "0 < lot"
  shows "0 \<le> cash_units a limit lot"
proof -
  have "0 \<le> ddiv (min (remaining a) (al_spendable a)) limit"
    using assms by (simp add: ddiv_def ctx28_nonneg)
  then show ?thesis using assms(4) by (simp add: cash_units_def trunc_def pos_imp_zdiv_nonneg_iff)
qed

lemma gather_Inr:
  assumes "gather g xs = Inr (notes, ops)"
  shows "op \<in> set ops \<longleftrightarrow> (\<exists>x \<in> set xs. \<exists>n os. g x = Inr (n, os) \<and> op \<in> set os)"
proof -
  obtain rs where rs: "mapR g xs = Inr rs" "ops = concat (map snd rs)"
    using assms by (auto simp: gather_def bindR_Inr_iff)
  have "mapR g ys = Inr zs \<Longrightarrow> set zs = {z. \<exists>y \<in> set ys. g y = Inr z}" for ys zs
    by (induction ys arbitrary: zs) (auto simp: bindR_Inr_iff)
  with rs show ?thesis by force
qed

lemma best_opportunity_Inr:
  assumes "best_opportunity ops = Inr (Some op)"
  shows "op \<in> set ops"
    and "\<forall>x \<in> set ops. \<exists>k k'. opportunity_key x = Inr k \<and> opportunity_key op = Inr k' \<and> k \<le> k'"
proof -
  obtain keyed where k: "mapR (\<lambda>x. bindR (opportunity_key x) (\<lambda>k. Inr (k, x))) ops = Inr keyed"
      "map_option snd (py_max_by fst keyed) = Some op"
    using assms by (auto simp: best_opportunity_def bindR_Inr_iff)
  have keyed: "mapR (\<lambda>x. bindR (opportunity_key x) (\<lambda>k. Inr (k, x))) ys = Inr zs \<Longrightarrow>
      set zs = {(k, x). x \<in> set ys \<and> opportunity_key x = Inr k} \<and> (\<forall>y \<in> set ys. \<exists>k. opportunity_key y = Inr k)" for ys zs
    by (induction ys arbitrary: zs) (auto simp: bindR_Inr_iff)
  obtain kk where m: "py_max_by fst keyed = Some (kk, op)" using k(2) by auto
  from py_max_by_in [OF m] keyed [OF k(1)] have op: "op \<in> set ops" "opportunity_key op = Inr kk" by auto
  then show "op \<in> set ops" by simp
  show "\<forall>x \<in> set ops. \<exists>k k'. opportunity_key x = Inr k \<and> opportunity_key op = Inr k' \<and> k \<le> k'"
  proof
    fix x assume x: "x \<in> set ops"
    then obtain k where kx: "opportunity_key x = Inr k" using keyed [OF k(1)] by blast
    with x keyed [OF k(1)] have "(k, x) \<in> set keyed" by auto
    from py_max_by_ge [OF m this] kx op show "\<exists>k k'. opportunity_key x = Inr k \<and> opportunity_key op = Inr k' \<and> k \<le> k'"
      by auto
  qed
qed

lemma permitted_limitD:
  "permitted_limit i p \<Longrightarrow> 0 < p \<and> (\<exists>k. tick i p = Inr k)
     \<and> (\<forall>l. lower_limit i = Some l \<longrightarrow> l \<le> p) \<and> (\<forall>u. upper_limit i = Some u \<longrightarrow> p \<le> u)"
  by (auto simp: permitted_limit_def split: sum.splits option.splits)

section \<open>What an eligible opportunity satisfies\<close>

definition sound_opportunity ::
  "fee_schedule \<Rightarrow> allocation \<Rightarrow> option_book \<Rightarrow> decimal \<Rightarrow> opportunity \<Rightarrow> bool" where
  "sound_opportunity f a b target op =
     (op_instrument op = instr b \<and> 0 < op_quantity op \<and> lot_size (instr b) dvd op_quantity op
      \<and> op_quantity op \<le> sum_by lv_qty (filter (\<lambda>l. lv_price l \<le> op_limit op) (asks b))
      \<and> permits a (reserve_cash (entry_debit f (instr b) (op_limit op) (op_quantity op)))
      \<and> 0 < op_edge op
      \<and> conditional_sale_cash f (op_quantity op) target (children_of (whole_lots (instr b)) (op_quantity op))
          = Inr (op_edge op + reserve_cash (entry_debit f (instr b) (op_limit op) (op_quantity op))))"

lemma size_opportunity_Inr:
  assumes "instrument_ok i" "fees_ok f" "0 < limit" "0 < q"
    and "size_opportunity f a i limit target q = Inr (notes, ops)" "op \<in> set ops"
  shows "op_instrument op = i \<and> op_quantity op = q \<and> op_limit op = limit \<and> 0 < op_edge op
    \<and> permits a (reserve_cash (entry_debit f i limit q))
    \<and> conditional_sale_cash f q target (children_of (whole_lots i) q)
        = Inr (op_edge op + reserve_cash (entry_debit f i limit q))"
  using assms
  by (auto simp: size_opportunity_def Let_def worst_case_children bindR_Inr_iff split: if_splits)

lemma candidate_sizes_props:
  assumes "instrument_ok i" "lot_size i dvd M" "q \<in> set (candidate_sizes i M)"
  shows "0 < q \<and> q \<le> M \<and> lot_size i dvd q"
proof -
  let ?child = "whole_lots i"
  have child: "0 < ?child" by (rule whole_lots_pos [OF assms(1)])
  have "lot_size i dvd ?child" by (simp add: whole_lots_def)
  then have "lot_size i dvd b" if "b \<in> set (py_range ?child (M + ?child) ?child)" for b
    using that by (auto simp: py_range_def)
  then have bd: "lot_size i dvd x" if "b \<in> set (py_range ?child (M + ?child) ?child)" "x = b \<or> x = b - lot_size i" for b x
    using that by (auto intro: dvd_diff)
  have "0 < q" "q \<le> M" and src: "q \<in> set ([lot_size i, M] @ concat (map (\<lambda>b. [b, b - lot_size i]) (py_range ?child (M + ?child) ?child)))"
    using assms(3) by (simp_all only: candidate_sizes_def Let_def set_sort set_remdups set_filter mem_Collect_eq)
  moreover have "lot_size i dvd q" using src bd assms(2) by auto
  ultimately show ?thesis by blast
qed

lemma limit_opportunities_sound:
  assumes ins: "instrument_ok (instr b)" and f: "fees_ok f" and lim: "permitted_limit (instr b) limit"
    and run: "limit_opportunities f a b target limit = Inr (notes, ops)" and op: "op \<in> set ops"
  shows "sound_opportunity f a b target op \<and> op_limit op = limit"
proof -
  let ?i = "instr b" and ?lot = "lot_size (instr b)"
  let ?depth = "sum_by lv_qty (filter (\<lambda>l. lv_price l \<le> limit) (asks b))"
  let ?av = "min (?depth div ?lot * ?lot div ?lot * ?lot) (cash_units a limit ?lot)"
  have lot: "0 < ?lot" using ins by (rule instrument_okD)
  obtain k where tk: "tick ?i limit = Inr k" and pos: "0 < limit" using permitted_limitD [OF lim] by blast
  obtain lots n where l: "search_lots (lots_permitted f a ?i limit) 0 (?av div ?lot) = Inr lots"
    and g: "gather (size_opportunity f a ?i limit target) (candidate_sizes ?i (lots * ?lot)) = Inr (n, ops)"
    using run by (auto simp: limit_opportunities_def Let_def ladder_capacity_eq [OF tk] bindR_Inr_iff)
  from g op obtain q n' os where q: "q \<in> set (candidate_sizes ?i (lots * ?lot))"
      "size_opportunity f a ?i limit target q = Inr (n', os)" "op \<in> set os" by (auto simp: gather_Inr)
  have qp: "0 < q" "q \<le> lots * ?lot" "?lot dvd q"
    using candidate_sizes_props [OF ins _ q(1)] by simp_all
  have test: "lots_permitted f a ?i limit j = Inr (lots_ok f a ?i limit j)" if "0 < j" for j
    using that by (intro lots_permitted_eq ins f pos) simp
  have "lots * ?lot \<le> ?depth"
  proof (cases "0 \<le> ?av div ?lot")
    case True
    from sizing.search_lots_finds [OF True _ test, of 0] l have "lots \<le> ?av div ?lot" by auto
    then have "lots * ?lot \<le> ?av div ?lot * ?lot" using lot by (intro mult_right_mono) simp_all
    also have "\<dots> \<le> ?av" by (rule div_mult_le [OF lot])
    also have "\<dots> \<le> ?depth div ?lot * ?lot" using lot by simp
    also have "\<dots> \<le> ?depth" by (rule div_mult_le [OF lot])
    finally show ?thesis .
  next
    case False
    then have "lots = 0" using l by (subst (asm) search_lots.simps) simp
    with qp show ?thesis by simp
  qed
  with qp size_opportunity_Inr [OF ins f pos qp(1) q(2,3)] show ?thesis
    by (auto simp: sound_opportunity_def)
qed

lemma book_opportunities_sound:
  assumes "instrument_ok (instr b)" "fees_ok f"
    and "book_opportunities f a direction contiguous b = Inr (notes, ops)" "op \<in> set ops"
  shows "sound_opportunity f a b (book_target direction (instr b) contiguous) op
    \<and> otype (instr b) = direction \<and> permitted_limit (instr b) (op_limit op)
    \<and> op_limit op \<in> lv_price ` set (asks b)
    \<and> op_limit op < book_target direction (instr b) contiguous"
proof -
  let ?t = "book_target direction (instr b) contiguous"
  let ?keep = "\<lambda>l. lv_price l < ?t \<and> 0 < lv_qty l \<and> permitted_limit (instr b) (lv_price l)"
  obtain n where "otype (instr b) = direction"
    and g: "gather (limit_opportunities f a b ?t) (limits_below b ?keep) = Inr (n, ops)"
    using assms(3,4)
    by (auto simp: book_opportunities_def Let_def bindR_Inr_iff split: if_splits option.splits prod.splits)
  moreover from g assms(4) obtain limit n' os where l: "limit \<in> set (limits_below b ?keep)"
      "limit_opportunities f a b ?t limit = Inr (n', os)" "op \<in> set os" by (auto simp: gather_Inr)
  moreover from l(1) have "permitted_limit (instr b) limit" "limit \<in> lv_price ` set (asks b)" "limit < ?t"
    by (auto simp: limits_below_def)
  ultimately show ?thesis using limit_opportunities_sound [OF assms(1,2) _ l(2,3)] by auto
qed

section \<open>The five observations\<close>

lemma by_identity_inv:
  assumes "distinct (map fst d)" "\<forall>(k, x) \<in> set d. k = observation_key x \<and> x \<in> Y"
    and "set xs \<subseteq> Y"
  shows "distinct (map fst (foldl (\<lambda>d x. AList.update (observation_key x) x d) d xs))
    \<and> (\<forall>(k, x) \<in> set (foldl (\<lambda>d x. AList.update (observation_key x) x d) d xs). k = observation_key x \<and> x \<in> Y)"
  using assms
proof (induction xs arbitrary: d)
  case (Cons x xs)
  have "set (AList.update (observation_key x) x d) \<subseteq> insert (observation_key x, x) (set d)"
    by (induction d) auto
  with Cons.prems Cons.IH [of "AList.update (observation_key x) x d"] show ?case
    by (auto simp: distinct_update)
qed simp

lemma last_five_props:
  "distinct (map observation_key (last_five obs s u))
   \<and> (\<forall>x \<in> set (last_five obs s u). x \<in> set obs \<and> reference_eligible s u x)"
proof -
  let ?d = "foldl (\<lambda>d x. AList.update (observation_key x) x d) [] (filter (reference_eligible s u) obs)"
  let ?Y = "{x \<in> set obs. reference_eligible s u x}"
  let ?s = "sort_key (\<lambda>x. (provider_ts_ms x, receiver_seq x)) (map snd ?d)"
  have d: "distinct (map fst ?d)" "\<forall>(k, x) \<in> set ?d. k = observation_key x \<and> x \<in> ?Y"
    using by_identity_inv [of "[]" ?Y "filter (reference_eligible s u) obs"] by auto
  have "map fst ?d = map (\<lambda>x. observation_key (snd x)) ?d"
    using d(2) by (intro map_cong) auto
  with d(1) have "distinct (map observation_key (map snd ?d))" by (simp only: map_map o_def)
  then have "distinct (map snd ?d)" "inj_on observation_key (set (map snd ?d))" by (simp_all only: distinct_map)
  then have "distinct (map observation_key ?s)" by (simp only: distinct_map distinct_sort set_sort)
  then have "distinct (map observation_key (last_n 5 ?s))"
    by (simp only: last_n_def drop_map [symmetric] distinct_drop)
  moreover have "x \<in> ?Y" if "x \<in> set (last_n 5 ?s)" for x
  proof -
    have "x \<in> set ?s" using that set_last_n by (rule set_mp [rotated])
    then have "x \<in> snd ` set ?d" by (simp only: set_sort set_map)
    then obtain k where "(k, x) \<in> set ?d" by force
    with d(2) show ?thesis by blast
  qed
  ultimately show ?thesis unfolding last_five_def Let_def by blast
qed

lemma median_of_five:
  fixes vs :: "decimal list"
  assumes "length vs = 5"
  shows "sort vs ! 2 \<in> set vs" "3 \<le> length (filter (\<lambda>v. v \<le> sort vs ! 2) vs)"
    "3 \<le> length (filter (\<lambda>v. sort vs ! 2 \<le> v) vs)"
proof -
  let ?s = "sort vs"
  have len: "length ?s = 5" using assms by simp
  show "?s ! 2 \<in> set vs" using nth_mem [of 2 ?s] len by simp
  have split: "length (filter P vs) = length (filter P ?s)" for P :: "decimal \<Rightarrow> bool"
    by (simp add: filter_sort)
  have "\<exists>a b c d e. ss = [a, b, c, d, e]" if "length ss = 5" for ss :: "decimal list"
    using that by (auto simp: length_Suc_conv numeral_eq_Suc)
  then obtain a b c d e where s: "?s = [a, b, c, d, e]" using len by blast
  have "sorted [a, b, c, d, e]" using sorted_sort [of vs] s by simp
  then show "3 \<le> length (filter (\<lambda>v. v \<le> ?s ! 2) vs)" "3 \<le> length (filter (\<lambda>v. ?s ! 2 \<le> v) vs)"
    unfolding split s by (auto simp: numeral_eq_Suc)
qed

section \<open>Properties\<close>

text \<open>
  A frozen reference is the median of exactly five observations with
  distinct identities. Every one of them was published and received within the
  30 seconds before the boundary, entirely before it even allowing for the clock
  uncertainty, on the live feed of the status' own epoch; no later observation
  can enter. At least three of the five lie on either side of the value.
\<close>

theorem select_reference_median:
  assumes "select_reference observations s u = Inr r"
  shows "\<exists>xs. length xs = 5 \<and> distinct (map observation_key xs) \<and> event_ids r = map event_id xs
    \<and> (\<forall>x \<in> set xs. x \<in> set observations \<and> ob_epoch x = st_epoch s
         \<and> updated_time_ms s - 30000 \<le> provider_ts_ms x \<and> provider_ts_ms x < boundary_ms r
         \<and> ob_received_ns x div 1000000 + u < boundary_ms r)
    \<and> rf_value r \<in> ob_value ` set xs
    \<and> 3 \<le> length (filter (\<lambda>x. ob_value x \<le> rf_value r) xs)
    \<and> 3 \<le> length (filter (\<lambda>x. rf_value r \<le> ob_value x) xs)
    \<and> phase s = CTS_CLOSE \<and> u \<le> 100 \<and> boundary_ms r = updated_time_ms s"
proof -
  let ?xs = "last_five observations s u"
  have len: "length ?xs = 5" and r: "r = \<lparr>rf_value = sort (map ob_value ?xs) ! 2,
      boundary_ms = updated_time_ms s, event_ids = map event_id ?xs, rf_epoch = st_epoch s\<rparr>"
    and st: "phase s = CTS_CLOSE" "u \<le> 100"
    using assms by (auto simp: select_reference_def Let_def MAX_CLOCK_UNCERTAINTY_MS_def split: if_splits)
  have lenv: "length (map ob_value ?xs) = 5" using len by simp
  show ?thesis
    using last_five_props [of observations s u] median_of_five [OF lenv] len st
    by (intro exI [of _ ?xs])
       (auto simp: r reference_eligible_def REFERENCE_MAX_AGE_MS_def filter_map o_def)
qed

definition demo_status :: cas_status where
  "demo_status = \<lparr>phase = CTS_CLOSE, updated_time_ms = 1000000, st_trading_date = 20000, st_epoch = ''e''\<rparr>"

definition demo_observation :: "int \<Rightarrow> decimal \<Rightarrow> index_observation" where
  "demo_observation n v = \<lparr>ob_value = v, provider_ts_ms = 990000 + n, ob_received_ns = (990000 + n) * 1000000,
     ob_epoch = ''e'', receiver_seq = n, frame_kind = ''live_feed'', raw_identity = [], wrapper_present = True\<rparr>"

definition demo_observations :: "index_observation list" where
  "demo_observations = map (\<lambda>(n, v). demo_observation n v)
     [(1, 24003), (2, 24001), (3, 24007), (4, 24002), (5, 24000), (6, 24005)]"

theorem select_reference_median_witness:
  "\<exists>r. select_reference demo_observations demo_status 20 = Inr r \<and> rf_value r = 24002 \<and> boundary_ms r = 1000000"
proof -
  have "select_reference demo_observations demo_status 20 = Inr \<lparr>rf_value = 24002, boundary_ms = 1000000,
      event_ids = [''990002:2'', ''990003:3'', ''990004:4'', ''990005:5'', ''990006:6''], rf_epoch = ''e''\<rparr>"
    by code_simp
  then show ?thesis using select_reference_median by (auto simp: demo_status_def)
qed

text \<open>
  C14: A final-value entry is sized to the largest whole-lot quantity that the
  displayed depth and the allocation admit: it is itself within the depth and
  permitted with its worst-case debit, has positive conditional edge, and every
  larger whole-lot quantity within the depth is refused by the allocation.
\<close>

theorem final_entry_size_maximal:
  assumes "instrument_ok (instr b)" and "tick (instr b) limit = Inr k" and "0 < limit"
    and "0 \<le> remaining a" "0 \<le> al_spendable a" "0 \<le> target"
    and "sum_by lv_qty (filter (\<lambda>l. lv_price l \<le> limit) (asks b)) < 10 ^ 28"
    and "0 \<le> sum_by lv_qty (filter (\<lambda>l. lv_price l \<le> limit) (asks b))"
  shows "\<exists>notes ops. final_limit_opportunities a b target limit = Inr (notes, ops)
    \<and> (\<forall>op \<in> set ops. \<exists>n. 1 \<le> n \<and> op_quantity op = n * lot_size (instr b)
        \<and> op_quantity op \<le> sum_by lv_qty (filter (\<lambda>l. lv_price l \<le> limit) (asks b))
        \<and> permits a (reserve_cash (entry_debit default_fees (instr b) limit (op_quantity op)))
        \<and> 0 < op_edge op \<and> op_limit op = limit
        \<and> (\<forall>m. n < m \<longrightarrow> m * lot_size (instr b) \<le> sum_by lv_qty (filter (\<lambda>l. lv_price l \<le> limit) (asks b))
             \<longrightarrow> \<not> permits a (reserve_cash (entry_debit default_fees (instr b) limit (m * lot_size (instr b))))))"
proof -
  let ?i = "instr b" and ?lot = "lot_size (instr b)"
  let ?depth = "sum_by lv_qty (filter (\<lambda>l. lv_price l \<le> limit) (asks b))"
  let ?cap = "?depth div ?lot * ?lot" and ?cash = "cash_units a limit ?lot"
  let ?units = "min ?cap ?cash" and ?p = "lots_ok default_fees a ?i limit"
  have lot: "0 < ?lot" using assms(1) by (rule instrument_okD)
  have "0 \<le> ?cap" using assms(8) lot by (simp add: pos_imp_zdiv_nonneg_iff)
  moreover have cash0: "0 \<le> ?cash" by (rule cash_units_nonneg [OF assms(3,4,5) lot])
  ultimately have high: "0 \<le> ?units div ?lot" using lot by (simp add: pos_imp_zdiv_nonneg_iff)
  have cap_le: "?cap \<le> ?depth" by (rule div_mult_le [OF lot])
  have test: "lots_permitted default_fees a ?i limit j = Inr (?p j)" if "0 < j" for j
    using that by (intro lots_permitted_eq assms(1,3) fees_ok_default) simp
  obtain n where n: "search_lots (lots_permitted default_fees a ?i limit) 0 (?units div ?lot) = Inr n"
      "0 \<le> n" "n \<le> ?units div ?lot" "n = 0 \<or> ?p n" "\<And>j. n < j \<Longrightarrow> j \<le> ?units div ?lot \<Longrightarrow> \<not> ?p j"
    using sizing.search_lots_finds [OF high _ test, of 0] by auto
  have nq: "n * ?lot \<le> ?units"
  proof -
    have "n * ?lot \<le> ?units div ?lot * ?lot" using n(3) lot by (intro mult_right_mono) simp_all
    also have "\<dots> \<le> ?units" by (rule div_mult_le [OF lot])
    finally show ?thesis .
  qed
  have maximal: "\<not> permits a (reserve_cash (entry_debit default_fees ?i limit (m * ?lot)))"
    if m: "n < m" "m * ?lot \<le> ?depth" for m
  proof
    assume p: "permits a (reserve_cash (entry_debit default_fees ?i limit (m * ?lot)))"
    have q: "0 < m * ?lot" using m n(2) lot by simp
    have "m * ?lot \<le> ?cap" by (rule le_div_mult [OF lot m(2)])
    moreover have "m * ?lot \<le> ?cash"
      by (rule permits_cash_units [OF assms(1) fees_ok_default assms(3) q _ _ p]) (use m assms(7) in simp_all)
    ultimately have "m \<le> ?units div ?lot" by (intro mult_le_div [OF lot]) simp
    with n(5) [of m] m(1) have "\<not> ?p m" by simp
    with p assms(1,3) show False by (simp add: lots_ok_def)
  qed
  show ?thesis
  proof (cases "n = 0")
    case True
    with n(1) lot show ?thesis
      by (simp add: final_limit_opportunities_def Let_def ladder_capacity_eq [OF assms(2)])
  next
    case False
    then have n0: "1 \<le> n" "0 < n * ?lot" using n(2) lot by simp_all
    have wc: "worst_case_entry_cash default_fees (n * ?lot) limit (children_of (whole_lots ?i) (n * ?lot))
        = Inr (entry_debit default_fees ?i limit (n * ?lot))"
      by (rule worst_case_children [OF assms(1) fees_ok_default assms(3) n0(2)])
    obtain sale where sale: "conditional_sale_cash default_fees (n * ?lot) target (children_of (whole_lots ?i) (n * ?lot)) = Inr sale"
      using conditional_sale_cash_eq [OF fees_ok_default less_imp_le [OF n0(2)] assms(6)
          children_of_pos [OF whole_lots_pos [OF assms(1)] n0(2)]] by blast
    have "n * ?lot \<le> ?depth" using nq cap_le by simp
    moreover have "permits a (reserve_cash (entry_debit default_fees ?i limit (n * ?lot)))"
      using n(4) False by (simp add: lots_ok_def)
    ultimately show ?thesis
      using n(1) n0 lot wc sale maximal
      by (auto simp: final_limit_opportunities_def Let_def ladder_capacity_eq [OF assms(2)] intro!: exI [of _ n])
  qed
qed

definition small_allocation :: allocation where
  "small_allocation = allocation_start 8000 8000 0 0 None"

theorem final_entry_size_maximal_witness:
  "\<exists>notes op. final_limit_opportunities small_allocation demo_book 150 101 = Inr (notes, [op])
     \<and> op_quantity op = 75 \<and> 0 < op_edge op
     \<and> \<not> permits small_allocation (reserve_cash (entry_debit default_fees demo_instrument 101 150))"
proof -
  have i: "instr demo_book = demo_instrument" by (simp add: demo_book_def)
  have l: "lot_size demo_instrument = 75" by (simp add: demo_instrument_def)
  have tick: "tick demo_instrument 101 = Inr 2020" by code_simp
  have nonneg: "0 \<le> remaining small_allocation" by code_simp
  have nonneg': "0 \<le> al_spendable small_allocation" by code_simp
  have depth: "sum_by lv_qty (filter (\<lambda>l. lv_price l \<le> 101) (asks demo_book)) = 150" by code_simp
  have steps: "ladder_capacity demo_book 101 = Inr 150" "cash_units small_allocation 101 75 = 75"
    "search_lots (lots_permitted default_fees small_allocation demo_instrument 101) 0 1 = Inr 1"
    "worst_case_entry_cash default_fees 75 101 (children_of (whole_lots demo_instrument) 75) = Inr (760281 / 100)"
    "conditional_sale_cash default_fees 75 150 (children_of (whole_lots demo_instrument) 75) = Inr (280116 / 25)"
    by (code_simp, code_simp, code_simp, code_simp, code_simp)
  have res: "reserve_cash (760281 / 100) = 760281 / 100" by code_simp
  obtain op where run: "final_limit_opportunities small_allocation demo_book 150 101 = Inr ([], [op])"
    "op_quantity op = 75" "0 < op_edge op"
    by (simp add: final_limit_opportunities_def i l steps res Let_def)
  show ?thesis
    using final_entry_size_maximal [of demo_book 101 2020 small_allocation 150] demo_instrument_ok
      run tick nonneg nonneg' depth
    by (auto simp: i l dest: spec [of _ 2])
qed

text \<open>
  C13: An auction opportunity is returned only after two distinct observations
  whose latest two values lie on the same side of the frozen reference. It is a
  contract of that side, at a displayed, permitted ask price below the smallest
  intrinsic value those observations imply, for a positive whole-lot quantity
  within the displayed depth; its reserved worst-case debit is permitted by the
  allocation and its conditional sale leaves a positive edge; and no eligible
  opportunity of any book has a greater key (score, contract number, price).
\<close>

theorem find_opportunity_sound:
  assumes books: "\<forall>b \<in> set books. instrument_ok (instr b)" and f: "fees_ok f"
    and run: "find_opportunity f ref observations books a = Inr (notes, Some op)"
  shows "\<exists>b \<in> set books. \<exists>contiguous.
     2 \<le> length contiguous \<and> contiguous = map fst (take (length contiguous) (rev observations))
     \<and> (\<forall>v \<in> set contiguous. same_direction (otype (instr b)) v (rf_value ref))
     \<and> sound_opportunity f a b (book_target (otype (instr b)) (instr b) contiguous) op
     \<and> permitted_limit (instr b) (op_limit op) \<and> op_limit op \<in> lv_price ` set (asks b)
     \<and> op_limit op < book_target (otype (instr b)) (instr b) contiguous
     \<and> (\<forall>c \<in> set books. \<forall>n os. book_opportunities f a (otype (instr b)) contiguous c = Inr (n, os) \<longrightarrow>
          (\<forall>x \<in> set os. \<exists>k k'. opportunity_key x = Inr k \<and> opportunity_key op = Inr k' \<and> k \<le> k'))"
proof -
  define current where "current = fst (last observations)"
  define direction where "direction = (if rf_value ref < current then CE else PE)"
  define contiguous where
    "contiguous = takeWhile (\<lambda>v. same_direction direction v (rf_value ref)) (map fst (rev observations))"
  obtain ns ops where two: "2 \<le> length contiguous"
    and g: "gather (book_opportunities f a direction contiguous) books = Inr (ns, ops)"
    and best: "best_opportunity ops = Inr (Some op)"
    using run
    by (auto simp: find_opportunity_def Let_def bindR_Inr_iff current_def [symmetric]
        direction_def [symmetric] contiguous_def [symmetric] not_less split: if_splits)
  have "op \<in> set ops" by (rule best_opportunity_Inr(1) [OF best])
  with g obtain b n os where b: "b \<in> set books" "book_opportunities f a direction contiguous b = Inr (n, os)"
      "op \<in> set os" by (auto simp: gather_Inr)
  have s: "sound_opportunity f a b (book_target direction (instr b) contiguous) op"
      "otype (instr b) = direction" "permitted_limit (instr b) (op_limit op)"
      "op_limit op \<in> lv_price ` set (asks b)" "op_limit op < book_target direction (instr b) contiguous"
    using book_opportunities_sound [OF _ f b(2,3)] books b(1) by blast+
  have take: "contiguous = map fst (take (length contiguous) (rev observations))"
    unfolding contiguous_def by (metis take_map takeWhile_eq_take)
  have side: "\<forall>v \<in> set contiguous. same_direction direction v (rf_value ref)"
    unfolding contiguous_def by (auto dest: set_takeWhileD)
  have opt: "\<exists>k k'. opportunity_key x = Inr k \<and> opportunity_key op = Inr k' \<and> k \<le> k'"
    if "c \<in> set books" "book_opportunities f a direction contiguous c = Inr (m, xs)" "x \<in> set xs" for c m xs x
  proof -
    have "x \<in> set ops" using g that by (auto simp: gather_Inr)
    with best_opportunity_Inr(2) [OF best] show ?thesis by blast
  qed
  show ?thesis
    using b(1) two take side s opt by (intro bexI [of _ b] exI [of _ contiguous]) auto
qed

definition demo_reference :: reference where
  "demo_reference = \<lparr>rf_value = 24000, boundary_ms = 1000000, event_ids = [], rf_epoch = ''e''\<rparr>"

definition flat_fees :: fee_schedule where
  "flat_fees = \<lparr>brokerage_per_child = 20, exchange_rate = 0, sebi_rate = 0, ipft_rate = 0,
     buy_stamp_rate = 0, sell_stt_rate = 0, gst_rate = 0\<rparr>"

definition thin_book :: option_book where
  "thin_book = \<lparr>instr = demo_instrument, bids = [\<lparr>lv_price = 100, lv_qty = 150\<rparr>],
     asks = [\<lparr>lv_price = 100, lv_qty = 75\<rparr>], bk_epoch = ''e'', bk_received_ns = 1, bk_provider_ts = None, bk_statistics = None\<rparr>"

theorem find_opportunity_sound_witness:
  "\<exists>op contiguous. find_opportunity flat_fees demo_reference [(24150, ''a''), (24160, ''b'')] [thin_book] demo_allocation
       = Inr ([], Some op)
     \<and> sound_opportunity flat_fees demo_allocation thin_book (book_target CE demo_instrument contiguous) op"
proof -
  let ?r = "find_opportunity flat_fees demo_reference [(24150, ''a''), (24160, ''b'')] [thin_book] demo_allocation"
  have i: "instr thin_book = demo_instrument" "otype demo_instrument = CE"
    by (simp_all add: thin_book_def demo_instrument_def)
  have f: "fees_ok flat_fees" by code_simp
  have "map_sum (\<lambda>_. ()) (\<lambda>(n, x). (n, x \<noteq> None)) ?r = Inr ([], True)" by code_simp
  then obtain op where op: "?r = Inr ([], Some op)" by (cases ?r) auto
  have "\<forall>b \<in> set [thin_book]. instrument_ok (instr b)" using demo_instrument_ok i by simp
  from find_opportunity_sound [OF this f op] obtain b contiguous where
    "b \<in> set [thin_book]"
    "sound_opportunity flat_fees demo_allocation b (book_target (otype (instr b)) (instr b) contiguous) op"
    by blast
  then have "sound_opportunity flat_fees demo_allocation thin_book (book_target CE demo_instrument contiguous) op"
    by (simp add: i)
  with op show ?thesis by blast
qed

end
