(* ===== verification/Ledger.thy ===== *)
theory Ledger
  imports Json Tables Risk Strategy Exits
begin

text \<open>
  The durable ledger of \<open>dhan_cas_bot/ledger.py\<close>: its tables, every operation
  that writes them and the totals derived from them. A \<open>with self.transaction()\<close>
  body is a function from the ledger to an error or a result and the new ledger;
  an error leaves the ledger as it was.
\<close>

section \<open>Tables\<close>

record intent_row =
  ir_id :: string
  ir_client :: string
  ir_lifecycle :: string
  ir_side :: side
  ir_security :: string
  ir_quantity :: int
  ir_price :: decimal
  ir_state :: string
  ir_reserved :: decimal
  ir_payload :: intent
  ir_created :: instant

record attempt_row =
  at_id :: string
  at_intent :: string
  at_sent :: instant
  at_state :: string
  at_response :: jrow

record order_row =
  or_id :: string
  or_intent :: string
  or_account :: string
  or_state :: string
  or_payload :: jrow

text \<open>
  A fill is stored under the pair of its order and trade identity; rows written
  by an earlier release carry the bare trade identity.
\<close>

datatype fill_key = PairKey string string | RawKey string

record fill_row =
  fr_key :: fill_key
  fr_order :: string
  fr_intent :: string
  fr_security :: string
  fr_quantity :: int
  fr_price :: decimal
  fr_fees :: decimal
  fr_occurred :: instant

record charge_row =
  ch_order :: string
  ch_intent :: string
  ch_fees :: decimal
  ch_complete :: bool

record incident_row =
  ic_id :: string
  ic_kind :: string
  ic_payload :: jrow

record lifecycle_row =
  lc_id :: string
  lc_session :: string
  lc_security :: string
  lc_bankroll :: decimal
  lc_state :: string
  lc_strategy :: string
  lc_instrument :: instrument
  lc_signal_at :: "instant option"
  lc_exit_at :: "instant option"
  lc_details :: details
  lc_retain :: "decimal option"
  lc_side :: "option_type option"
  lc_shock :: "string option"

record settlement_row =
  sl_receipt :: string
  sl_lifecycle :: string
  sl_quantity :: int
  sl_credit :: decimal

text \<open>
  What a metadata row holds: a flag, a row of texts, the final value, the peaks and
  latched reason of a position, a latched exit with its due time, a profit guard, or an
  object of scalar fields with the rows of its one list field.
\<close>

datatype meta = MFlag bool | MRow jrow | MFinal final_value | MPeaks decimal decimal string | MExit string instant
  | MGuard profit_guard | MData details "details list"

record ledger =
  lg_mandates :: "(string \<times> mandate) list"
  lg_references :: "(string \<times> reference) list"
  lg_intents :: "intent_row list"
  lg_attempts :: "attempt_row list"
  lg_orders :: "order_row list"
  lg_fills :: "fill_row list"
  lg_charges :: "charge_row list"
  lg_counters :: "(string \<times> decimal) list"
  lg_incidents :: "incident_row list"
  lg_lifecycles :: "lifecycle_row list"
  lg_rate_events :: "(string \<times> decimal) list"
  lg_consumed :: "(string \<times> string) list"
  lg_depth_debits :: "(string \<times> string \<times> int) list"
  lg_postings :: "(string \<times> decimal) list"
  lg_settlements :: "settlement_row list"
  lg_observations :: "(string \<times> string) list"
  lg_metadata :: "(string \<times> meta) list"

definition empty_ledger :: ledger where
  "empty_ledger = \<lparr>lg_mandates = [], lg_references = [], lg_intents = [], lg_attempts = [], lg_orders = [],
     lg_fills = [], lg_charges = [], lg_counters = [], lg_incidents = [], lg_lifecycles = [], lg_rate_events = [],
     lg_consumed = [], lg_depth_debits = [], lg_postings = [], lg_settlements = [], lg_observations = [],
     lg_metadata = []\<rparr>"

definition TERMINAL :: "string list" where
  "TERMINAL = [''TRADED'', ''CANCELLED'', ''REJECTED'', ''EXPIRED'']"

definition TERMINAL_INTENT :: "string list" where
  "TERMINAL_INTENT = [''FILLED'', ''CANCELLED'', ''REJECTED'', ''EXPIRED'', ''ABORTED'']"

section \<open>Mandates and references\<close>

definition put_mandate :: "mandate \<Rightarrow> ledger \<Rightarrow> (unit \<times> ledger) res" where
  "put_mandate m l =
     bindR (validate_mandate m) (\<lambda>_.
       Inr ((), l\<lparr>lg_mandates := upsert_row fst (\<lambda>old r. r) (md_account_id m, m) (lg_mandates l)\<rparr>))"

definition freeze_reference :: "string \<Rightarrow> reference \<Rightarrow> ledger \<Rightarrow> (unit \<times> ledger) res" where
  "freeze_reference session_id r l =
     (case row_with fst session_id (lg_references l) of
        Some old \<Rightarrow> if snd old \<noteq> r then Inl (ContractError ''same-session reference is immutable'') else Inr ((), l)
      | None \<Rightarrow> Inr ((), l\<lparr>lg_references := insert_ignore fst (session_id, r) (lg_references l)\<rparr>))"

section \<open>Intents, attempts and orders\<close>

text \<open>Both \<open>intent_id\<close> and \<open>client_order_id\<close> are unique columns.\<close>

definition create_intent :: "intent \<Rightarrow> decimal \<Rightarrow> ledger \<Rightarrow> (unit \<times> ledger) res" where
  "create_intent n reserved l =
     (if reserved < 0 \<or> in_side n = BUY \<and> reserved = 0
      then Inl (ContractError ''buy reservation must be positive'')
      else if row_with ir_client (in_client_order_id n) (lg_intents l) \<noteq> None then Inl IntegrityError
      else bindR (insert_row ir_id \<lparr>ir_id = in_id n, ir_client = in_client_order_id n, ir_lifecycle = in_lifecycle_id n,
              ir_side = in_side n, ir_security = security_id (in_instrument n), ir_quantity = in_quantity n,
              ir_price = in_limit_price n, ir_state = ''PENDING_SEND'', ir_reserved = reserved, ir_payload = n,
              ir_created = in_created_at n\<rparr> (lg_intents l))
            (\<lambda>rows. Inr ((), l\<lparr>lg_intents := rows\<rparr>)))"

definition with_state :: "string \<Rightarrow> intent_row \<Rightarrow> intent_row" where
  "with_state s r = r\<lparr>ir_state := s\<rparr>"

definition record_attempt ::
  "instant \<Rightarrow> string \<Rightarrow> string \<Rightarrow> string \<Rightarrow> jrow \<Rightarrow> ledger \<Rightarrow> (unit \<times> ledger) res" where
  "record_attempt now attempt_id intent_id state response l =
     Inr ((), l\<lparr>lg_attempts := upsert_row at_id
             (\<lambda>old r. old\<lparr>at_state := at_state r, at_response := at_response r\<rparr>)
             \<lparr>at_id = attempt_id, at_intent = intent_id, at_sent = now, at_state = state,
              at_response = encode_row response\<rparr> (lg_attempts l),
           lg_intents := update_where (\<lambda>r. ir_id r = intent_id)
             (with_state (if state \<in> {''STARTED'', ''UNKNOWN''} then ''SEND_UNKNOWN'' else ''SENT'')) (lg_intents l)\<rparr>)"

definition reopen_recovery_closed :: "string \<Rightarrow> string \<Rightarrow> ledger \<Rightarrow> ledger" where
  "reopen_recovery_closed intent_id reason l =
     (let closed = (\<lambda>r. ir_id r = intent_id \<and> ir_state r = ''RECOVERY_CLOSED'')
      in if list_ex closed (lg_intents l)
         then l\<lparr>lg_intents := update_where closed (with_state ''SENT'') (lg_intents l),
                lg_incidents := replace_row ic_id \<lparr>ic_id = ''route-reset:'' @ intent_id @ '':reopened'',
                  ic_kind = reason, ic_payload = [(''intent_id'', JStr intent_id)]\<rparr> (lg_incidents l)\<rparr>
         else l)"

definition record_order ::
  "string \<Rightarrow> string \<Rightarrow> string \<Rightarrow> string \<Rightarrow> jrow \<Rightarrow> ledger \<Rightarrow> (unit \<times> ledger) res" where
  "record_order order_id intent_id account state payload l =
     (let encoded = encode_row payload;
          write = Inr ((), reopen_recovery_closed intent_id ''LATE_BROKER_ORDER''
            (l\<lparr>lg_orders := replace_row or_id \<lparr>or_id = order_id, or_intent = intent_id, or_account = account,
                 or_state = state, or_payload = encoded\<rparr> (lg_orders l)\<rparr>))
      in case row_with or_id order_id (lg_orders l) of
           None \<Rightarrow> write
         | Some old \<Rightarrow>
             if or_intent old \<noteq> intent_id \<or> or_account old \<noteq> account
             then Inl (ContractError ''order identity conflict'')
             else if or_state old \<in> set TERMINAL \<and> state \<notin> set TERMINAL then Inr ((), l)
             else if or_state old = state \<and> or_payload old = encoded then Inr ((), l)
             else write)"

section \<open>Fills and charges\<close>

definition filled_quantity :: "string \<Rightarrow> ledger \<Rightarrow> int" where
  "filled_quantity intent_id l = sum_by fr_quantity (filter (\<lambda>f. fr_intent f = intent_id) (lg_fills l))"

text \<open>The row of a known fill, found under its present or its earlier key.\<close>

definition known_fill :: "fill \<Rightarrow> fill_row list \<Rightarrow> fill_row option" where
  "known_fill f rows =
     (case row_with fr_key (PairKey (f_order_id f) (f_trade_id f)) rows of
        Some r \<Rightarrow> Some r
      | None \<Rightarrow> find (\<lambda>r. fr_key r = RawKey (f_trade_id f) \<and> fr_order r = f_order_id f) rows)"

definition correct_fill :: "fill \<Rightarrow> fill_row \<Rightarrow> fill_row" where
  "correct_fill f r = r\<lparr>fr_key := PairKey (f_order_id f) (f_trade_id f), fr_fees := max (fr_fees r) (f_fees f)\<rparr>"

definition record_fill_once :: "fill \<Rightarrow> string \<Rightarrow> ledger \<Rightarrow> (bool \<times> ledger) res" where
  "record_fill_once f intent_id l =
     (case known_fill f (lg_fills l) of
        Some old \<Rightarrow>
          if (fr_order old, fr_security old, fr_quantity old, fr_price old)
             \<noteq> (f_order_id f, f_security_id f, f_quantity f, f_price f)
          then Inl (ContractError ''conflicting duplicate fill'')
          else Inr (False, l\<lparr>lg_fills := update_where (\<lambda>r. fr_key r = fr_key old) (correct_fill f) (lg_fills l)\<rparr>)
      | None \<Rightarrow>
          (case row_with ir_id intent_id (lg_intents l) of
             None \<Rightarrow> Inl (ContractError ''fill exceeds or mismatches intent'')
           | Some row \<Rightarrow>
               if f_security_id f \<noteq> ir_security row \<or> ir_quantity row < filled_quantity intent_id l + f_quantity f
               then Inl (ContractError ''fill exceeds or mismatches intent'')
               else let l = reopen_recovery_closed intent_id ''LATE_BROKER_FILL'' l
                    in Inr (True, l\<lparr>lg_fills := insert_ignore fr_key
                         \<lparr>fr_key = PairKey (f_order_id f) (f_trade_id f), fr_order = f_order_id f,
                          fr_intent = intent_id, fr_security = f_security_id f, fr_quantity = f_quantity f,
                          fr_price = f_price f, fr_fees = f_fees f, fr_occurred = f_occurred_at f\<rparr>
                         (lg_fills l)\<rparr>)))"

definition set_intent_state :: "string \<Rightarrow> string \<Rightarrow> ledger \<Rightarrow> (unit \<times> ledger) res" where
  "set_intent_state intent_id state l =
     Inr ((), l\<lparr>lg_intents := update_where (\<lambda>r. ir_id r = intent_id \<and> ir_state r \<noteq> state)
                  (with_state state) (lg_intents l)\<rparr>)"

definition record_order_charges ::
  "string \<Rightarrow> string \<Rightarrow> decnum \<Rightarrow> bool \<Rightarrow> ledger \<Rightarrow> (unit \<times> ledger) res" where
  "record_order_charges order_id intent_id fees all_components l =
     (case fees of
        NonFinite \<Rightarrow> Inl (ContractError ''invalid historical order charges'')
      | Finite amount \<Rightarrow>
          if amount < 0 then Inl (ContractError ''invalid historical order charges'')
          else let old = row_with ch_order order_id (lg_charges l)
               in if (case row_with or_id order_id (lg_orders l) of None \<Rightarrow> True | Some r \<Rightarrow> or_intent r \<noteq> intent_id)
                     \<or> (case old of None \<Rightarrow> False | Some c \<Rightarrow> ch_intent c \<noteq> intent_id)
                  then Inl (ContractError ''historical charge identity conflict'')
                  else if (case old of None \<Rightarrow> False
                           | Some c \<Rightarrow> amount < ch_fees c \<or> amount = ch_fees c \<and> (ch_complete c \<or> \<not> all_components))
                  then Inr ((), l)
                  else Inr ((), l\<lparr>lg_charges := replace_row ch_order
                         \<lparr>ch_order = order_id, ch_intent = intent_id, ch_fees = amount, ch_complete = all_components\<rparr>
                         (lg_charges l)\<rparr>))"

section \<open>Counters, incidents, observations and metadata\<close>

definition set_counter :: "string \<Rightarrow> decimal \<Rightarrow> ledger \<Rightarrow> (unit \<times> ledger) res" where
  "set_counter name v l = Inr ((), l\<lparr>lg_counters := upsert_row fst (\<lambda>old r. r) (name, v) (lg_counters l)\<rparr>)"

definition counter :: "string \<Rightarrow> ledger \<Rightarrow> decimal" where
  "counter name l = (case row_with fst name (lg_counters l) of None \<Rightarrow> 0 | Some r \<Rightarrow> snd r)"

definition incident :: "string \<Rightarrow> string \<Rightarrow> jrow \<Rightarrow> ledger \<Rightarrow> (unit \<times> ledger) res" where
  "incident incident_id kind payload l =
     Inr ((), l\<lparr>lg_incidents := replace_row ic_id
            \<lparr>ic_id = incident_id, ic_kind = kind, ic_payload = encode_row payload\<rparr> (lg_incidents l)\<rparr>)"

definition recovery_closed_valid :: "ledger \<Rightarrow> intent_row \<Rightarrow> bool" where
  "recovery_closed_valid l row =
     ((ir_state row, ir_lifecycle row, ir_side row) = (''RECOVERY_CLOSED'', ''route-probe'', BUY)
      \<and> list_ex (\<lambda>c. ic_id c = ''route-reset:'' @ ir_id row @ '':complete''
                     \<and> ic_kind c = ''BROKER_ACCOUNT_RESET_CONFIRMED'') (lg_incidents l)
      \<and> \<not> (list_ex (\<lambda>r. or_intent r = ir_id row) (lg_orders l) \<or> list_ex (\<lambda>f. fr_intent f = ir_id row) (lg_fills l)))"

definition pending_intents :: "ledger \<Rightarrow> intent_row list" where
  "pending_intents l =
     filter (\<lambda>r. \<not> recovery_closed_valid l r)
       (sort_key ir_created (filter (\<lambda>r. ir_state r \<notin> set TERMINAL_INTENT) (lg_intents l)))"

definition observe :: "string \<Rightarrow> string \<Rightarrow> ledger \<Rightarrow> (unit \<times> ledger) res" where
  "observe identity kind l = Inr ((), l\<lparr>lg_observations := insert_ignore fst (identity, kind) (lg_observations l)\<rparr>)"

definition observe_batch :: "(string \<times> string) list \<Rightarrow> ledger \<Rightarrow> (unit \<times> ledger) res" where
  "observe_batch items l = Inr ((), l\<lparr>lg_observations := fold (insert_ignore fst) items (lg_observations l)\<rparr>)"

definition metadata :: "string \<Rightarrow> ledger \<Rightarrow> meta option" where
  "metadata k l = map_option snd (row_with fst k (lg_metadata l))"

definition put_metadata :: "string \<Rightarrow> meta \<Rightarrow> ledger \<Rightarrow> (unit \<times> ledger) res" where
  "put_metadata k v l = Inr ((), l\<lparr>lg_metadata := upsert_row fst (\<lambda>old r. r) (k, v) (lg_metadata l)\<rparr>)"

definition metadata_row :: "string \<Rightarrow> ledger \<Rightarrow> jrow" where
  "metadata_row k l = (case metadata k l of Some (MRow r) \<Rightarrow> r | _ \<Rightarrow> [])"

definition metadata_flag :: "string \<Rightarrow> ledger \<Rightarrow> bool" where
  "metadata_flag k l = (case metadata k l of Some (MFlag b) \<Rightarrow> b | Some (MRow r) \<Rightarrow> r \<noteq> [] | Some m \<Rightarrow> True | None \<Rightarrow> False)"

section \<open>Totals of a lifecycle\<close>

record totals =
  entry_debit_total :: decimal
  sale_credit :: decimal
  held :: int
  reserved_total :: decimal
  unresolved :: bool

definition fills_of :: "ledger \<Rightarrow> string \<Rightarrow> fill_row list" where
  "fills_of l intent_id = filter (\<lambda>f. fr_intent f = intent_id) (lg_fills l)"

definition turnover_of :: "fill_row list \<Rightarrow> decimal" where
  "turnover_of fs = sum_by (\<lambda>f. fr_price f * of_int (fr_quantity f)) fs"

definition reported_fees :: "ledger \<Rightarrow> string \<Rightarrow> decimal" where
  "reported_fees l intent_id =
     max (sum_by fr_fees (fills_of l intent_id))
         (sum_by ch_fees (filter (\<lambda>c. ch_intent c = intent_id) (lg_charges l)))"

definition intent_cost :: "ledger \<Rightarrow> intent_row \<Rightarrow> decimal res" where
  "intent_cost l row =
     (let fs = fills_of l (ir_id row)
      in if sum_by fr_quantity fs = 0 then Inr 0
         else bindR ((if ir_side row = BUY then fee_buy else fee_sell) default_fees (turnover_of fs) 1)
                (\<lambda>c. Inr (max (reported_fees l (ir_id row)) (ceil_paise c))))"

definition intent_terminal :: "ledger \<Rightarrow> intent_row \<Rightarrow> bool" where
  "intent_terminal l row = (ir_state row \<in> set TERMINAL_INTENT \<or> recovery_closed_valid l row)"

definition add_intent :: "ledger \<Rightarrow> intent_row \<Rightarrow> totals \<Rightarrow> totals res" where
  "add_intent l row t =
     bindR (intent_cost l row) (\<lambda>cost.
       let turnover = turnover_of (fills_of l (ir_id row));
           qty = sum_by fr_quantity (fills_of l (ir_id row));
           terminal = intent_terminal l row;
           t = t\<lparr>unresolved := unresolved t \<or> \<not> terminal\<rparr>
       in Inr (if ir_side row = BUY
               then t\<lparr>entry_debit_total := entry_debit_total t + (turnover + cost), held := held t + qty,
                      reserved_total := (if terminal then reserved_total t
                        else reserved_total t + max 0 (ir_reserved row - turnover - cost))\<rparr>
               else t\<lparr>sale_credit := sale_credit t + (turnover - cost), held := held t - qty\<rparr>))"

definition lifecycle_totals :: "string \<Rightarrow> ledger \<Rightarrow> totals res" where
  "lifecycle_totals lifecycle_id l =
     bindR (foldR (add_intent l) (filter (\<lambda>r. ir_lifecycle r = lifecycle_id) (lg_intents l))
              \<lparr>entry_debit_total = 0, sale_credit = 0, held = 0, reserved_total = 0, unresolved = False\<rparr>) (\<lambda>t.
       if held t < 0 then Inl (ContractError ''ledger contains a net short position'')
       else let settled = filter (\<lambda>s. sl_lifecycle s = lifecycle_id) (lg_settlements l);
                t = t\<lparr>held := held t - sum_by sl_quantity settled,
                      sale_credit := sale_credit t + sum_by sl_credit settled\<rparr>
            in if held t < 0 then Inl (ContractError ''settlement exceeds managed quantity'') else Inr t)"

definition fills_for :: "string \<Rightarrow> ledger \<Rightarrow> fill_row list" where
  "fills_for lifecycle_id l =
     sort_key fr_occurred (filter (\<lambda>f. list_ex (\<lambda>r. ir_id r = fr_intent f \<and> ir_lifecycle r = lifecycle_id) (lg_intents l))
       (lg_fills l))"

section \<open>The ledger as a transition system\<close>

text \<open>
  One committed transaction. The callers build intents and fills through their
  checking constructors. \<open>bookkeeping\<close> stands for the writes of other components
  to tables that hold no order.
\<close>

inductive ledger_step :: "ledger \<Rightarrow> ledger \<Rightarrow> bool" where
  mandate: "put_mandate m l = Inr (u, l') \<Longrightarrow> ledger_step l l'"
| reference: "freeze_reference sid r l = Inr (u, l') \<Longrightarrow> ledger_step l l'"
| intent: "check_intent n = Inr n \<Longrightarrow> create_intent n reserved l = Inr (u, l') \<Longrightarrow> ledger_step l l'"
| attempt: "record_attempt now aid iid st resp l = Inr (u, l') \<Longrightarrow> ledger_step l l'"
| order: "record_order oid iid acc st payload l = Inr (u, l') \<Longrightarrow> ledger_step l l'"
| fill: "check_fill f = Inr f \<Longrightarrow> record_fill_once f iid l = Inr (b, l') \<Longrightarrow> ledger_step l l'"
| state: "set_intent_state iid st l = Inr (u, l') \<Longrightarrow> ledger_step l l'"
| charges: "record_order_charges oid iid fees c l = Inr (u, l') \<Longrightarrow> ledger_step l l'"
| counter: "set_counter name v l = Inr (u, l') \<Longrightarrow> ledger_step l l'"
| incident: "incident cid kind payload l = Inr (u, l') \<Longrightarrow> ledger_step l l'"
| observe: "observe_batch items l = Inr (u, l') \<Longrightarrow> ledger_step l l'"
| metadata: "put_metadata k v l = Inr (u, l') \<Longrightarrow> ledger_step l l'"
| bookkeeping: "ledger_step l (l\<lparr>lg_rate_events := es, lg_lifecycles := cs, lg_consumed := bs, lg_depth_debits := ds,
    lg_postings := ps, lg_settlements := ss\<rparr>)"

inductive_cases ledger_stepE: "ledger_step l l'"

definition reachable_ledger :: "ledger \<Rightarrow> bool" where
  "reachable_ledger l = ledger_step\<^sup>*\<^sup>* empty_ledger l"

section \<open>What each write leaves alone\<close>

definition core :: "intent_row \<Rightarrow> intent_row" where
  "core r = r\<lparr>ir_state := []\<rparr>"

lemma core_simps [simp]:
  "ir_id (core r) = ir_id r" "ir_client (core r) = ir_client r" "ir_security (core r) = ir_security r"
  "ir_quantity (core r) = ir_quantity r" "ir_reserved (core r) = ir_reserved r" "ir_side (core r) = ir_side r"
  "ir_price (core r) = ir_price r" "ir_lifecycle (core r) = ir_lifecycle r" "ir_created (core r) = ir_created r"
  by (simp_all add: core_def)

lemma core_with_state [simp]: "core (with_state s r) = core r"
  by (simp add: core_def with_state_def)

lemma with_state_simps [simp]:
  "ir_id (with_state s r) = ir_id r" "ir_state (with_state s r) = s" "ir_client (with_state s r) = ir_client r"
  "ir_quantity (with_state s r) = ir_quantity r" "ir_side (with_state s r) = ir_side r"
  "ir_security (with_state s r) = ir_security r" "ir_reserved (with_state s r) = ir_reserved r"
  "ir_lifecycle (with_state s r) = ir_lifecycle r" "ir_price (with_state s r) = ir_price r"
  "ir_created (with_state s r) = ir_created r" "ir_payload (with_state s r) = ir_payload r"
  by (simp_all add: with_state_def)

lemma map_core_update [simp]: "map core (update_where p (with_state s) rows) = map core rows"
  by (rule map_update_where) simp

lemma reopen_unchanged [simp]:
  "lg_fills (reopen_recovery_closed i r l) = lg_fills l" "lg_orders (reopen_recovery_closed i r l) = lg_orders l"
  "lg_charges (reopen_recovery_closed i r l) = lg_charges l"
  "lg_references (reopen_recovery_closed i r l) = lg_references l"
  "lg_metadata (reopen_recovery_closed i r l) = lg_metadata l"
  "lg_counters (reopen_recovery_closed i r l) = lg_counters l"
  "lg_attempts (reopen_recovery_closed i r l) = lg_attempts l"
  "lg_lifecycles (reopen_recovery_closed i r l) = lg_lifecycles l"
  "lg_settlements (reopen_recovery_closed i r l) = lg_settlements l"
  "map core (lg_intents (reopen_recovery_closed i r l)) = map core (lg_intents l)"
  by (simp_all add: reopen_recovery_closed_def Let_def)

lemma filled_quantity_reopen [simp]: "filled_quantity j (reopen_recovery_closed i r l) = filled_quantity j l"
  by (simp add: filled_quantity_def)

section \<open>The well-formed ledger\<close>

definition intents_wf :: "intent_row list \<Rightarrow> bool" where
  "intents_wf rows = (distinct (map ir_id (map core rows)) \<and> distinct (map ir_client (map core rows))
     \<and> (\<forall>r \<in> set (map core rows). 0 < ir_quantity r \<and> 0 < ir_price r \<and> 0 \<le> ir_reserved r
          \<and> (ir_side r = BUY \<longrightarrow> 0 < ir_reserved r)))"

definition fills_wf :: "intent_row list \<Rightarrow> fill_row list \<Rightarrow> bool" where
  "fills_wf rows fs = (distinct (map fr_key fs)
     \<and> (\<forall>f \<in> set fs. 0 < fr_quantity f \<and> 0 < fr_price f \<and> 0 \<le> fr_fees f
          \<and> (\<exists>r \<in> set (map core rows). ir_id r = fr_intent f \<and> ir_security r = fr_security f))
     \<and> (\<forall>r \<in> set (map core rows). sum_by fr_quantity (filter (\<lambda>f. fr_intent f = ir_id r) fs) \<le> ir_quantity r))"

definition orders_wf :: "order_row list \<Rightarrow> charge_row list \<Rightarrow> bool" where
  "orders_wf os cs = (distinct (map or_id os) \<and> distinct (map ch_order cs) \<and> (\<forall>c \<in> set cs. 0 \<le> ch_fees c))"

definition wf_ledger :: "ledger \<Rightarrow> bool" where
  "wf_ledger l = (intents_wf (lg_intents l) \<and> fills_wf (lg_intents l) (lg_fills l) \<and> orders_wf (lg_orders l) (lg_charges l))"

lemma intents_wf_core: "map core rows = map core rows' \<Longrightarrow> intents_wf rows = intents_wf rows'"
  by (simp only: intents_wf_def)

lemma fills_wf_core: "map core rows = map core rows' \<Longrightarrow> fills_wf rows fs = fills_wf rows' fs"
  by (simp only: fills_wf_def)

lemma intents_wf_reopen [simp]: "intents_wf (lg_intents (reopen_recovery_closed i r l)) = intents_wf (lg_intents l)"
  by (rule intents_wf_core) simp

lemma fills_wf_reopen [simp]: "fills_wf (lg_intents (reopen_recovery_closed i r l)) fs = fills_wf (lg_intents l) fs"
  by (rule fills_wf_core) simp

lemma intents_wf_update [simp]: "intents_wf (update_where p (with_state st) rows) = intents_wf rows"
  by (rule intents_wf_core) simp

lemma fills_wf_update [simp]: "fills_wf (update_where p (with_state st) rows) fs = fills_wf rows fs"
  by (rule fills_wf_core) simp

lemma fill_has_intent: "fills_wf rows fs \<Longrightarrow> f \<in> set fs \<Longrightarrow> fr_intent f \<in> ir_id ` set rows"
  unfolding fills_wf_def by (metis (no_types, lifting) core_simps(1) image_eqI list.set_map imageE)

lemma wf_same [wf_intros]:
  assumes "wf_ledger l" "map core (lg_intents l') = map core (lg_intents l)" "lg_fills l' = lg_fills l"
    "orders_wf (lg_orders l') (lg_charges l')"
  shows "wf_ledger l'"
  using assms intents_wf_core [OF assms(2)] fills_wf_core [OF assms(2)] by (simp add: wf_ledger_def)

lemma wf_empty: "wf_ledger empty_ledger"
  by (simp add: wf_ledger_def empty_ledger_def intents_wf_def fills_wf_def orders_wf_def)

lemma wf_create_intent:
  assumes wf: "wf_ledger l" and n: "check_intent n = Inr n" and run: "create_intent n reserved l = Inr (u, l')"
  shows "wf_ledger l'"
proof -
  from run obtain rows where rows: "insert_row ir_id \<lparr>ir_id = in_id n, ir_client = in_client_order_id n,
        ir_lifecycle = in_lifecycle_id n, ir_side = in_side n, ir_security = security_id (in_instrument n),
        ir_quantity = in_quantity n, ir_price = in_limit_price n, ir_state = ''PENDING_SEND'', ir_reserved = reserved,
        ir_payload = n, ir_created = in_created_at n\<rparr> (lg_intents l) = Inr rows"
      and l': "l' = l\<lparr>lg_intents := rows\<rparr>"
      and res: "0 \<le> reserved" "in_side n = BUY \<Longrightarrow> reserved \<noteq> 0"
      and client: "row_with ir_client (in_client_order_id n) (lg_intents l) = None"
    by (auto simp: create_intent_def bindR_Inr_iff split: if_splits)
  define r where "r = \<lparr>ir_id = in_id n, ir_client = in_client_order_id n,
        ir_lifecycle = in_lifecycle_id n, ir_side = in_side n, ir_security = security_id (in_instrument n),
        ir_quantity = in_quantity n, ir_price = in_limit_price n, ir_state = ''PENDING_SEND'', ir_reserved = reserved,
        ir_payload = n, ir_created = in_created_at n\<rparr>"
  from rows have rows': "rows = lg_intents l @ [r]" and new: "ir_id r \<notin> ir_id ` set (lg_intents l)"
    by (auto simp: insert_row_def r_def row_with_None split: if_splits)
  have q: "0 < ir_quantity r" "0 < ir_price r" "0 \<le> ir_reserved r" "ir_side r = BUY \<longrightarrow> 0 < ir_reserved r"
    using n res by (auto simp: r_def check_intent_Inr)
  have "ir_client r \<notin> ir_client ` set (lg_intents l)"
    using client by (simp add: row_with_None r_def)
  then have "intents_wf rows"
    using wf new q by (auto simp: wf_ledger_def intents_wf_def rows' o_def image_iff)
  moreover have "fills_wf rows (lg_fills l)"
  proof -
    have "fr_intent f \<noteq> ir_id r" if "f \<in> set (lg_fills l)" for f
      using wf new fill_has_intent [OF _ that] by (auto simp: wf_ledger_def)
    then have "filter (\<lambda>f. fr_intent f = ir_id r) (lg_fills l) = []" by (simp add: filter_empty_conv)
    with wf q show ?thesis by (auto simp: wf_ledger_def fills_wf_def rows')
  qed
  ultimately show ?thesis using wf by (simp add: wf_ledger_def l')
qed

lemma known_fill_SomeD:
  assumes "known_fill f rows = Some old"
  shows "old \<in> set rows" "fr_key old = PairKey (f_order_id f) (f_trade_id f) \<or> fr_key old = RawKey (f_trade_id f)"
    "fr_key old = PairKey (f_order_id f) (f_trade_id f)
     \<or> PairKey (f_order_id f) (f_trade_id f) \<notin> fr_key ` set rows"
  using assms by (auto simp: known_fill_def row_with_None dest: row_with_SomeD find_SomeD split: option.splits)

lemma correct_fill_simps [simp]:
  "fr_quantity (correct_fill f r) = fr_quantity r" "fr_price (correct_fill f r) = fr_price r"
  "fr_intent (correct_fill f r) = fr_intent r" "fr_security (correct_fill f r) = fr_security r"
  "fr_key (correct_fill f r) = PairKey (f_order_id f) (f_trade_id f)" "fr_order (correct_fill f r) = fr_order r"
  "fr_fees (correct_fill f r) = max (fr_fees r) (f_fees f)" "fr_occurred (correct_fill f r) = fr_occurred r"
  by (simp_all add: correct_fill_def)

lemma distinct_correct:
  assumes "distinct (map fr_key rows)" "known_fill f rows = Some old"
  shows "distinct (map fr_key (update_where (\<lambda>r. fr_key r = fr_key old) (correct_fill f) rows))"
proof -
  let ?k = "PairKey (f_order_id f) (f_trade_id f)"
  have "map fr_key (update_where (\<lambda>r. fr_key r = fr_key old) (correct_fill f) rows)
      = map (\<lambda>k. if k = fr_key old then ?k else k) (map fr_key rows)"
    by (simp add: update_where_def)
  moreover have "inj_on (\<lambda>k. if k = fr_key old then ?k else k) (set (map fr_key rows))"
    using known_fill_SomeD(3) [OF assms(2)] by (force simp: inj_on_def)
  ultimately show ?thesis using assms(1) by (simp only: distinct_map)
qed

lemma wf_fills_correct:
  assumes "fills_wf rows fs" "known_fill f fs = Some old"
  shows "fills_wf rows (update_where (\<lambda>r. fr_key r = fr_key old) (correct_fill f) fs)"
proof -
  let ?upd = "update_where (\<lambda>r. fr_key r = fr_key old) (correct_fill f)"
  have "filter (\<lambda>x. fr_intent x = i) (?upd fs) = ?upd (filter (\<lambda>x. fr_intent x = i) fs)" for i
    by (rule filter_update_where) simp
  moreover have "sum_by fr_quantity (?upd xs) = sum_by fr_quantity xs" for xs
    by (rule sum_by_update_where) simp
  ultimately show ?thesis
    using assms(1) distinct_correct [OF _ assms(2)] by (auto simp: fills_wf_def set_update_where)
qed

lemma wf_record_fill:
  assumes wf: "wf_ledger l" and f: "check_fill f = Inr f" and run: "record_fill_once f iid l = Inr (b, l')"
  shows "wf_ledger l'"
proof (cases "known_fill f (lg_fills l)")
  case (Some old)
  with run have "l' = l\<lparr>lg_fills := update_where (\<lambda>r. fr_key r = fr_key old) (correct_fill f) (lg_fills l)\<rparr>"
    by (auto simp: record_fill_once_def split: if_splits)
  with wf wf_fills_correct [OF _ Some] show ?thesis by (simp add: wf_ledger_def)
next
  case None
  define r where "r = \<lparr>fr_key = PairKey (f_order_id f) (f_trade_id f), fr_order = f_order_id f, fr_intent = iid,
     fr_security = f_security_id f, fr_quantity = f_quantity f, fr_price = f_price f, fr_fees = f_fees f,
     fr_occurred = f_occurred_at f\<rparr>"
  let ?l = "reopen_recovery_closed iid ''LATE_BROKER_FILL'' l"
  from run None obtain row where row: "row_with ir_id iid (lg_intents l) = Some row"
      "f_security_id f = ir_security row" "filled_quantity iid l + f_quantity f \<le> ir_quantity row"
      and l': "l' = ?l\<lparr>lg_fills := insert_ignore fr_key r (lg_fills l)\<rparr>"
    by (auto simp: record_fill_once_def Let_def r_def split: option.splits if_splits)
  have new: "row_with fr_key (fr_key r) (lg_fills l) = None"
    using None by (auto simp: known_fill_def r_def split: option.splits)
  have row_in: "row \<in> set (lg_intents l)" "ir_id row = iid" using row_with_SomeD [OF row(1)] by simp_all
  have ids: "distinct (map ir_id (lg_intents l))" using wf by (simp add: wf_ledger_def intents_wf_def o_def)
  have only: "ir_quantity x = ir_quantity row" if "x \<in> set (lg_intents l)" "ir_id x = iid" for x
    using row_with_in [OF ids that(1)] that(2) row(1) by simp
  have pos: "0 < fr_quantity r" "0 < fr_price r" "0 \<le> fr_fees r"
    using f by (auto simp: r_def check_fill_def split: if_splits)
  have fills: "lg_fills l' = lg_fills l @ [r]" using new by (simp add: l' insert_ignore_def)
  have link: "fr_intent r = iid" "fr_security r = ir_security row" "fr_quantity r = f_quantity f"
    using row(2) by (simp_all add: r_def)
  have old: "fills_wf (lg_intents l) (lg_fills l)" using wf by (simp add: wf_ledger_def)
  have "fills_wf (lg_intents l) (lg_fills l @ [r])"
    unfolding fills_wf_def
  proof (intro conjI ballI)
    show "distinct (map fr_key (lg_fills l @ [r]))" using old new by (simp add: fills_wf_def row_with_None)
  next
    fix g assume g: "g \<in> set (lg_fills l @ [r])"
    have "core row \<in> set (map core (lg_intents l))" using row_in(1) by simp
    then have "\<exists>x \<in> set (map core (lg_intents l)). ir_id x = fr_intent r \<and> ir_security x = fr_security r"
      using link row_in(2) by (intro bexI [of _ "core row"]) simp_all
    then show "\<exists>x \<in> set (map core (lg_intents l)). ir_id x = fr_intent g \<and> ir_security x = fr_security g"
      using g old by (auto simp: fills_wf_def)
    show "0 < fr_quantity g" "0 < fr_price g" "0 \<le> fr_fees g" using g old pos by (auto simp: fills_wf_def)
  next
    fix x assume x: "x \<in> set (map core (lg_intents l))"
    then obtain y where y: "y \<in> set (lg_intents l)" "x = core y" by auto
    have "sum_by fr_quantity (filter (\<lambda>f. fr_intent f = ir_id x) (lg_fills l)) \<le> ir_quantity x"
      using old x unfolding fills_wf_def by blast
    then show "sum_by fr_quantity (filter (\<lambda>f. fr_intent f = ir_id x) (lg_fills l @ [r])) \<le> ir_quantity x"
      using only [OF y(1)] row(3) link y(2) by (cases "ir_id y = iid") (simp_all add: filled_quantity_def)
  qed
  then have "fills_wf (lg_intents l) (lg_fills l')" by (simp only: fills)
  then have "fills_wf (lg_intents l') (lg_fills l')"
    using fills_wf_core [of "lg_intents l'" "lg_intents l"] by (simp add: l')
  moreover have "intents_wf (lg_intents l')"
    using wf intents_wf_core [of "lg_intents l'" "lg_intents l"] by (simp add: l' wf_ledger_def)
  ultimately show ?thesis using wf by (simp add: wf_ledger_def l')
qed

lemma orders_wf_record_order:
  "orders_wf (lg_orders l) (lg_charges l) \<Longrightarrow> record_order oid iid acc st payload l = Inr (u, l')
   \<Longrightarrow> orders_wf (lg_orders l') (lg_charges l')"
  by (auto simp: record_order_def Let_def orders_wf_def intro: distinct_replace_row split: option.splits if_splits)

lemma same_record_order:
  "record_order oid iid acc st payload l = Inr (u, l')
   \<Longrightarrow> map core (lg_intents l') = map core (lg_intents l) \<and> lg_fills l' = lg_fills l"
  by (auto simp: record_order_def Let_def split: option.splits if_splits)

lemma orders_wf_charges:
  "orders_wf (lg_orders l) (lg_charges l) \<Longrightarrow> record_order_charges oid iid fees c l = Inr (u, l')
   \<Longrightarrow> orders_wf (lg_orders l') (lg_charges l')"
  by (auto simp: record_order_charges_def Let_def orders_wf_def replace_row_def distinct_map_filter
      split: decnum.splits option.splits if_splits)

lemma same_charges:
  "record_order_charges oid iid fees c l = Inr (u, l')
   \<Longrightarrow> lg_intents l' = lg_intents l \<and> lg_fills l' = lg_fills l"
  by (auto simp: record_order_charges_def Let_def split: decnum.splits option.splits if_splits)

lemmas plain_write_defs = put_mandate_def freeze_reference_def record_attempt_def set_intent_state_def
  set_counter_def incident_def observe_batch_def put_metadata_def bindR_Inr_iff

lemma ledger_step_wf: "ledger_step l l' \<Longrightarrow> wf_ledger l \<Longrightarrow> wf_ledger l'"
proof (induction rule: ledger_step.induct)
  case (order oid iid acc st payload l u l')
  then show ?case
    using same_record_order [OF order(1)] orders_wf_record_order [OF _ order(1)] wf_same [of l l']
    by (simp add: wf_ledger_def)
next
  case (charges oid iid fees c l u l')
  then show ?case
    using same_charges [OF charges(1)] orders_wf_charges [OF _ charges(1)] wf_same [of l l']
    by (simp add: wf_ledger_def)
next
  case (intent n reserved l u l')
  then show ?case using wf_create_intent by blast
next
  case (fill f iid l b l')
  then show ?case using wf_record_fill by blast
qed (auto simp: plain_write_defs wf_ledger_def split: option.splits if_splits)

lemma reachable_wf: "reachable_ledger l \<Longrightarrow> wf_ledger l"
  unfolding reachable_ledger_def
  by (induction rule: rtranclp_induct) (auto intro: wf_empty ledger_step_wf)

section \<open>Durability\<close>

text \<open>
  What no transaction may undo: a frozen reference, the identity of an order and
  that it has ended, a charge once reported, the economics of an intent and of a
  fill.
\<close>

definition fill_extends :: "fill_row \<Rightarrow> fill_row \<Rightarrow> bool" where
  "fill_extends f g = (fr_order g = fr_order f \<and> fr_intent g = fr_intent f \<and> fr_security g = fr_security f
     \<and> fr_quantity g = fr_quantity f \<and> fr_price g = fr_price f \<and> fr_fees f \<le> fr_fees g)"

definition order_extends :: "order_row \<Rightarrow> order_row \<Rightarrow> bool" where
  "order_extends a b = (or_intent b = or_intent a \<and> or_account b = or_account a
     \<and> (or_state a \<in> set TERMINAL \<longrightarrow> or_state b \<in> set TERMINAL))"

definition charge_extends :: "charge_row \<Rightarrow> charge_row \<Rightarrow> bool" where
  "charge_extends a b = (ch_intent b = ch_intent a \<and> ch_fees a \<le> ch_fees b)"

definition rows_extend :: "('r \<Rightarrow> 'k) \<Rightarrow> ('r \<Rightarrow> 'r \<Rightarrow> bool) \<Rightarrow> 'r list \<Rightarrow> 'r list \<Rightarrow> bool" where
  "rows_extend key le xs ys = (\<forall>k r. row_with key k xs = Some r \<longrightarrow> (\<exists>r'. row_with key k ys = Some r' \<and> le r r'))"

definition fills_extend :: "fill_row list \<Rightarrow> fill_row list \<Rightarrow> bool" where
  "fills_extend xs ys = (\<forall>f \<in> set xs. \<exists>g \<in> set ys. fill_extends f g)"

definition extends :: "ledger \<Rightarrow> ledger \<Rightarrow> bool" where
  "extends l l' = (rows_extend fst (=) (lg_references l) (lg_references l')
     \<and> rows_extend or_id order_extends (lg_orders l) (lg_orders l')
     \<and> rows_extend ch_order charge_extends (lg_charges l) (lg_charges l')
     \<and> prefix (map core (lg_intents l)) (map core (lg_intents l'))
     \<and> fills_extend (lg_fills l) (lg_fills l'))"

lemma rows_extend_refl [simp]: "(\<And>r. le r r) \<Longrightarrow> rows_extend key le xs xs"
  by (simp add: rows_extend_def)

lemma rows_extend_trans:
  "rows_extend key le xs ys \<Longrightarrow> rows_extend key le ys zs \<Longrightarrow> (\<And>a b c. le a b \<Longrightarrow> le b c \<Longrightarrow> le a c)
   \<Longrightarrow> rows_extend key le xs zs"
  unfolding rows_extend_def by meson

lemma extends_refls [simp]: "fill_extends f f" "order_extends a a" "charge_extends c c" "fills_extend fs fs"
  by (auto simp: fill_extends_def order_extends_def charge_extends_def fills_extend_def)

lemma extends_transs:
  "fill_extends f g \<Longrightarrow> fill_extends g h \<Longrightarrow> fill_extends f h"
  "order_extends a b \<Longrightarrow> order_extends b c \<Longrightarrow> order_extends a c"
  "charge_extends p q \<Longrightarrow> charge_extends q r \<Longrightarrow> charge_extends p r"
  by (auto simp: fill_extends_def order_extends_def charge_extends_def)

lemma fills_extend_trans: "fills_extend xs ys \<Longrightarrow> fills_extend ys zs \<Longrightarrow> fills_extend xs zs"
  unfolding fills_extend_def using extends_transs(1) by meson

lemma extends_refl [simp]: "extends l l"
  by (simp add: extends_def)

lemma extends_trans: "extends a b \<Longrightarrow> extends b c \<Longrightarrow> extends a c"
  unfolding extends_def
  using rows_extend_trans extends_transs fills_extend_trans prefix_order.trans by (smt (verit))

lemma rows_extend_replace:
  "(\<And>old. row_with key (key r) rows = Some old \<Longrightarrow> le old r) \<Longrightarrow> (\<And>x. le x x)
   \<Longrightarrow> rows_extend key le rows (replace_row key r rows)"
  by (auto simp: rows_extend_def replace_row_def row_with_append row_with_filter_key)

lemma extends_record_order: "record_order oid iid acc st payload l = Inr (u, l') \<Longrightarrow> extends l l'"
  by (auto simp: record_order_def Let_def extends_def order_extends_def intro!: rows_extend_replace
      split: option.splits if_splits)

lemma extends_charges: "record_order_charges oid iid fees c l = Inr (u, l') \<Longrightarrow> extends l l'"
  by (auto simp: record_order_charges_def Let_def extends_def charge_extends_def intro!: rows_extend_replace
      split: decnum.splits option.splits if_splits)

lemma extends_fill: "record_fill_once f iid l = Inr (b, l') \<Longrightarrow> extends l l'"
proof (cases "known_fill f (lg_fills l)")
  case (Some old)
  assume "record_fill_once f iid l = Inr (b, l')"
  with Some have "l' = l\<lparr>lg_fills := update_where (\<lambda>r. fr_key r = fr_key old) (correct_fill f) (lg_fills l)\<rparr>"
    by (auto simp: record_fill_once_def split: if_splits)
  moreover have "fills_extend (lg_fills l) (update_where (\<lambda>r. fr_key r = fr_key old) (correct_fill f) (lg_fills l))"
    unfolding fills_extend_def
  proof
    fix g assume "g \<in> set (lg_fills l)"
    then show "\<exists>h \<in> set (update_where (\<lambda>r. fr_key r = fr_key old) (correct_fill f) (lg_fills l)). fill_extends g h"
      by (intro bexI [of _ "if fr_key g = fr_key old then correct_fill f g else g"])
         (simp_all add: fill_extends_def set_update_where)
  qed
  ultimately show ?thesis by (simp add: extends_def)
next
  case None
  assume "record_fill_once f iid l = Inr (b, l')"
  with None show ?thesis
    by (auto simp: record_fill_once_def Let_def extends_def fills_extend_def insert_ignore_def
        split: option.splits if_splits intro!: extends_refls)
qed

lemma extends_create: "create_intent n reserved l = Inr (u, l') \<Longrightarrow> extends l l'"
  by (auto simp: create_intent_def bindR_Inr_iff insert_row_def extends_def split: if_splits)

lemma extends_reference: "freeze_reference sid r l = Inr (u, l') \<Longrightarrow> extends l l'"
  by (auto simp: freeze_reference_def extends_def rows_extend_def insert_ignore_def row_with_append
      split: option.splits if_splits)

lemma ledger_step_extends: "ledger_step l l' \<Longrightarrow> extends l l'"
proof (induction rule: ledger_step.induct)
  case (reference sid r l u l') then show ?case by (rule extends_reference)
next
  case (intent n reserved l u l') then show ?case by (blast intro: extends_create)
next
  case (order oid iid acc st payload l u l') then show ?case by (rule extends_record_order)
next
  case (charges oid iid fees c l u l') then show ?case by (rule extends_charges)
next
  case (fill f iid l b l') then show ?case by (blast intro: extends_fill)
qed (auto simp: plain_write_defs extends_def)

section \<open>Totals\<close>

definition paise_multiple :: "decimal \<Rightarrow> bool" where
  "paise_multiple x = (\<exists>k :: int. x = of_int k * PAISE)"

lemma paise_multiple_add: "paise_multiple x \<Longrightarrow> paise_multiple y \<Longrightarrow> paise_multiple (x + y)"
  unfolding paise_multiple_def by (metis distrib_right of_int_add)

lemma paise_multiple_int: "paise_multiple (of_int n)"
  unfolding paise_multiple_def by (intro exI [of _ "n * 100"]) (simp add: PAISE_def)

lemma paise_multiple_upper: "paise_multiple (upper_amount v PAISE c)"
  unfolding paise_multiple_def
  by (intro exI [of _ "\<lceil>v / PAISE\<rceil> + (c - 1)"]) (simp add: upper_amount_def quantize_ceiling_def algebra_simps)

lemma paise_multiple_upper1: "paise_multiple (upper_amount v 1 c)"
  using paise_multiple_int [of "\<lceil>v\<rceil> + (c - 1)"] by (simp add: upper_amount_def quantize_ceiling_def)

lemma paise_multiple_ceil: "paise_multiple x \<Longrightarrow> ceil_paise x = x"
  by (auto simp: paise_multiple_def ceil_paise_def quantize_ceiling_def)

lemma paise_multiple_common: "paise_multiple (common_amount default_fees t c)"
proof -
  have "paise_multiple (of_int (20 * c))" by (rule paise_multiple_int)
  then have "paise_multiple (brokerage_per_child default_fees * of_int c)" by (simp add: default_fees_def)
  then show ?thesis
    unfolding common_amount_def base_amount_def by (intro paise_multiple_add paise_multiple_upper)
qed

lemma paise_multiple_fees:
  "paise_multiple (buy_amount default_fees t c)" "paise_multiple (sell_amount default_fees t c)"
  unfolding buy_amount_def sell_amount_def
  by (intro paise_multiple_add paise_multiple_common paise_multiple_upper1)+

text \<open>What an intent's fills cost, and the schedule's share of it.\<close>

definition fees_on :: "side \<Rightarrow> decimal \<Rightarrow> decimal" where
  "fees_on s t = (if s = BUY then buy_amount default_fees t 1 else sell_amount default_fees t 1)"

definition cost_of :: "ledger \<Rightarrow> intent_row \<Rightarrow> decimal" where
  "cost_of l row = (if sum_by fr_quantity (fills_of l (ir_id row)) = 0 then 0
     else max (reported_fees l (ir_id row)) (fees_on (ir_side row) (turnover_of (fills_of l (ir_id row)))))"

text \<open>The recorded fills of a lifecycle on one side, and the intents of that side.\<close>

definition fills_on :: "ledger \<Rightarrow> side \<Rightarrow> string \<Rightarrow> fill_row list" where
  "fills_on l s k = filter (\<lambda>f. list_ex (\<lambda>r. ir_id r = fr_intent f) (filter (\<lambda>r. ir_lifecycle r = k \<and> ir_side r = s) (lg_intents l)))
     (lg_fills l)"

definition intents_on :: "ledger \<Rightarrow> side \<Rightarrow> string \<Rightarrow> intent_row list" where
  "intents_on l s k = filter (\<lambda>r. ir_lifecycle r = k \<and> ir_side r = s) (lg_intents l)"

definition fill_amount :: "ledger \<Rightarrow> side \<Rightarrow> string \<Rightarrow> int" where
  "fill_amount l s k = sum_by fr_quantity (fills_on l s k)"

lemma sum_by_disjoint:
  "(\<And>x. P x \<Longrightarrow> \<not> Q x) \<Longrightarrow> sum_by g (filter (\<lambda>x. P x \<or> Q x) xs) = sum_by g (filter P xs) + (sum_by g (filter Q xs) :: 'a :: comm_monoid_add)"
  by (induction xs) (auto simp: ac_simps)

text \<open>Summing over the intents sums over the fills: no intent's identity occurs twice.\<close>

lemma sum_by_fills:
  assumes "distinct (map ir_id rows)"
  shows "sum_by (\<lambda>r. sum_by g (fills_of l (ir_id r))) rows
    = (sum_by g (filter (\<lambda>f. list_ex (\<lambda>r. ir_id r = fr_intent f) rows) (lg_fills l)) :: 'a :: comm_monoid_add)"
  using assms
proof (induction rows)
  case (Cons r rows)
  have "sum_by g (filter (\<lambda>f. fr_intent f = ir_id r \<or> list_ex (\<lambda>r. ir_id r = fr_intent f) rows) (lg_fills l))
    = sum_by g (fills_of l (ir_id r)) + sum_by g (filter (\<lambda>f. list_ex (\<lambda>r. ir_id r = fr_intent f) rows) (lg_fills l))"
    unfolding fills_of_def using Cons.prems by (intro sum_by_disjoint) (auto simp: list_ex_iff image_iff)
  with Cons show ?case by (simp add: eq_commute)
qed simp

lemma sum_by_side:
  assumes "wf_ledger l"
  shows "sum_by (\<lambda>r. sum_by g (fills_of l (ir_id r))) (intents_on l s k) = (sum_by g (fills_on l s k) :: 'a :: comm_monoid_add)"
  unfolding intents_on_def fills_on_def
  using assms by (intro sum_by_fills distinct_map_filter) (simp add: wf_ledger_def intents_wf_def o_def)

lemma side_rows:
  "filter (\<lambda>r. ir_side r = s) (filter (\<lambda>r. ir_lifecycle r = k) (lg_intents l)) = intents_on l s k"
  "filter (\<lambda>r. ir_side r = s \<and> P r) (filter (\<lambda>r. ir_lifecycle r = k) (lg_intents l)) = filter P (intents_on l s k)"
  by (simp_all add: intents_on_def conj_ac)

lemma sum_by_add: "sum_by (\<lambda>r. f r + g r) xs = sum_by f xs + (sum_by g xs :: 'a :: comm_monoid_add)"
  by (simp add: sum_by_def sum_list_addf)

lemma sum_by_diff: "sum_by (\<lambda>r. f r - g r) xs = sum_by f xs - (sum_by g xs :: 'a :: ab_group_add)"
  by (induction xs) simp_all

lemma fills_of_wf: "wf_ledger l \<Longrightarrow> f \<in> set (fills_of l i) \<Longrightarrow> 0 < fr_quantity f \<and> 0 < fr_price f \<and> 0 \<le> fr_fees f"
  by (auto simp: wf_ledger_def fills_wf_def fills_of_def)

lemma turnover_nonneg: "wf_ledger l \<Longrightarrow> 0 \<le> turnover_of (fills_of l i)"
  unfolding turnover_of_def by (rule sum_by_nonneg) (force dest: fills_of_wf)

lemma intent_cost_eq: "wf_ledger l \<Longrightarrow> intent_cost l row = Inr (cost_of l row)"
  using turnover_nonneg [of l "ir_id row"]
  by (auto simp: intent_cost_def cost_of_def Let_def fees_on_def fee_buy_eq fee_sell_eq paise_multiple_ceil paise_multiple_fees)

lemma cost_nonneg: "wf_ledger l \<Longrightarrow> 0 \<le> cost_of l row"
proof -
  assume wf: "wf_ledger l"
  then have "0 \<le> sum_by fr_fees (fills_of l (ir_id row))"
    by (intro sum_by_nonneg) (simp add: fills_of_wf)
  then show ?thesis by (auto simp: cost_of_def reported_fees_def)
qed

lemma add_intent_eq:
  assumes "wf_ledger l"
  shows "add_intent l row t = Inr
    (let turnover = turnover_of (fills_of l (ir_id row)); qty = sum_by fr_quantity (fills_of l (ir_id row));
         terminal = intent_terminal l row; cost = cost_of l row; t = t\<lparr>unresolved := unresolved t \<or> \<not> terminal\<rparr>
     in if ir_side row = BUY
        then t\<lparr>entry_debit_total := entry_debit_total t + (turnover + cost), held := held t + qty,
               reserved_total := (if terminal then reserved_total t
                 else reserved_total t + max 0 (ir_reserved row - turnover - cost))\<rparr>
        else t\<lparr>sale_credit := sale_credit t + (turnover - cost), held := held t - qty\<rparr>)"
  using assms by (simp add: add_intent_def intent_cost_eq Let_def)

lemma side_cases: "ir_side r = BUY \<or> ir_side r = SELL"
  by (cases "ir_side r") auto

lemma foldR_add_intent:
  assumes wf: "wf_ledger l"
  shows "\<exists>t'. foldR (add_intent l) rows t = Inr t'
    \<and> held t' = held t + sum_by (\<lambda>r. sum_by fr_quantity (fills_of l (ir_id r))) (filter (\<lambda>r. ir_side r = BUY) rows)
               - sum_by (\<lambda>r. sum_by fr_quantity (fills_of l (ir_id r))) (filter (\<lambda>r. ir_side r = SELL) rows)
    \<and> entry_debit_total t' = entry_debit_total t
        + sum_by (\<lambda>r. turnover_of (fills_of l (ir_id r)) + cost_of l r) (filter (\<lambda>r. ir_side r = BUY) rows)
    \<and> sale_credit t' = sale_credit t
        + sum_by (\<lambda>r. turnover_of (fills_of l (ir_id r)) - cost_of l r) (filter (\<lambda>r. ir_side r = SELL) rows)
    \<and> reserved_total t' = reserved_total t
        + sum_by (\<lambda>r. max 0 (ir_reserved r - turnover_of (fills_of l (ir_id r)) - cost_of l r))
            (filter (\<lambda>r. ir_side r = BUY \<and> \<not> intent_terminal l r) rows)
    \<and> unresolved t' = (unresolved t \<or> (\<exists>r \<in> set rows. \<not> intent_terminal l r))"
proof (induction rows arbitrary: t)
  case (Cons r rows)
  let ?turn = "turnover_of (fills_of l (ir_id r))" and ?qty = "sum_by fr_quantity (fills_of l (ir_id r))"
  obtain t2 where run: "add_intent l r t = Inr t2" using add_intent_eq [OF wf] by blast
  then have t2: "held t2 = held t + (if ir_side r = BUY then ?qty else - ?qty)"
    "entry_debit_total t2 = entry_debit_total t + (if ir_side r = BUY then ?turn + cost_of l r else 0)"
    "sale_credit t2 = sale_credit t + (if ir_side r = BUY then 0 else ?turn - cost_of l r)"
    "reserved_total t2 = reserved_total t + (if ir_side r = BUY \<and> \<not> intent_terminal l r
       then max 0 (ir_reserved r - ?turn - cost_of l r) else 0)"
    "unresolved t2 = (unresolved t \<or> \<not> intent_terminal l r)"
    by (cases "ir_side r = BUY"; cases "intent_terminal l r"; auto simp: add_intent_eq [OF wf] Let_def)+
  from Cons.IH [of t2] side_cases [of r] show ?case
    by (auto simp: run t2)
qed simp

text \<open>
  What the broker owes a limit buy: it fills at or below the limit and charges no more than
  the schedule; and what the bot owes it: a reservation of the worst case.
\<close>

definition honoured :: "ledger \<Rightarrow> intent_row \<Rightarrow> bool" where
  "honoured l row =
     ((\<forall>f \<in> set (fills_of l (ir_id row)). fr_price f \<le> ir_price row)
      \<and> reported_fees l (ir_id row) \<le> buy_amount default_fees (of_int (ir_quantity row) * ir_price row) 1)"

definition well_reserved :: "intent_row \<Rightarrow> bool" where
  "well_reserved row = (ir_side row = BUY \<longrightarrow>
      reserve_cash (of_int (ir_quantity row) * ir_price row
            + buy_amount default_fees (of_int (ir_quantity row) * ir_price row) 1) \<le> ir_reserved row)"

definition within_limit :: "ledger \<Rightarrow> intent_row \<Rightarrow> bool" where
  "within_limit l row = (honoured l row \<and> (ir_side row = BUY \<longrightarrow> well_reserved row))"

lemma turnover_le:
  assumes wf: "wf_ledger l" and row: "row \<in> set (lg_intents l)"
    and p: "\<forall>f \<in> set (fills_of l (ir_id row)). fr_price f \<le> ir_price row"
  shows "turnover_of (fills_of l (ir_id row)) \<le> of_int (ir_quantity row) * ir_price row"
proof -
  let ?fs = "fills_of l (ir_id row)"
  have "turnover_of ?fs \<le> sum_by (\<lambda>f. ir_price row * of_int (fr_quantity f)) ?fs"
    unfolding turnover_of_def using p by (intro sum_by_mono mult_right_mono) (force dest: fills_of_wf [OF wf])+
  also have "\<dots> = ir_price row * of_int (sum_by fr_quantity ?fs)"
    by (rule sum_by_mult_of_int)
  also have "\<dots> \<le> ir_price row * of_int (ir_quantity row)"
    using wf row by (intro mult_left_mono) (auto simp: wf_ledger_def fills_wf_def intents_wf_def fills_of_def)
  finally show ?thesis by (simp add: mult.commute)
qed

lemma spent_within_reserve:
  assumes wf: "wf_ledger l" and row: "row \<in> set (lg_intents l)" and buy: "ir_side row = BUY"
    and lim: "within_limit l row"
  shows "turnover_of (fills_of l (ir_id row)) + cost_of l row \<le> ir_reserved row"
proof -
  let ?t = "turnover_of (fills_of l (ir_id row))" and ?T = "of_int (ir_quantity row) * ir_price row"
  have t: "0 \<le> ?t" "?t \<le> ?T" using turnover_nonneg [OF wf] turnover_le [OF wf row] lim by (auto simp: within_limit_def honoured_def)
  then have "buy_amount default_fees ?t 1 \<le> buy_amount default_fees ?T 1" by (intro buy_amount_mono) simp_all
  moreover have "0 \<le> buy_amount default_fees ?T 1" using t by (intro buy_amount_nonneg) simp_all
  ultimately have "cost_of l row \<le> buy_amount default_fees ?T 1"
    using lim buy by (auto simp: cost_of_def within_limit_def honoured_def fees_on_def)
  with t have "?t + cost_of l row \<le> ?T + buy_amount default_fees ?T 1" by simp
  also have "\<dots> \<le> ir_reserved row"
    using lim ceil_paise_ge [of "?T + buy_amount default_fees ?T 1"] buy by (simp add: within_limit_def well_reserved_def reserve_cash_def)
  finally show ?thesis .
qed

text \<open>The partial fills of an unresolved order release exactly what they used.\<close>

lemma spent_and_reserved:
  assumes wf: "wf_ledger l" and run: "lifecycle_totals k l = Inr t"
    and buys: "\<forall>r \<in> set (lg_intents l). ir_lifecycle r = k \<longrightarrow> ir_side r = BUY \<longrightarrow> within_limit l r"
  shows "entry_debit_total t + reserved_total t
    \<le> sum_by ir_reserved (filter (\<lambda>r. ir_lifecycle r = k \<and> ir_side r = BUY) (lg_intents l))"
proof -
  let ?rows = "filter (\<lambda>r. ir_lifecycle r = k) (lg_intents l)"
  let ?buys = "filter (\<lambda>r. ir_side r = BUY) ?rows"
  let ?spent = "\<lambda>r. turnover_of (fills_of l (ir_id r)) + cost_of l r"
  let ?left = "\<lambda>r. max 0 (ir_reserved r - turnover_of (fills_of l (ir_id r)) - cost_of l r)"
  let ?t0 = "\<lparr>entry_debit_total = 0, sale_credit = 0, held = 0, reserved_total = 0, unresolved = False\<rparr>"
  obtain u where u: "foldR (add_intent l) ?rows ?t0 = Inr u"
      "entry_debit_total u = sum_by ?spent ?buys"
      "reserved_total u = sum_by ?left (filter (\<lambda>r. ir_side r = BUY \<and> \<not> intent_terminal l r) ?rows)"
    using foldR_add_intent [OF wf, of ?rows ?t0] by auto
  have "entry_debit_total t = entry_debit_total u" "reserved_total t = reserved_total u"
    using run by (auto simp: lifecycle_totals_def Let_def u(1) split: if_splits)
  moreover have "filter (\<lambda>r. ir_side r = BUY \<and> \<not> intent_terminal l r) ?rows = filter (\<lambda>r. \<not> intent_terminal l r) ?buys"
    unfolding filter_filter by (rule filter_cong) auto
  ultimately have "entry_debit_total t = sum_by ?spent ?buys"
    "reserved_total t = sum_by ?left (filter (\<lambda>r. \<not> intent_terminal l r) ?buys)"
    by (simp_all only: u(2,3))
  moreover have "sum_by ?left (filter (\<lambda>r. \<not> intent_terminal l r) ?buys) \<le> sum_by ?left ?buys"
    by (rule sum_by_filter_le) simp
  moreover have "sum_by ?spent ?buys + sum_by ?left ?buys = sum_by (\<lambda>r. ?spent r + ?left r) ?buys"
    by (simp add: sum_by_def sum_list_addf)
  moreover have "sum_by (\<lambda>r. ?spent r + ?left r) ?buys \<le> sum_by ir_reserved ?buys"
  proof (rule sum_by_mono)
    fix r assume "r \<in> set ?buys"
    with buys have "?spent r \<le> ir_reserved r" by (intro spent_within_reserve [OF wf]) auto
    then show "?spent r + ?left r \<le> ir_reserved r" by simp
  qed
  ultimately have "entry_debit_total t + reserved_total t \<le> sum_by ir_reserved ?buys" by linarith
  then show ?thesis by (simp only: filter_filter)
qed

section \<open>The tables as keyed stores\<close>

interpretation order_table: keyed_store or_id "replace_row or_id"
  by (rule keyed_store_replace)

interpretation charge_table: keyed_store ch_order "replace_row ch_order"
  by (rule keyed_store_replace)

interpretation metadata_table: keyed_store fst "upsert_row fst (\<lambda>old r. r)"
  by (rule keyed_store_upsert)

lemma metadata_put:
  assumes "distinct (map fst (lg_metadata l))" "put_metadata k v l = Inr (u, l')"
  shows "metadata j l' = (if j = k then Some v else metadata j l)" "distinct (map fst (lg_metadata l'))"
  using assms metadata_table.put_same [of "lg_metadata l" "(k, v)"] metadata_table.put_other [of j "(k, v)" "lg_metadata l"]
    metadata_table.put_distinct [of "lg_metadata l" "(k, v)"]
  by (auto simp: put_metadata_def metadata_def)

lemma recorded_fill:
  assumes wf: "wf_ledger l" and run: "record_fill_once f i l = Inr (b, l')"
  obtains r where "row_with fr_key (PairKey (f_order_id f) (f_trade_id f)) (lg_fills l') = Some r"
    "fr_order r = f_order_id f" "fr_security r = f_security_id f" "fr_quantity r = f_quantity f"
    "fr_price r = f_price f" "f_fees f \<le> fr_fees r"
proof (cases "known_fill f (lg_fills l)")
  case (Some old)
  let ?up = "update_where (\<lambda>r. fr_key r = fr_key old) (correct_fill f) (lg_fills l)"
  have l': "lg_fills l' = ?up"
    and econ: "(fr_order old, fr_security old, fr_quantity old, fr_price old) = (f_order_id f, f_security_id f, f_quantity f, f_price f)"
    using run Some by (auto simp: record_fill_once_def split: if_splits)
  have "distinct (map fr_key (lg_fills l))" using wf by (simp add: wf_ledger_def fills_wf_def)
  then have d: "distinct (map fr_key ?up)" by (rule distinct_correct [OF _ Some])
  have "correct_fill f old \<in> set ?up" using known_fill_SomeD(1) [OF Some] by (auto simp: set_update_where)
  from row_with_in [OF d this] econ that [of "correct_fill f old"] show ?thesis by (simp add: l')
next
  case None
  then have "row_with fr_key (PairKey (f_order_id f) (f_trade_id f)) (lg_fills l) = None"
    by (auto simp: known_fill_def split: option.splits)
  with run None that show ?thesis
    by (auto simp: record_fill_once_def Let_def insert_ignore_def row_with_append split: option.splits if_splits)
qed

section \<open>Properties\<close>

text \<open>
  C6: In every ledger the operations can reach, an intent and a client order
  identity occur once, a fill is recorded once, every fill belongs to a recorded
  intent for the same contract at a positive quantity and price, the fills of an
  intent never exceed its quantity, and every buy carries a positive reservation.
\<close>

theorem reachable_ledger_sound:
  assumes "reachable_ledger l"
  shows "distinct (map ir_id (lg_intents l)) \<and> distinct (map ir_client (lg_intents l))
    \<and> distinct (map fr_key (lg_fills l)) \<and> distinct (map or_id (lg_orders l))
    \<and> (\<forall>f \<in> set (lg_fills l). 0 < fr_quantity f \<and> 0 < fr_price f
         \<and> (\<exists>r \<in> set (lg_intents l). ir_id r = fr_intent f \<and> ir_security r = fr_security f))
    \<and> (\<forall>r \<in> set (lg_intents l). filled_quantity (ir_id r) l \<le> ir_quantity r
         \<and> (ir_side r = BUY \<longrightarrow> 0 < ir_reserved r))"
  using reachable_wf [OF assms]
  by (auto simp: wf_ledger_def intents_wf_def fills_wf_def orders_wf_def filled_quantity_def o_def)

definition demo_intent :: intent where
  "demo_intent = \<lparr>in_id = ''i1'', in_side = BUY, in_instrument = demo_instrument, in_quantity = 75, in_limit_price = 101,
     in_client_order_id = ''e1'', in_created_at = 5, in_lifecycle_id = ''l1''\<rparr>"

definition demo_fill :: fill where
  "demo_fill = \<lparr>f_trade_id = ''t1'', f_order_id = ''o1'', f_security_id = ''1'', f_quantity = 75, f_price = 100,
     f_fees = 0, f_occurred_at = 6\<rparr>"

definition demo_bought :: ledger where
  "demo_bought = snd (projr (bindR (create_intent demo_intent 7700 empty_ledger) (\<lambda>(u, l). record_fill_once demo_fill ''i1'' l)))"

lemma demo_bought_run:
  "create_intent demo_intent 7700 empty_ledger = Inr ((), snd (projr (create_intent demo_intent 7700 empty_ledger)))"
  "record_fill_once demo_fill ''i1'' (snd (projr (create_intent demo_intent 7700 empty_ledger))) = Inr (True, demo_bought)"
  by (code_simp, code_simp)

lemma demo_bought_reachable: "reachable_ledger demo_bought"
proof -
  have "check_intent demo_intent = Inr demo_intent" "check_fill demo_fill = Inr demo_fill" by (code_simp, code_simp)
  with demo_bought_run show ?thesis
    unfolding reachable_ledger_def by (blast intro: rtranclp.rtrancl_into_rtrancl rtranclp.rtrancl_refl
        ledger_step.intent ledger_step.fill)
qed

theorem reachable_ledger_sound_witness:
  "filled_quantity ''i1'' demo_bought = 75 \<and> 75 \<le> ir_quantity (hd (lg_intents demo_bought))"
proof -
  let ?r = "hd (lg_intents demo_bought)"
  have q: "filled_quantity ''i1'' demo_bought = 75" and i: "ir_id ?r = ''i1''" and ne: "lg_intents demo_bought \<noteq> []"
    by (code_simp, code_simp, code_simp)
  from ne have "?r \<in> set (lg_intents demo_bought)" by simp
  then have "filled_quantity (ir_id ?r) demo_bought \<le> ir_quantity ?r"
    using reachable_ledger_sound [OF demo_bought_reachable] by blast
  then show ?thesis by (simp add: q i)
qed

text \<open>
  C8: No later transaction undoes what the ledger has recorded: a frozen reference
  stays equal, an order keeps its intent and account and never leaves a terminal
  state, a reported charge never falls, an intent keeps its economics and its
  place, and a fill keeps its order, contract, quantity and price.
\<close>

theorem ledger_never_forgets:
  assumes "ledger_step\<^sup>*\<^sup>* l l'"
  shows "extends l l'"
  using assms by (induction rule: rtranclp_induct) (auto intro: extends_trans ledger_step_extends)

theorem ledger_never_forgets_witness: "extends empty_ledger demo_bought \<and> map fr_price (lg_fills demo_bought) = [100]"
proof -
  have "map fr_price (lg_fills demo_bought) = [100]" by code_simp
  then show ?thesis
    using ledger_never_forgets [of empty_ledger demo_bought] demo_bought_reachable by (simp add: reachable_ledger_def)
qed

text \<open>
  C7: A broker trade delivered again is not counted again: once a fill has been
  recorded, every redelivery with the same identity and economics is accepted,
  reports that nothing is new, and leaves quantity and turnover of every intent
  as they were, raising the recorded charge to the larger of the two; one with
  other economics is refused.
\<close>

theorem record_fill_idempotent:
  assumes wf: "wf_ledger l" and first: "record_fill_once f i l = Inr (b, l')"
    and same: "f_order_id g = f_order_id f" "f_trade_id g = f_trade_id f"
  shows "if f_security_id g = f_security_id f \<and> f_quantity g = f_quantity f \<and> f_price g = f_price f
         then \<exists>l''. record_fill_once g j l' = Inr (False, l'')
           \<and> (\<forall>k. filled_quantity k l'' = filled_quantity k l' \<and> turnover_of (fills_of l'' k) = turnover_of (fills_of l' k))
           \<and> lg_intents l'' = lg_intents l' \<and> length (lg_fills l'') = length (lg_fills l')
           \<and> (\<exists>r \<in> set (lg_fills l''). fr_order r = f_order_id g \<and> fr_key r = PairKey (f_order_id g) (f_trade_id g)
                \<and> f_fees f \<le> fr_fees r \<and> f_fees g \<le> fr_fees r)
         else record_fill_once g j l' = Inl (ContractError ''conflicting duplicate fill'')"
proof -
  let ?k = "PairKey (f_order_id f) (f_trade_id f)"
  obtain r where r: "row_with fr_key ?k (lg_fills l') = Some r"
    and econ: "fr_order r = f_order_id f" "fr_security r = f_security_id f" "fr_quantity r = f_quantity f"
      "fr_price r = f_price f" "f_fees f \<le> fr_fees r"
    by (rule recorded_fill [OF wf first])
  have known: "known_fill g (lg_fills l') = Some r" using r same by (simp add: known_fill_def)
  have key: "fr_key r = ?k" and mem: "r \<in> set (lg_fills l')" using row_with_SomeD [OF r] by simp_all
  let ?up = "update_where (\<lambda>x. fr_key x = fr_key r) (correct_fill g)"
  have filt: "filter (\<lambda>x. fr_intent x = n) (?up (lg_fills l')) = ?up (filter (\<lambda>x. fr_intent x = n) (lg_fills l'))" for n
    by (rule filter_update_where) simp
  have sums: "sum_by fr_quantity (?up xs) = sum_by fr_quantity xs"
    "sum_by (\<lambda>x. fr_price x * of_int (fr_quantity x)) (?up xs) = sum_by (\<lambda>x. fr_price x * of_int (fr_quantity x)) xs" for xs
    by (rule sum_by_update_where, simp)+
  have "correct_fill g r \<in> set (?up (lg_fills l'))" using mem by (auto simp: set_update_where)
  then have "\<exists>x \<in> set (?up (lg_fills l')). fr_order x = f_order_id g \<and> fr_key x = PairKey (f_order_id g) (f_trade_id g)
      \<and> f_fees f \<le> fr_fees x \<and> f_fees g \<le> fr_fees x"
    using econ same by (intro bexI [of _ "correct_fill g r"]) auto
  note fees = this
  show ?thesis
  proof (cases "f_security_id g = f_security_id f \<and> f_quantity g = f_quantity f \<and> f_price g = f_price f")
    case True
    then have "record_fill_once g j l' = Inr (False, l'\<lparr>lg_fills := ?up (lg_fills l')\<rparr>)"
      using econ same by (simp add: record_fill_once_def known)
    with True fees show ?thesis
      by (simp add: filled_quantity_def fills_of_def turnover_of_def filt sums)
  next
    case False
    then show ?thesis using econ same by (auto simp: record_fill_once_def known)
  qed
qed

theorem record_fill_idempotent_witness:
  "\<exists>l''. record_fill_once (demo_fill\<lparr>f_fees := 12\<rparr>) ''other'' demo_bought = Inr (False, l'')
     \<and> filled_quantity ''i1'' l'' = 75 \<and> (\<exists>r \<in> set (lg_fills l''). 12 \<le> fr_fees r)"
proof -
  have wf: "wf_ledger (snd (projr (create_intent demo_intent 7700 empty_ledger)))"
    by (rule wf_create_intent [OF wf_empty _ demo_bought_run(1)]) code_simp
  have g: "f_order_id (demo_fill\<lparr>f_fees := 12\<rparr>) = f_order_id demo_fill" "f_trade_id (demo_fill\<lparr>f_fees := 12\<rparr>) = f_trade_id demo_fill"
    by simp_all
  have "filled_quantity ''i1'' demo_bought = 75" by code_simp
  with record_fill_idempotent [OF wf demo_bought_run(2) g, of "''other''"] show ?thesis
    by (auto simp del: not_None_eq)
qed

text \<open>
  C10: The totals of a lifecycle account for every recorded fill. The held quantity is what
  was bought less what was sold and settled, and is never negative. The entry debit is the
  turnover of the bought fills and the charges on them, the credit the turnover of the sold
  fills less the charges on them, and what settlements paid; an order's charge is the larger
  of the reported one and the schedule's. The reserved cash is what the unresolved buys have
  left of their reservations, so it is never negative and vanishes when every intent is
  resolved. The totals are refused only when the ledger shows a short position or an
  over-settlement.
\<close>

theorem lifecycle_totals_account:
  assumes "wf_ledger l"
  shows "case lifecycle_totals k l of
      Inr t \<Rightarrow> held t = fill_amount l BUY k - fill_amount l SELL k
                 - sum_by sl_quantity (filter (\<lambda>s. sl_lifecycle s = k) (lg_settlements l))
             \<and> 0 \<le> held t \<and> 0 \<le> reserved_total t \<and> 0 \<le> entry_debit_total t
             \<and> entry_debit_total t = turnover_of (fills_on l BUY k) + sum_by (cost_of l) (intents_on l BUY k)
             \<and> sale_credit t = turnover_of (fills_on l SELL k) - sum_by (cost_of l) (intents_on l SELL k)
                 + sum_by sl_credit (filter (\<lambda>s. sl_lifecycle s = k) (lg_settlements l))
             \<and> reserved_total t = sum_by (\<lambda>r. max 0 (ir_reserved r - turnover_of (fills_of l (ir_id r)) - cost_of l r))
                 (filter (\<lambda>r. \<not> intent_terminal l r) (intents_on l BUY k))
             \<and> (\<not> unresolved t \<longrightarrow> reserved_total t = 0)
             \<and> unresolved t = (\<exists>r \<in> set (lg_intents l). ir_lifecycle r = k \<and> \<not> intent_terminal l r)
    | Inl e \<Rightarrow> fill_amount l BUY k < fill_amount l SELL k \<and> e = ContractError ''ledger contains a net short position''
             \<or> fill_amount l BUY k - fill_amount l SELL k
                 < sum_by sl_quantity (filter (\<lambda>s. sl_lifecycle s = k) (lg_settlements l))
               \<and> e = ContractError ''settlement exceeds managed quantity''"
proof -
  let ?rows = "filter (\<lambda>r. ir_lifecycle r = k) (lg_intents l)"
  let ?t0 = "\<lparr>entry_debit_total = 0, sale_credit = 0, held = 0, reserved_total = 0, unresolved = False\<rparr>"
  let ?left = "\<lambda>r. max 0 (ir_reserved r - turnover_of (fills_of l (ir_id r)) - cost_of l r)"
  obtain t where run: "foldR (add_intent l) ?rows ?t0 = Inr t"
    and sums: "held t = sum_by (\<lambda>r. sum_by fr_quantity (fills_of l (ir_id r))) (intents_on l BUY k)
               - sum_by (\<lambda>r. sum_by fr_quantity (fills_of l (ir_id r))) (intents_on l SELL k)"
      "entry_debit_total t = sum_by (\<lambda>r. turnover_of (fills_of l (ir_id r)) + cost_of l r) (intents_on l BUY k)"
      "sale_credit t = sum_by (\<lambda>r. turnover_of (fills_of l (ir_id r)) - cost_of l r) (intents_on l SELL k)"
    and reserved: "reserved_total t = sum_by ?left (filter (\<lambda>r. \<not> intent_terminal l r) (intents_on l BUY k))"
    and unres: "unresolved t = (\<exists>r \<in> set ?rows. \<not> intent_terminal l r)"
    using foldR_add_intent [OF assms, of ?rows ?t0] unfolding side_rows by auto
  have turn: "sum_by (\<lambda>r. turnover_of (fills_of l (ir_id r))) (intents_on l s k) = turnover_of (fills_on l s k)" for s
    unfolding turnover_of_def by (rule sum_by_side [OF assms])
  have held: "held t = fill_amount l BUY k - fill_amount l SELL k"
    by (simp only: sums(1) fill_amount_def sum_by_side [OF assms])
  have debit: "entry_debit_total t = turnover_of (fills_on l BUY k) + sum_by (cost_of l) (intents_on l BUY k)"
    and credit: "sale_credit t = turnover_of (fills_on l SELL k) - sum_by (cost_of l) (intents_on l SELL k)"
    by (simp_all only: sums(2,3) sum_by_add sum_by_diff turn)
  have "0 \<le> sum_by ?left (filter (\<lambda>r. \<not> intent_terminal l r) (intents_on l BUY k))" by (rule sum_by_nonneg) simp
  moreover have "0 \<le> entry_debit_total t"
    unfolding sums by (intro sum_by_nonneg add_nonneg_nonneg turnover_nonneg cost_nonneg assms)
  moreover have "filter (\<lambda>r. \<not> intent_terminal l r) (intents_on l BUY k) = []" if "\<not> unresolved t"
    using that unres by (auto simp: filter_empty_conv intents_on_def)
  ultimately show ?thesis
    using unres by (auto simp: lifecycle_totals_def run Let_def held reserved debit [symmetric] credit)
qed

theorem lifecycle_totals_account_witness:
  "map_sum (\<lambda>_. ()) held (lifecycle_totals ''l1'' demo_bought) = Inr 75
   \<and> (case lifecycle_totals ''l1'' demo_bought of
        Inr t \<Rightarrow> 0 \<le> reserved_total t \<and> entry_debit_total t = 7500 + sum_by (cost_of demo_bought) (lg_intents demo_bought)
      | Inl e \<Rightarrow> False)"
proof -
  have "map_sum (\<lambda>_. ()) held (lifecycle_totals ''l1'' demo_bought) = Inr 75" by code_simp
  moreover have "turnover_of (fills_on demo_bought BUY ''l1'') = 7500" by code_simp
  moreover have "list_all (\<lambda>r. ir_lifecycle r = ''l1'' \<and> ir_side r = BUY) (lg_intents demo_bought)" by code_simp
  then have "intents_on demo_bought BUY ''l1'' = lg_intents demo_bought" by (auto simp: intents_on_def list_all_iff intro: filter_True)
  ultimately show ?thesis
    using lifecycle_totals_account [OF reachable_wf [OF demo_bought_reachable], of "''l1''"]
    by (cases "lifecycle_totals ''l1'' demo_bought") auto
qed

end
