(* ===== verification/Governor.thy ===== *)
theory Governor
  imports PyText
begin

text \<open>
  Rate limits: the in-memory sliding windows of \<open>dhan_cas_bot/governor.py\<close> and
  the contract every limiter of the program has to meet.
\<close>

section \<open>The sliding-window contract\<close>

text \<open>
  \<open>admit\<close> answers a request made at a clock reading with the events it lets
  through. \<open>tracks past prev s\<close> says that the limiter's state \<open>s\<close> stands for the
  events \<open>past\<close> admitted so far, the last request having been at \<open>prev\<close>.
\<close>

definition recent :: "'t::linordered_idom \<Rightarrow> 't \<Rightarrow> 't list \<Rightarrow> int" where
  "recent width now past = int (length (filter (\<lambda>e. now - e < width) past))"

definition window :: "'t::linordered_idom \<Rightarrow> 't \<Rightarrow> 't list \<Rightarrow> int" where
  "window width t past = int (length (filter (\<lambda>e. e \<le> t \<and> t - e < width) past))"

lemma recent_append [simp]: "recent width now (xs @ ys) = recent width now xs + recent width now ys"
  by (simp add: recent_def)

lemma window_append [simp]: "window width t (xs @ ys) = window width t xs + window width t ys"
  by (simp add: window_def)

lemma recent_nonneg [simp]: "0 \<le> recent width now past"
  by (simp add: recent_def)

lemma window_le_length: "window width t past \<le> int (length past)"
  by (simp add: window_def)

lemma recent_old: "(\<And>e. e \<in> set past \<Longrightarrow> width \<le> now - e) \<Longrightarrow> recent width now past = 0"
  by (auto simp: recent_def filter_empty_conv not_less)

lemma window_future: "(\<And>e. e \<in> set past \<Longrightarrow> t < e) \<Longrightarrow> window width t past = 0"
  by (auto simp: window_def filter_empty_conv not_le)

lemma window_le_recent: "now \<le> t \<Longrightarrow> window width t past \<le> recent width now past"
  unfolding window_def recent_def of_nat_le_iff
  by (induction past) (auto simp: algebra_simps)

locale rate_limiter =
  fixes width :: "'t::linordered_idom" and limit :: int
    and admit :: "'r \<Rightarrow> 't \<Rightarrow> 's \<Rightarrow> ('t list \<times> 's) option"
    and tracks :: "'t list \<Rightarrow> 't \<Rightarrow> 's \<Rightarrow> bool"
  assumes admit_tracks: "tracks past prev s \<Longrightarrow> prev \<le> now \<Longrightarrow> admit r now s = Some (new, s') \<Longrightarrow> tracks (past @ new) now s'"
    and admit_now: "tracks past prev s \<Longrightarrow> prev \<le> now \<Longrightarrow> admit r now s = Some (new, s') \<Longrightarrow> set new \<subseteq> {now}"
    and admit_bound: "tracks past prev s \<Longrightarrow> prev \<le> now \<Longrightarrow> admit r now s = Some (new, s')
        \<Longrightarrow> new \<noteq> [] \<Longrightarrow> recent width now past + int (length new) \<le> limit"
begin

lemma admit_window:
  assumes tr: "tracks past prev s" and before: "\<forall>e \<in> set past. e \<le> prev" and le: "prev \<le> now"
    and run: "admit r now s = Some (new, s')"
    and ih: "\<And>t. window width t past \<le> max 0 limit"
  shows "window width t (past @ new) \<le> max 0 limit"
proof (cases "new = [] \<or> t < now")
  case True
  then have "window width t new = 0"
    using admit_now [OF tr le run] by (cases "new = []") (auto simp: window_def filter_empty_conv)
  then show ?thesis using ih [of t] by simp
next
  case False
  then have "window width t past \<le> recent width now past" by (intro window_le_recent) simp
  moreover have "window width t new \<le> int (length new)" by (rule window_le_length)
  ultimately show ?thesis using admit_bound [OF tr le run] False by simp
qed

text \<open>Requests at nondecreasing clock readings; a refused request leaves the state as it is.\<close>

fun serve :: "('r \<times> 't) list \<Rightarrow> 's \<Rightarrow> 't list" where
  "serve [] s = []"
| "serve ((r, now) # reqs) s = (case admit r now s of None \<Rightarrow> serve reqs s | Some (new, s') \<Rightarrow> new @ serve reqs s')"

lemma serve_window:
  assumes "tracks past prev s" "\<forall>e \<in> set past. e \<le> prev" "sorted_wrt (\<le>) (prev # map snd reqs)"
    and "\<And>t. window width t past \<le> max 0 limit"
  shows "window width t (past @ serve reqs s) \<le> max 0 limit"
  using assms
proof (induction reqs arbitrary: past prev s)
  case Nil
  then show ?case by simp
next
  case (Cons req reqs)
  obtain r now where req: "req = (r, now)" by force
  have le: "prev \<le> now" and srt: "sorted_wrt (\<le>) (now # map snd reqs)" "sorted_wrt (\<le>) (prev # map snd reqs)"
    using Cons.prems(3) by (auto simp: req)
  show ?case
  proof (cases "admit r now s")
    case None
    then show ?thesis using Cons.IH [OF Cons.prems(1,2) srt(2) Cons.prems(4)] by (simp add: req)
  next
    case (Some p)
    then obtain new s' where run: "admit r now s = Some (new, s')" by (cases p) auto
    have before: "\<forall>e \<in> set (past @ new). e \<le> now"
      using Cons.prems(2) le admit_now [OF Cons.prems(1) le run] by force
    have "window width t (past @ new) \<le> max 0 limit" for t
      by (rule admit_window [OF Cons.prems(1,2) le run Cons.prems(4)])
    from Cons.IH [OF admit_tracks [OF Cons.prems(1) le run] before srt(1) this]
    show ?thesis by (simp add: req run)
  qed
qed

lemma served_within_limit:
  assumes "tracks [] prev s" "sorted_wrt (\<le>) (prev # map snd reqs)"
  shows "window width t (serve reqs s) \<le> max 0 limit"
  using serve_window [of "[]" prev s reqs t] assms by (simp add: window_def)

end

section \<open>RateGovernor\<close>

definition governor_limits :: "(int \<times> int) list" where
  "governor_limits = [(10, 1), (250, 60), (1000, 3600), (7000, 86400)]"

definition horizon :: int where
  "horizon = Max (set (map snd governor_limits))"

definition governor_admit :: "int \<Rightarrow> instant \<Rightarrow> instant list \<Rightarrow> instant list res" where
  "governor_admit count now events =
     (if count \<le> 0 then Inl (ContractError ''rate count must be positive'')
      else let events = dropWhile (\<lambda>e. seconds horizon \<le> now - e) events
           in case find (\<lambda>(limit, s). limit < recent (seconds s) now events + count) governor_limits of
                Some (limit, s) \<Rightarrow> Inl (ContractError (''Dhan rate bucket exhausted: '' @ show_int s @ ''s''))
              | None \<Rightarrow> Inr (events @ replicate (nat count) now))"

text \<open>What one call adds, and the deque it leaves (the expired events are dropped even when it refuses).\<close>

definition governor_step :: "int \<Rightarrow> instant \<Rightarrow> instant list \<Rightarrow> (instant list \<times> instant list) option" where
  "governor_step count now events =
     (case governor_admit count now events of Inl e \<Rightarrow> None | Inr events' \<Rightarrow> Some (replicate (nat count) now, events'))"

definition governor_tracks :: "instant list \<Rightarrow> instant \<Rightarrow> instant list \<Rightarrow> bool" where
  "governor_tracks past prev events = (\<exists>old. past = old @ events \<and> (\<forall>e \<in> set old. seconds horizon \<le> prev - e))"

lemma horizon_eq [simp]: "horizon = 86400"
  by (simp add: horizon_def governor_limits_def)

lemma governor_stepD:
  assumes "governor_step count now events = Some (new, events')"
  obtains (admitted) "0 < count" "new = replicate (nat count) now"
    "events' = dropWhile (\<lambda>e. seconds horizon \<le> now - e) events @ new"
    "\<forall>(limit, s) \<in> set governor_limits. recent (seconds s) now (dropWhile (\<lambda>e. seconds horizon \<le> now - e) events) + count \<le> limit"
proof -
  let ?keep = "dropWhile (\<lambda>e. seconds horizon \<le> now - e) events"
  have c: "0 < count" using assms by (auto simp: governor_step_def governor_admit_def split: if_splits)
  with assms have n: "find (\<lambda>(limit, s). limit < recent (seconds s) now ?keep + count) governor_limits = None"
      "new = replicate (nat count) now" "events' = ?keep @ new"
    by (auto simp: governor_step_def governor_admit_def Let_def split: if_splits option.splits)
  from n(1) have "\<forall>(limit, s) \<in> set governor_limits. recent (seconds s) now ?keep + count \<le> limit"
    by (auto simp: find_None_iff not_less)
  then show thesis by (rule admitted [OF c n(2,3)])
qed

lemma seconds_mono: "s \<le> 86400 \<Longrightarrow> seconds s \<le> seconds 86400"
  by (simp add: seconds_def)

lemma governor_limiter:
  assumes "(limit, s) \<in> set governor_limits"
  shows "rate_limiter (seconds s) limit governor_step governor_tracks"
proof
  fix past prev events count now new events'
  assume tr: "governor_tracks past prev events" and le: "prev \<le> now"
    and run: "governor_step count now events = Some (new, events')"
  let ?keep = "dropWhile (\<lambda>e. seconds horizon \<le> now - e) events"
  let ?gone = "takeWhile (\<lambda>e. seconds horizon \<le> now - e) events"
  obtain old where past: "past = old @ events" and old: "\<forall>e \<in> set old. seconds horizon \<le> prev - e"
    using tr by (auto simp: governor_tracks_def)
  have gone: "\<forall>e \<in> set (old @ ?gone). seconds horizon \<le> now - e"
    using old le by (fastforce dest: set_takeWhileD)
  have split: "past = (old @ ?gone) @ ?keep" by (simp add: past)
  from run obtain r: "0 < count" "new = replicate (nat count) now" "events' = ?keep @ new"
      "\<forall>(limit, s) \<in> set governor_limits. recent (seconds s) now ?keep + count \<le> limit"
    by (rule governor_stepD)
  show "governor_tracks (past @ new) now events'"
    unfolding governor_tracks_def r(3) by (rule exI [of _ "old @ ?gone"]) (use gone split in simp)
  show "set new \<subseteq> {now}" by (auto simp: r(2))
  have "s \<le> 86400" using assms by (auto simp: governor_limits_def)
  then have "seconds s \<le> seconds horizon" by (simp add: seconds_mono)
  with gone have "recent (seconds s) now (old @ ?gone) = 0" by (intro recent_old) fastforce
  then have "recent (seconds s) now past = recent (seconds s) now ?keep" by (subst split) (simp del: append_assoc)
  then show "recent (seconds s) now past + int (length new) \<le> limit"
    using r assms by auto
qed

interpretation per_second: rate_limiter "seconds 1" 10 governor_step governor_tracks
  by (rule governor_limiter) (simp add: governor_limits_def)

interpretation per_day: rate_limiter "seconds 86400" 7000 governor_step governor_tracks
  by (rule governor_limiter) (simp add: governor_limits_def)

section \<open>Properties\<close>

text \<open>The events one governor lets through when calls arrive at nondecreasing clock readings.\<close>

fun governor_log :: "(int \<times> instant) list \<Rightarrow> instant list \<Rightarrow> instant list" where
  "governor_log [] events = []"
| "governor_log ((count, now) # calls) events =
     (case governor_admit count now events of
        Inl e \<Rightarrow> governor_log calls events
      | Inr events' \<Rightarrow> replicate (nat count) now @ governor_log calls events')"

lemma governor_step_Inl: "governor_admit count now events = Inl e \<Longrightarrow> governor_step count now events = None"
  by (simp add: governor_step_def)

lemma governor_step_Inr:
  "governor_admit count now events = Inr events' \<Longrightarrow> governor_step count now events = Some (replicate (nat count) now, events')"
  by (simp add: governor_step_def)

lemma governor_log_serve: "governor_log calls events = per_day.serve calls events"
proof (induction calls events rule: governor_log.induct)
  case (2 count now calls events)
  then show ?case
    by (cases "governor_admit count now events") (simp_all add: governor_step_Inl governor_step_Inr)
qed simp

text \<open>
  C11: Whatever calls arrive, as long as the clock does not run backwards, no
  second sees more than 10 admitted requests, no minute more than 250, no hour
  more than 1000 and no day more than 7000, although the governor forgets every
  event older than a day.
\<close>

theorem governor_windows:
  assumes "(limit, s) \<in> set governor_limits" "sorted_wrt (\<le>) (map snd calls)"
  shows "window (seconds s) t (governor_log calls []) \<le> limit"
proof (cases calls)
  case Nil
  then show ?thesis using assms(1) by (auto simp: window_def governor_limits_def)
next
  case (Cons call rest)
  have "sorted_wrt (\<le>) (snd call # map snd calls)" using assms(2) Cons by auto
  moreover have "governor_tracks [] (snd call) []" by (simp add: governor_tracks_def)
  ultimately have "window (seconds s) t (rate_limiter.serve governor_step calls []) \<le> max 0 limit"
    using rate_limiter.served_within_limit [OF governor_limiter [OF assms(1)]] by blast
  moreover have "rate_limiter.serve governor_step calls [] = governor_log calls []"
    by (simp add: governor_log_serve)
  ultimately show ?thesis using assms(1) by (auto simp: governor_limits_def)
qed

theorem governor_windows_witness:
  "governor_log [(9, 0), (2, 100), (1, 200), (3, 1000000)] [] = replicate 9 0 @ [200, 1000000, 1000000, 1000000]
   \<and> window (seconds 1) 999999 (governor_log [(9, 0), (2, 100), (1, 200), (3, 1000000)] []) \<le> 10"
proof -
  have "governor_log [(9, 0), (2, 100), (1, 200), (3, 1000000)] [] = replicate 9 0 @ [200, 1000000, 1000000, 1000000]"
    by code_simp
  then show ?thesis
    using governor_windows [of 10 1 "[(9, 0), (2, 100), (1, 200), (3, 1000000)]" 999999] by (simp add: governor_limits_def)
qed

text \<open>Requests at least \<open>g\<close> apart: a window of width \<open>w\<close> holds fewer than \<open>w / g\<close> of them.\<close>

abbreviation spaced :: "int \<Rightarrow> int list \<Rightarrow> bool" where
  "spaced g \<equiv> sorted_wrt (\<lambda>a b. g \<le> b - a)"

lemma spaced_span: "spaced g (e # es @ [now]) \<Longrightarrow> int (length (e # es)) * g \<le> now - e"
proof (induction es arbitrary: e)
  case (Cons x es)
  from Cons.prems have p: "spaced g (x # es @ [now])" "g \<le> x - e" by simp_all
  from Cons.IH [OF p(1)] p(2) show ?case by (simp add: algebra_simps)
qed simp

lemma spaced_recent:
  assumes "spaced g (es @ [now])" "0 < w"
  shows "recent w now es * g < w"
proof -
  let ?in = "filter (\<lambda>e. now - e < w) es"
  have s: "spaced g (?in @ [now])" using assms(1) by (auto simp: sorted_wrt_append intro: sorted_wrt_filter)
  show ?thesis
  proof (cases ?in)
    case Nil
    then show ?thesis using assms(2) by (simp add: recent_def)
  next
    case (Cons e xs)
    then have "e \<in> set ?in" by simp
    then have "now - e < w" by simp
    moreover have "int (length ?in) * g \<le> now - e" using s spaced_span [of g e xs now] by (simp add: Cons)
    ultimately show ?thesis by (simp add: recent_def)
  qed
qed

lemma paced_call:
  assumes "spaced (seconds 13) (events @ [now])"
  obtains old where "governor_admit 1 now events = Inr (old @ [now])" "spaced (seconds 13) (old @ [now])" "set old \<subseteq> set events"
proof -
  let ?old = "dropWhile (\<lambda>e. seconds horizon \<le> now - e) events"
  have p: "spaced (seconds 13) (?old @ [now])"
    using assms by (auto simp: sorted_wrt_append dest: set_dropWhileD intro: sorted_wrt_dropWhile)
  have "recent (seconds s) now ?old + 1 \<le> limit" if "(limit, s) \<in> set governor_limits" for limit s
    using spaced_recent [OF p, of "seconds s"] that by (auto simp: governor_limits_def seconds_def)
  then have "find (\<lambda>(limit, s). limit < recent (seconds s) now ?old + 1) governor_limits = None"
    by (force simp: find_None_iff not_less)
  then have "governor_admit 1 now events = Inr (?old @ [now])" by (simp add: governor_admit_def Let_def)
  then show thesis using p by (intro that [of ?old]) (auto dest: set_dropWhileD)
qed

lemma paced_log: "spaced (seconds 13) (events @ ts) \<Longrightarrow> governor_log (map (Pair 1) ts) events = ts"
proof (induction ts arbitrary: events)
  case (Cons now ts)
  then obtain old where a: "governor_admit 1 now events = Inr (old @ [now])" "spaced (seconds 13) (old @ [now])" "set old \<subseteq> set events"
    by (auto simp: sorted_wrt_append intro: paced_call [of events now])
  have "spaced (seconds 13) ((old @ [now]) @ ts)" using Cons.prems a(2,3) by (auto simp: sorted_wrt_append)
  from Cons.IH [OF this] a(1) show ?case by simp
qed simp

text \<open>
  C12: A paced caller is never refused. Single requests at least thirteen seconds apart are
  admitted every one, for however long they go on: the limits of a second, a minute, an hour
  and a day cannot starve them.
\<close>

theorem governor_admits_paced:
  assumes "sorted_wrt (\<lambda>a b. seconds 13 \<le> b - a) ts"
  shows "governor_log (map (Pair 1) ts) [] = ts"
  using paced_log [of "[]" ts] assms by simp

theorem governor_admits_paced_witness:
  "governor_log (map (Pair 1) [5, 13000005, 90000000000]) [] = [5, 13000005, 90000000000]"
  using governor_admits_paced [of "[5, 13000005, 90000000000]"] by (simp add: seconds_def)

end
