(* ===== verification/Orders.thy ===== *)
theory Orders
  imports Ledger Governor "HOL-Library.Multiset"
begin

text \<open>
  The order manager of \<open>dhan_cas_bot/orders.py\<close>: the request it builds, the
  durable rate window, submission and reconciliation against the broker's books.
  The broker's answers are arguments. A handler runs in the state monad of the
  prelude, so that what was committed before an exception stays committed.
\<close>

record oms =
  om_ledger :: ledger
  om_revision :: int

record order_request =
  rq_account :: string
  rq_correlation :: string
  rq_side :: side
  rq_segment :: string
  rq_product :: string
  rq_type :: string
  rq_validity :: string
  rq_security :: string
  rq_quantity :: int
  rq_price :: decimal
  rq_after_market :: bool

definition order_request :: "intent \<Rightarrow> string \<Rightarrow> order_request res" where
  "order_request n account =
     (let i = in_instrument n
      in if 30 < length (in_client_order_id n)
         then Inl (ContractError ''Dhan correlationId exceeds 30 characters'')
         else bindR (tick i (in_limit_price n)) (\<lambda>_.
           if freeze_qty i < in_quantity n
           then Inl (ContractError ''child order exceeds current quantity freeze'')
           else if (case lower_limit i of None \<Rightarrow> False | Some x \<Rightarrow> in_limit_price n < x)
                 \<or> (case upper_limit i of None \<Rightarrow> False | Some x \<Rightarrow> x < in_limit_price n)
           then Inl (ContractError ''order price outside instrument band'')
           else Inr \<lparr>rq_account = account, rq_correlation = in_client_order_id n, rq_side = in_side n,
                  rq_segment = ''NSE_FNO'', rq_product = ''MARGIN'', rq_type = ''LIMIT'', rq_validity = ''IOC'',
                  rq_security = security_id i, rq_quantity = in_quantity n, rq_price = in_limit_price n,
                  rq_after_market = False\<rparr>))"

text \<open>A transaction on the ledger, inside a handler.\<close>

definition onledger :: "(ledger \<Rightarrow> ('a \<times> ledger) res) \<Rightarrow> (oms, 'a) sm" where
  "onledger f = transactionS (\<lambda>s. bindR (f (om_ledger s)) (\<lambda>(x, l). Inr (x, s\<lparr>om_ledger := l\<rparr>)))"

definition account_changed :: "(oms, unit) sm" where
  "account_changed = modifyS (\<lambda>s. s\<lparr>om_revision := om_revision s + 1\<rparr>)"

section \<open>The durable rate window\<close>

definition rate_windows :: "(int \<times> int) list" where
  "rate_windows = [(1, 9), (60, 250), (3600, 1000), (86400, 7000)]"

definition open_quantity :: "ledger \<Rightarrow> int res" where
  "open_quantity l =
     bindR (mapR (\<lambda>c. bindR (lifecycle_totals (lc_id c) l) (\<lambda>t. Inr (held t)))
              (filter (\<lambda>c. lc_state c \<noteq> ''CLOSED'') (lg_lifecycles l)))
       (\<lambda>qs. Inr (sum_list qs))"

definition rate_reserve :: "intent \<Rightarrow> int \<Rightarrow> int" where
  "rate_reserve n potential =
     (let i = in_instrument n; child_size = freeze_qty i div lot_size i * lot_size i
      in if in_side n = BUY then max 1 ((potential + child_size - 1) div child_size) else 0)"

definition rate_insert :: "string \<Rightarrow> decimal \<Rightarrow> int \<Rightarrow> ledger \<Rightarrow> (unit \<times> ledger) res" where
  "rate_insert attempt_id timestamp reserve l =
     (case find (\<lambda>(s, limit). limit < recent (of_int s) timestamp (map snd (lg_rate_events l)) + 1 + reserve) rate_windows of
        Some (s, limit) \<Rightarrow> Inl (ContractError (''RATE_CAPACITY:'' @ show_int s))
      | None \<Rightarrow> bindR (insert_row fst (attempt_id, timestamp) (lg_rate_events l))
             (\<lambda>rows. Inr ((), l\<lparr>lg_rate_events := rows\<rparr>)))"

definition rate_attempt :: "intent \<Rightarrow> string \<Rightarrow> decimal \<Rightarrow> ledger \<Rightarrow> (unit \<times> ledger) res" where
  "rate_attempt n attempt_id timestamp l =
     bindR (open_quantity l) (\<lambda>opened.
       let potential = sum_by (\<lambda>r. max 0 (ir_quantity r)) (filter (\<lambda>r. ir_side r = BUY) (pending_intents l)) + opened
       in rate_insert attempt_id timestamp (rate_reserve n potential) l)"

section \<open>Submission\<close>

text \<open>What comes back from \<open>broker.submit_order\<close>: an exception with its receipt, or a value.\<close>

datatype reply = Raised py_error jrow | Replied "jrow option"

definition is_contract_error :: "py_error \<Rightarrow> bool" where
  "is_contract_error e = (case e of ContractError m \<Rightarrow> True | ReconciliationChanged m \<Rightarrow> True
     | FeedDisconnect c \<Rightarrow> True | InvalidFrame m \<Rightarrow> True | _ \<Rightarrow> False)"

text \<open>Long quantity of a contract in the broker's position book.\<close>

definition held_by_broker :: "string \<Rightarrow> jrow list \<Rightarrow> int res" where
  "held_by_broker security positions =
     bindR (mapR (\<lambda>row. jint (jget_or ''netQty'' (jget_or ''netQuantity'' (JInt 0) row) row))
              (filter (\<lambda>row. py_str (jget_or ''securityId'' JNull row) = security
                   \<and> jget_or ''exchangeSegment'' (JStr ''NSE_FNO'') row = JStr ''NSE_FNO''
                   \<and> jget_or ''productType'' (JStr ''MARGIN'') row = JStr ''MARGIN'') positions))
       (\<lambda>qs. Inr (sum_list qs))"

definition pending_sells :: "string \<Rightarrow> ledger \<Rightarrow> int" where
  "pending_sells security l =
     sum_by ir_quantity (filter (\<lambda>r. ir_side r = SELL \<and> ir_security r = security) (pending_intents l))"

definition check_sale :: "intent \<Rightarrow> jrow list res \<Rightarrow> ledger \<Rightarrow> unit res" where
  "check_sale n positions l =
     (if in_side n = SELL
      then bindR positions (\<lambda>rows.
           bindR (held_by_broker (security_id (in_instrument n)) rows) (\<lambda>available.
             guardR (in_quantity n + pending_sells (security_id (in_instrument n)) l \<le> available)
               (ContractError ''sale exceeds unreserved broker long quantity'')))
      else Inr ())"

definition check_reservation :: "intent \<Rightarrow> decimal \<Rightarrow> unit res" where
  "check_reservation n reserved =
     (if in_side n = BUY
      then bindR (worst_case_entry_cash default_fees (in_quantity n) (in_limit_price n) 1) (\<lambda>worst.
             guardR (reserve_cash worst \<le> reserved) (ContractError ''entry reservation understates worst-case debit''))
      else Inr ())"

definition claim_rate :: "intent \<Rightarrow> string \<Rightarrow> decimal \<Rightarrow> (oms, unit) sm" where
  "claim_rate n attempt_id timestamp = (\<lambda>s.
     case onledger (rate_attempt n attempt_id timestamp) s of
       (Inl e, s') \<Rightarrow>
         if is_contract_error e
         then bindS (onledger (set_intent_state (in_id n) ''ABORTED'')) (\<lambda>_. raiseS e) s'
         else (Inl e, s')
     | r \<Rightarrow> r)"

definition dispatch :: "instant \<Rightarrow> string \<Rightarrow> intent \<Rightarrow> string \<Rightarrow> reply \<Rightarrow> (oms, jrow) sm" where
  "dispatch now account n attempt_id answer =
     (case answer of
        Raised e receipt \<Rightarrow>
          bindS (onledger (record_attempt now attempt_id (in_id n) ''UNKNOWN'' receipt)) (\<lambda>_.
          bindS account_changed (\<lambda>_. raiseS e))
      | Replied response \<Rightarrow>
          bindS account_changed (\<lambda>_.
            case response of
              None \<Rightarrow> bindS (onledger (record_attempt now attempt_id (in_id n) ''UNKNOWN''
                          [(''error'', JStr ''ambiguous_response'')])) (\<lambda>_.
                       raiseS (ContractError ''broker response is ambiguous; reconciliation required''))
            | Some row \<Rightarrow>
                if \<not> truthy (jget_or ''orderId'' JNull row)
                then bindS (onledger (record_attempt now attempt_id (in_id n) ''UNKNOWN''
                          [(''error'', JStr ''ambiguous_response'')])) (\<lambda>_.
                       raiseS (ContractError ''broker response is ambiguous; reconciliation required''))
                else bindS (onledger (record_attempt now attempt_id (in_id n) ''ACCEPTED'' row)) (\<lambda>_.
                     bindS (onledger (record_order (py_str (jget_or ''orderId'' JNull row)) (in_id n) account
                        (py_str (jget_or ''orderStatus'' (JStr ''TRANSIT'') row)) row)) (\<lambda>_.
                     retS row))))"

text \<open>
  Everything \<open>submit\<close> does before it calls the broker. \<open>ready\<close> is the answer of \<open>pre_dispatch\<close>, \<open>True\<close> when there is none.
  \<open>timestamp\<close> is the clock reading of the rate window, \<open>attempt_id\<close> a fresh identity.
\<close>

definition prepare ::
  "string \<Rightarrow> instant \<Rightarrow> decimal \<Rightarrow> string \<Rightarrow> intent \<Rightarrow> decimal \<Rightarrow> bool \<Rightarrow> jrow list res \<Rightarrow> (oms, unit) sm" where
  "prepare account now timestamp attempt_id n reserved ready positions =
     bindS (liftS (order_request n account)) (\<lambda>request.
     bindS (liftS (check_reservation n reserved)) (\<lambda>_.
     bindS (guardS ready (ContractError ''entry inputs changed before dispatch'')) (\<lambda>_.
     bindS getS (\<lambda>s.
     bindS (liftS (check_sale n positions (om_ledger s))) (\<lambda>_.
     bindS (onledger (create_intent n reserved)) (\<lambda>_.
     bindS (claim_rate n attempt_id timestamp) (\<lambda>_.
     bindS (onledger (record_attempt now attempt_id (in_id n) ''STARTED'' [])) (\<lambda>_.
       account_changed))))))))"

definition submit ::
  "string \<Rightarrow> instant \<Rightarrow> decimal \<Rightarrow> string \<Rightarrow> intent \<Rightarrow> decimal \<Rightarrow> bool \<Rightarrow> jrow list res \<Rightarrow> reply \<Rightarrow> (oms, jrow) sm" where
  "submit account now timestamp attempt_id n reserved ready positions answer =
     bindS (prepare account now timestamp attempt_id n reserved ready positions)
       (\<lambda>_. dispatch now account n attempt_id answer)"

section \<open>Historical corroboration\<close>

definition charge_keys :: "string list" where
  "charge_keys = [''sebiTax'', ''stt'', ''brokerageCharges'', ''serviceTax'', ''exchangeTransactionCharges'', ''stampDuty'']"

definition has_key :: "string \<Rightarrow> jrow \<Rightarrow> bool" where
  "has_key k row = (jget k row \<noteq> None)"

text \<open>Account, contract, side, segment and product of a broker row, where it states them.\<close>

definition foreign_row :: "string \<Rightarrow> intent_row \<Rightarrow> jrow \<Rightarrow> bool" where
  "foreign_row account row trade =
     list_ex (\<lambda>(k, v). case jget k trade of None \<Rightarrow> False | Some x \<Rightarrow> py_str x \<noteq> v)
       [(''dhanClientId'', account), (''securityId'', ir_security row),
        (''transactionType'', if ir_side row = BUY then ''BUY'' else ''SELL''),
        (''exchangeSegment'', ''NSE_FNO''), (''productType'', ''MARGIN'')]"

definition nonneg_amount :: "jval \<Rightarrow> decimal res" where
  "nonneg_amount v = bindR (jdecimal v) (\<lambda>d. case d of
      NonFinite \<Rightarrow> Inl (ContractError ''invalid historical order charges'')
    | Finite x \<Rightarrow> if x < 0 then Inl (ContractError ''invalid historical order charges'') else Inr x)"

record history_sum =
  hs_quantity :: int
  hs_turnover :: decimal
  hs_fees :: decimal
  hs_complete :: bool
  hs_has_charges :: bool

definition add_history :: "string \<Rightarrow> intent_row \<Rightarrow> jrow \<Rightarrow> history_sum \<Rightarrow> history_sum res" where
  "add_history account row trade s =
     (if foreign_row account row trade then Inl (ContractError ''foreign or contradictory historical order'')
      else bindR (bindR (jindex ''tradedQuantity'' trade) jdecimal) (\<lambda>qty.
           bindR (bindR (jindex ''tradedPrice'' trade) jdecimal) (\<lambda>price.
             case (qty, price) of
               (Finite q, Finite p) \<Rightarrow>
                 if q \<le> 0 \<or> \<not> is_integral q \<or> p \<le> 0 then Inl (ContractError ''invalid historical order economics'')
                 else bindR (nonneg_amount (jget_or ''fees'' (JStr ''0'') trade)) (\<lambda>fees.
                      bindR (mapR (\<lambda>k. nonneg_amount (jget_or k (JStr ''0'') trade)) charge_keys) (\<lambda>parts.
                        Inr \<lparr>hs_quantity = hs_quantity s + \<lfloor>q\<rfloor>, hs_turnover = hs_turnover s + q * p,
                          hs_fees = hs_fees s + max fees (sum_list parts),
                          hs_complete = (hs_complete s \<and> (has_key ''fees'' trade \<or> list_all (\<lambda>k. has_key k trade) charge_keys)),
                          hs_has_charges = (hs_has_charges s
                            \<or> list_ex (\<lambda>k. has_key k trade) (''fees'' # charge_keys))\<rparr>))
             | _ \<Rightarrow> Inl (ContractError ''invalid historical order economics''))))"

definition expected_quantity :: "jrow \<Rightarrow> int \<Rightarrow> int res" where
  "expected_quantity broker_order fallback =
     jint (jget_or ''filledQty'' (jget_or ''filledQuantity'' (JInt fallback) broker_order) broker_order)"

definition confirm_historical ::
  "string \<Rightarrow> intent_row \<Rightarrow> jrow \<Rightarrow> jrow list \<Rightarrow> (oms, bool) sm" where
  "confirm_historical account row broker_order records =
     (if records = [] \<or> jget_or ''orderStatus'' JNull broker_order \<notin> JStr ` set TERMINAL then retS False
      else bindS (liftS (bindR (jindex ''orderId'' broker_order) (\<lambda>v. Inr (py_str v)))) (\<lambda>order_id.
           bindS getS (\<lambda>s.
             let known = filter (\<lambda>f. fr_order f = order_id \<and> fr_intent f = ir_id row) (lg_fills (om_ledger s));
                 quantity = sum_by fr_quantity known
             in bindS (liftS (expected_quantity broker_order
                    (if jget_or ''orderStatus'' JNull broker_order = JStr ''TRADED'' then ir_quantity row else quantity))) (\<lambda>expected.
                if quantity \<le> 0 \<or> quantity \<noteq> expected then retS False
                else bindS (liftS (foldR (add_history account row) records
                       \<lparr>hs_quantity = 0, hs_turnover = 0, hs_fees = 0, hs_complete = True, hs_has_charges = False\<rparr>)) (\<lambda>h.
                     bindS (guardS (quantity = hs_quantity h \<and> turnover_of known = hs_turnover h)
                       (ContractError ''historical order does not match recorded execution'')) (\<lambda>_.
                     bindS (whenS (hs_has_charges h)
                       (onledger (record_order_charges order_id (ir_id row) (Finite (hs_fees h)) (hs_complete h)))) (\<lambda>_.
                     retS True)))))))"

section \<open>Reconciliation\<close>

definition py_or :: "jval \<Rightarrow> jval \<Rightarrow> jval" where
  "py_or a b = (if truthy a then a else b)"

text \<open>The broker order of an intent, from the books read and what is stored (\<open>resolved\<close>).\<close>

definition by_correlation :: "jrow list \<Rightarrow> string \<Rightarrow> jrow option" where
  "by_correlation orders client =
     find (\<lambda>x. truthy (jget_or ''correlationId'' JNull x) \<and> py_str (jget_or ''correlationId'' JNull x) = client) (rev orders)"

definition by_order_id :: "jrow list \<Rightarrow> string \<Rightarrow> jrow option" where
  "by_order_id orders order_id = find (\<lambda>x. py_str (jget_or ''orderId'' JNull x) = order_id) (rev orders)"

definition resolve_order ::
  "jrow list \<Rightarrow> (string \<Rightarrow> jrow option res) option \<Rightarrow> ledger \<Rightarrow> intent_row \<Rightarrow> jrow option res" where
  "resolve_order orders lookup l row =
     (let saved = find (\<lambda>r. or_intent r = ir_id row) (lg_orders l);
          found = (case by_correlation orders (ir_client row) of
             Some x \<Rightarrow> Some x
           | None \<Rightarrow> (case saved of None \<Rightarrow> None | Some r \<Rightarrow> by_order_id orders (or_id r)));
          found = (case (found, saved) of
             (None, Some r) \<Rightarrow> if or_state r \<in> set TERMINAL then Some (or_payload r) else None
           | _ \<Rightarrow> found)
      in case (found, lookup) of
           (None, Some ask) \<Rightarrow> if ir_state row \<notin> insert ''PENDING_SEND'' (set TERMINAL_INTENT) then ask (ir_client row) else Inr None
         | _ \<Rightarrow> Inr found)"

definition trade_fill :: "instant \<Rightarrow> string \<Rightarrow> intent_row \<Rightarrow> jrow \<Rightarrow> fill res" where
  "trade_fill now order_id row trade =
     (let trade_id = py_str (py_or (jget_or ''exchangeTradeId'' JNull trade) (py_or (jget_or ''tradeId'' JNull trade) (JStr [])))
      in bindR (jamount (jget_or ''fees'' (JStr ''0'') trade)) (\<lambda>fees.
         bindR (mapR (\<lambda>k. jamount (jget_or k (JStr ''0'') trade)) charge_keys) (\<lambda>parts.
         bindR (bindR (jindex ''tradedQuantity'' trade) jint) (\<lambda>quantity.
         bindR (bindR (jindex ''tradedPrice'' trade) jamount) (\<lambda>price.
           check_fill \<lparr>f_trade_id = trade_id, f_order_id = order_id, f_security_id = ir_security row,
             f_quantity = quantity, f_price = price, f_fees = max fees (sum_list parts), f_occurred_at = now\<rparr>)))))"

definition apply_trade :: "instant \<Rightarrow> string \<Rightarrow> string \<Rightarrow> intent_row \<Rightarrow> jrow \<Rightarrow> (oms, unit) sm" where
  "apply_trade now account order_id row trade =
     (if py_str (jget_or ''orderId'' JNull trade) \<noteq> order_id then retS ()
      else bindS (guardS (\<not> foreign_row account row trade) (ContractError ''foreign or contradictory broker fill'')) (\<lambda>_.
           bindS (liftS (trade_fill now order_id row trade)) (\<lambda>f.
           bindS (onledger (record_fill_once f (ir_id row))) (\<lambda>_. retS ()))))"

definition settle_intent :: "string \<Rightarrow> intent_row \<Rightarrow> jrow \<Rightarrow> (oms, unit) sm" where
  "settle_intent order_id row broker_order =
     bindS getS (\<lambda>s.
       let filled = filled_quantity (ir_id row) (om_ledger s)
       in bindS (liftS (case row_with or_id order_id (lg_orders (om_ledger s)) of
                   None \<Rightarrow> Inl TypeError | Some r \<Rightarrow> Inr (or_state r))) (\<lambda>state.
          bindS (liftS (expected_quantity broker_order (if state = ''TRADED'' then ir_quantity row else filled))) (\<lambda>expected.
          bindS (guardS (\<not> (ir_quantity row < expected \<or> ir_quantity row < filled))
             (ContractError ''broker fill exceeds submitted quantity'')) (\<lambda>_.
          whenS (state \<in> set TERMINAL \<and> expected \<le> filled)
            (onledger (set_intent_state (ir_id row) (if filled = ir_quantity row then ''FILLED'' else state)))))))"

definition apply_order ::
  "instant \<Rightarrow> string \<Rightarrow> jrow list \<Rightarrow> jrow list \<Rightarrow> intent_row \<Rightarrow> jrow \<Rightarrow> (oms, unit) sm" where
  "apply_order now account trades historical row broker_order =
     (let order_id = py_str (jget_or ''orderId'' (JStr []) broker_order)
      in bindS (guardS (order_id \<noteq> []) (ContractError ''broker order has no identity'')) (\<lambda>_.
         bindS (guardS (\<not> foreign_row account row broker_order) (ContractError ''foreign or contradictory broker order'')) (\<lambda>_.
         bindS (onledger (record_order order_id (ir_id row) account
            (py_str (jget_or ''orderStatus'' (JStr ''UNKNOWN'') broker_order)) broker_order)) (\<lambda>_.
           let earlier = filter (\<lambda>t. py_str (jget_or ''orderId'' JNull t) = order_id) historical
           in bindS (confirm_historical account row broker_order earlier) (\<lambda>confirmed.
              bindS (iterS (apply_trade now account order_id row) (trades @ (if confirmed then [] else earlier))) (\<lambda>_.
              settle_intent order_id row broker_order))))))"

definition apply_intent ::
  "instant \<Rightarrow> string \<Rightarrow> jrow list \<Rightarrow> jrow list \<Rightarrow> (string \<Rightarrow> jrow option) \<Rightarrow> intent_row \<Rightarrow> (oms, unit) sm" where
  "apply_intent now account trades historical resolved row =
     (case resolved (ir_id row) of
        None \<Rightarrow> bindS getS (\<lambda>s.
          whenS (ir_state row = ''PENDING_SEND'' \<and> \<not> list_ex (\<lambda>a. at_intent a = ir_id row) (lg_attempts (om_ledger s)))
            (onledger (set_intent_state (ir_id row) ''ABORTED'')))
      | Some broker_order \<Rightarrow> apply_order now account trades historical row broker_order)"

text \<open>
  The part of \<open>reconcile\<close> under the order lock. \<open>revision\<close>, \<open>rows\<close> and \<open>resolved\<close>
  were read before it, while submissions could interleave.
\<close>

record snapshot =
  sn_revision :: int
  sn_positions :: "jrow list"
  sn_unresolved :: bool

definition reconcile_commit ::
  "instant \<Rightarrow> string \<Rightarrow> int \<Rightarrow> intent_row list \<Rightarrow> (string \<Rightarrow> jrow option) \<Rightarrow> jrow list \<Rightarrow> jrow list \<Rightarrow> jrow list
   \<Rightarrow> (oms, snapshot) sm" where
  "reconcile_commit now account revision rows resolved trades historical positions =
     bindS getS (\<lambda>s.
     bindS (guardS (revision = om_revision s) (ReconciliationChanged ''order state changed while reading account'')) (\<lambda>_.
     bindS account_changed (\<lambda>_.
     bindS (iterS (apply_intent now account trades historical resolved) rows) (\<lambda>_.
     bindS getS (\<lambda>s'.
       retS \<lparr>sn_revision = om_revision s', sn_positions = positions,
             sn_unresolved = (pending_intents (om_ledger s') \<noteq> [])\<rparr>)))))"

section \<open>Handlers as ledger transitions\<close>

definition ledger_runs :: "oms \<Rightarrow> oms \<Rightarrow> bool" where
  "ledger_runs s s' = ledger_step\<^sup>*\<^sup>* (om_ledger s) (om_ledger s')"

interpretation runs: step_closed ledger_runs
  by unfold_locales (auto simp: ledger_runs_def)

lemma runs_onledger:
  assumes "\<And>l x l'. f l = Inr (x, l') \<Longrightarrow> ledger_step\<^sup>*\<^sup>* l l'"
  shows "always ledger_runs (onledger f)"
  unfolding onledger_def
  by (rule runs.always_transaction) (auto simp: ledger_runs_def bindR_Inr_iff dest: assms)

lemma runs_account_changed: "always ledger_runs account_changed"
  by (auto simp: always_def account_changed_def ledger_runs_def)

lemma rate_attempt_step: "rate_attempt n a ts l = Inr (u, l') \<Longrightarrow> ledger_step l l'"
proof -
  assume "rate_attempt n a ts l = Inr (u, l')"
  then obtain rows where "l' = l\<lparr>lg_rate_events := rows\<rparr>"
    by (auto simp: rate_attempt_def rate_insert_def bindR_Inr_iff Let_def split: option.splits)
  moreover have "ledger_step l (l\<lparr>lg_rate_events := rows, lg_lifecycles := lg_lifecycles l, lg_consumed := lg_consumed l,
      lg_depth_debits := lg_depth_debits l, lg_postings := lg_postings l, lg_settlements := lg_settlements l\<rparr>)"
    by (rule ledger_step.bookkeeping)
  ultimately show ?thesis by simp
qed

lemma runs_claim_rate: "always ledger_runs (claim_rate n a ts)"
proof (rule alwaysI)
  fix s r s' assume run: "claim_rate n a ts s = (r, s')"
  have first: "always ledger_runs (onledger (rate_attempt n a ts))"
    by (rule runs_onledger) (blast intro: rate_attempt_step)
  have abort: "always ledger_runs (bindS (onledger (set_intent_state (in_id n) ''ABORTED'')) (\<lambda>_. raiseS e))" for e
    by (intro runs.always_rules runs_onledger) (blast intro: ledger_step.state)
  obtain v t where m: "onledger (rate_attempt n a ts) s = (v, t)" by force
  then have "ledger_runs s t" by (rule alwaysD [OF first])
  with run m show "ledger_runs s s'"
    by (auto simp: claim_rate_def split: sum.splits if_splits intro: runs.trans dest: alwaysD [OF abort])
qed

lemmas runs_intros = runs.always_rules runs_onledger runs_account_changed runs_claim_rate

lemma runs_prepare:
  assumes "check_intent n = Inr n"
  shows "always ledger_runs (prepare account now ts a n reserved ready positions)"
  unfolding prepare_def
  by (intro runs_intros) (blast intro: ledger_step.intent [OF assms] ledger_step.attempt)+

lemma runs_dispatch: "always ledger_runs (dispatch now account n a answer)"
  unfolding dispatch_def
  by (cases answer) (auto intro!: runs_intros split: option.splits intro: ledger_step.attempt ledger_step.order)

lemma runs_submit:
  "check_intent n = Inr n \<Longrightarrow> always ledger_runs (submit account now ts a n reserved ready positions answer)"
  unfolding submit_def by (intro runs.always_bind runs_prepare runs_dispatch)

lemma runs_charges: "always ledger_runs (onledger (record_order_charges oid iid fees c))"
  by (rule runs_onledger) (blast intro: ledger_step.charges)

lemma runs_confirm: "always ledger_runs (confirm_historical account row b records)"
  unfolding confirm_historical_def Let_def
  by (intro runs.always_rules runs_charges)

lemma trade_fill_checked: "trade_fill now oid row trade = Inr f \<Longrightarrow> check_fill f = Inr f"
  by (auto simp: trade_fill_def Let_def bindR_Inr_iff check_fill_def split: if_splits)

lemma bind_lift: "bindS (liftS v) f s = (case v of Inl e \<Rightarrow> (Inl e, s) | Inr x \<Rightarrow> f x s)"
  by (simp add: bindS_def)

lemma always_bind_lift:
  "(\<And>x. v = Inr x \<Longrightarrow> always ledger_runs (f x)) \<Longrightarrow> always ledger_runs (bindS (liftS v) f)"
  by (auto simp: always_def bind_lift ledger_runs_def split: sum.splits)

lemma runs_apply_trade: "always ledger_runs (apply_trade now account oid row trade)"
  unfolding apply_trade_def
  by (auto intro!: runs.always_ret runs.always_bind [OF runs.always_guard] always_bind_lift runs.always_bind
      runs_onledger intro: ledger_step.fill [OF trade_fill_checked])

lemma runs_settle: "always ledger_runs (settle_intent oid row b)"
  unfolding settle_intent_def Let_def by (intro runs_intros) (blast intro: ledger_step.state)

lemma runs_apply_order: "always ledger_runs (apply_order now account trades historical row b)"
  unfolding apply_order_def Let_def
  by (intro runs_intros runs_confirm runs_apply_trade runs_settle) (blast intro: ledger_step.order)

lemma runs_apply_intent: "always ledger_runs (apply_intent now account trades historical resolved row)"
  unfolding apply_intent_def
  by (cases "resolved (ir_id row)") (auto intro!: runs_intros runs_apply_order intro: ledger_step.state)

lemma runs_reconcile: "always ledger_runs (reconcile_commit now account revision rows resolved trades historical positions)"
  unfolding reconcile_commit_def
  by (intro runs_intros runs_apply_intent)

text \<open>The well-formedness and durability of the ledger carry over to both handlers.\<close>

lemma runs_wf: "ledger_runs s s' \<Longrightarrow> wf_ledger (om_ledger s) \<Longrightarrow> wf_ledger (om_ledger s')"
  unfolding ledger_runs_def by (induction rule: rtranclp_induct) (auto intro: ledger_step_wf)

lemma runs_extends: "ledger_runs s s' \<Longrightarrow> extends (om_ledger s) (om_ledger s')"
  unfolding ledger_runs_def by (induction rule: rtranclp_induct) (auto intro: extends_trans ledger_step_extends)

section \<open>Submission\<close>

lemma onledger_run:
  "onledger f s = (case f (om_ledger s) of Inl e \<Rightarrow> (Inl e, s) | Inr (x, l) \<Rightarrow> (Inr x, s\<lparr>om_ledger := l\<rparr>))"
  by (simp add: onledger_def transactionS_run split: sum.splits)

lemma bindS_Inr: "bindS m f s = (Inr y, u) \<longleftrightarrow> (\<exists>x t. m s = (Inr x, t) \<and> f x t = (Inr y, u))"
  by (auto simp: bindS_run split: prod.splits sum.splits)

lemma onledger_Inr: "onledger f s = (Inr x, t) \<longleftrightarrow> (\<exists>l. f (om_ledger s) = Inr (x, l) \<and> t = s\<lparr>om_ledger := l\<rparr>)"
  by (auto simp: onledger_run split: sum.splits)

lemma claim_rate_Inr: "claim_rate n a ts s = (Inr u, t) \<longleftrightarrow> (\<exists>l. rate_attempt n a ts (om_ledger s) = Inr (u, l) \<and> t = s\<lparr>om_ledger := l\<rparr>)"
  by (auto simp: claim_rate_def onledger_run bindS_run set_intent_state_def split: sum.splits)

lemma prepare_Inr:
  assumes "prepare account now ts a n reserved ready positions s = (Inr u, s1)"
  obtains rq l1 l2 l3 where "order_request n account = Inr rq" "check_reservation n reserved = Inr ()" "ready"
    "check_sale n positions (om_ledger s) = Inr ()" "create_intent n reserved (om_ledger s) = Inr ((), l1)"
    "rate_attempt n a ts l1 = Inr ((), l2)" "record_attempt now a (in_id n) ''STARTED'' [] l2 = Inr ((), l3)"
    "s1 = s\<lparr>om_ledger := l3, om_revision := om_revision s + 1\<rparr>"
  using assms
  by (auto simp: prepare_def bindS_Inr onledger_Inr claim_rate_Inr account_changed_def guardR_Inr_iff)

definition new_row :: "intent \<Rightarrow> decimal \<Rightarrow> string \<Rightarrow> intent_row" where
  "new_row n reserved state = \<lparr>ir_id = in_id n, ir_client = in_client_order_id n, ir_lifecycle = in_lifecycle_id n,
     ir_side = in_side n, ir_security = security_id (in_instrument n), ir_quantity = in_quantity n,
     ir_price = in_limit_price n, ir_state = state, ir_reserved = reserved, ir_payload = n, ir_created = in_created_at n\<rparr>"

lemma new_row_simps [simp]:
  "ir_id (new_row n r st) = in_id n" "ir_state (new_row n r st) = st" "ir_side (new_row n r st) = in_side n"
  "ir_security (new_row n r st) = security_id (in_instrument n)" "ir_quantity (new_row n r st) = in_quantity n"
  "ir_reserved (new_row n r st) = r" "with_state st' (new_row n r st) = new_row n r st'"
  "ir_price (new_row n r st) = in_limit_price n" "ir_lifecycle (new_row n r st) = in_lifecycle_id n"
  by (simp_all add: new_row_def with_state_def)

lemma create_intent_Inr:
  "create_intent n reserved l = Inr (u, l') \<Longrightarrow>
     l' = l\<lparr>lg_intents := lg_intents l @ [new_row n reserved ''PENDING_SEND'']\<rparr> \<and> in_id n \<notin> ir_id ` set (lg_intents l)"
  by (auto simp: create_intent_def bindR_Inr_iff insert_row_def new_row_def row_with_None split: if_splits)

lemma rate_reserve_nonneg: "0 \<le> rate_reserve n potential"
  by (auto simp: rate_reserve_def Let_def le_max_iff_disj)

lemma rate_insert_Inr:
  assumes "rate_insert a ts reserve l = Inr (u, l')" "0 \<le> reserve"
  shows "l' = l\<lparr>lg_rate_events := lg_rate_events l @ [(a, ts)]\<rparr>" "a \<notin> fst ` set (lg_rate_events l)"
    "\<forall>(w, limit) \<in> set rate_windows. recent (of_int w) ts (map snd (lg_rate_events l)) + 1 + reserve \<le> limit"
proof -
  have none: "find (\<lambda>(s, limit). limit < recent (of_int s) ts (map snd (lg_rate_events l)) + 1 + reserve) rate_windows = None"
    using assms(1) by (auto simp: rate_insert_def split: option.splits)
  then show "l' = l\<lparr>lg_rate_events := lg_rate_events l @ [(a, ts)]\<rparr>" "a \<notin> fst ` set (lg_rate_events l)"
    using assms(1) by (auto simp: rate_insert_def insert_row_def bindR_Inr_iff row_with_None split: if_splits)
  from none show "\<forall>(w, limit) \<in> set rate_windows. recent (of_int w) ts (map snd (lg_rate_events l)) + 1 + reserve \<le> limit"
    by (auto simp: find_None_iff not_less)
qed

lemma rate_attempt_Inr:
  assumes "rate_attempt n a ts l = Inr (u, l')"
  shows "l' = l\<lparr>lg_rate_events := lg_rate_events l @ [(a, ts)]\<rparr>" "a \<notin> fst ` set (lg_rate_events l)"
proof -
  obtain potential where "rate_insert a ts (rate_reserve n potential) l = Inr (u, l')"
    using assms by (auto simp: rate_attempt_def bindR_Inr_iff Let_def)
  from rate_insert_Inr [OF this rate_reserve_nonneg]
  show "l' = l\<lparr>lg_rate_events := lg_rate_events l @ [(a, ts)]\<rparr>" "a \<notin> fst ` set (lg_rate_events l)" by simp_all
qed

lemma update_fresh:
  "i \<notin> ir_id ` set rows \<Longrightarrow> ir_id r = i \<Longrightarrow>
   update_where (\<lambda>x. ir_id x = i) (with_state st) (rows @ [r]) = rows @ [with_state st r]"
  unfolding update_where_def map_append by (subst map_idI) (auto simp: image_iff)

lemma prepare_rows:
  assumes "prepare account now ts a n reserved ready positions s = (Inr u, s1)"
  shows "lg_intents (om_ledger s1) = lg_intents (om_ledger s) @ [new_row n reserved ''SEND_UNKNOWN'']"
    "in_id n \<notin> ir_id ` set (lg_intents (om_ledger s))"
    "lg_rate_events (om_ledger s1) = lg_rate_events (om_ledger s) @ [(a, ts)]"
    "lg_attempts (om_ledger s1) = upsert_row at_id (\<lambda>old r. old\<lparr>at_state := at_state r, at_response := at_response r\<rparr>)
       \<lparr>at_id = a, at_intent = in_id n, at_sent = now, at_state = ''STARTED'', at_response = []\<rparr> (lg_attempts (om_ledger s))"
    "lg_orders (om_ledger s1) = lg_orders (om_ledger s)" "lg_fills (om_ledger s1) = lg_fills (om_ledger s)"
    "lg_incidents (om_ledger s1) = lg_incidents (om_ledger s)"
    "om_revision s1 = om_revision s + 1"
proof -
  obtain rq l1 l2 l3 where run: "order_request n account = Inr rq" "check_reservation n reserved = Inr ()" "ready"
    "check_sale n positions (om_ledger s) = Inr ()" "create_intent n reserved (om_ledger s) = Inr ((), l1)"
    "rate_attempt n a ts l1 = Inr ((), l2)" "record_attempt now a (in_id n) ''STARTED'' [] l2 = Inr ((), l3)"
    "s1 = s\<lparr>om_ledger := l3, om_revision := om_revision s + 1\<rparr>"
    by (rule prepare_Inr [OF assms])
  note facts = create_intent_Inr [OF run(5)] rate_attempt_Inr [OF run(6)]
  show "in_id n \<notin> ir_id ` set (lg_intents (om_ledger s))" using facts by blast
  then show "lg_intents (om_ledger s1) = lg_intents (om_ledger s) @ [new_row n reserved ''SEND_UNKNOWN'']"
    "lg_rate_events (om_ledger s1) = lg_rate_events (om_ledger s) @ [(a, ts)]"
    "lg_attempts (om_ledger s1) = upsert_row at_id (\<lambda>old r. old\<lparr>at_state := at_state r, at_response := at_response r\<rparr>)
       \<lparr>at_id = a, at_intent = in_id n, at_sent = now, at_state = ''STARTED'', at_response = []\<rparr> (lg_attempts (om_ledger s))"
    "lg_orders (om_ledger s1) = lg_orders (om_ledger s)" "lg_fills (om_ledger s1) = lg_fills (om_ledger s)"
    "lg_incidents (om_ledger s1) = lg_incidents (om_ledger s)"
    "om_revision s1 = om_revision s + 1"
    using facts run(7,8) by (auto simp: record_attempt_def update_fresh encode_row_def)
qed

definition answer_state :: "reply \<Rightarrow> string" where
  "answer_state answer =
     (case answer of
        Replied (Some row) \<Rightarrow> if truthy (jget_or ''orderId'' JNull row) then ''SENT'' else ''SEND_UNKNOWN''
      | _ \<Rightarrow> ''SEND_UNKNOWN'')"

lemma record_attempt_rows:
  "record_attempt now a i st resp l = Inr (u, l') \<Longrightarrow>
   lg_intents l' = update_where (\<lambda>r. ir_id r = i) (with_state (if st \<in> {''STARTED'', ''UNKNOWN''} then ''SEND_UNKNOWN'' else ''SENT'')) (lg_intents l)"
  by (auto simp: record_attempt_def)

lemma record_order_rows:
  assumes "record_order oid iid account st payload l = Inr (u, l')"
    and "r \<in> set (lg_intents l)" "ir_state r \<noteq> ''RECOVERY_CLOSED''"
  shows "r \<in> set (lg_intents l')"
  using assms
  by (force simp: record_order_def reopen_recovery_closed_def Let_def set_update_where split: option.splits if_splits)

lemma dispatch_row:
  assumes "dispatch now account n a answer s = (r, s')" and "new_row n reserved st \<in> set (lg_intents (om_ledger s))"
  shows "new_row n reserved (answer_state answer) \<in> set (lg_intents (om_ledger s'))"
    "om_revision s' = om_revision s + 1"
proof -
  have mem: "new_row n reserved st' \<in> set (update_where (\<lambda>x. ir_id x = in_id n) (with_state st') (lg_intents (om_ledger s)))" for st'
    using assms(2) by (force simp: set_update_where image_iff)
  have "new_row n reserved (answer_state answer) \<in> set (lg_intents (om_ledger s')) \<and> om_revision s' = om_revision s + 1"
  proof (cases "answer_state answer = ''SENT''")
    case False
    then show ?thesis
      using assms(1) mem [of "''SEND_UNKNOWN''"]
      by (auto simp: dispatch_def answer_state_def bindS_run onledger_run record_attempt_def account_changed_def
          split: reply.splits option.splits if_splits)
  next
    case True
    then obtain row where row: "answer = Replied (Some row)" "truthy (jget_or ''orderId'' JNull row)"
      by (auto simp: answer_state_def split: reply.splits option.splits if_splits)
    define t where "t = s\<lparr>om_revision := om_revision s + 1, om_ledger := (om_ledger s)\<lparr>
        lg_attempts := upsert_row at_id (\<lambda>old r. old\<lparr>at_state := at_state r, at_response := at_response r\<rparr>)
          \<lparr>at_id = a, at_intent = in_id n, at_sent = now, at_state = ''ACCEPTED'', at_response = encode_row row\<rparr> (lg_attempts (om_ledger s)),
        lg_intents := update_where (\<lambda>x. ir_id x = in_id n) (with_state ''SENT'') (lg_intents (om_ledger s))\<rparr>\<rparr>"
    have in_t: "new_row n reserved ''SENT'' \<in> set (lg_intents (om_ledger t))" using mem by (simp add: t_def)
    have "dispatch now account n a answer s = bindS (onledger (record_order (py_str (jget_or ''orderId'' JNull row)) (in_id n) account
              (py_str (jget_or ''orderStatus'' (JStr ''TRANSIT'') row)) row)) (\<lambda>_. retS row) t"
      using row by (simp add: dispatch_def bindS_run onledger_run record_attempt_def account_changed_def t_def split: sum.splits)
    with assms(1) have "s' = t \<or> (\<exists>l. record_order (py_str (jget_or ''orderId'' JNull row)) (in_id n) account
              (py_str (jget_or ''orderStatus'' (JStr ''TRANSIT'') row)) row (om_ledger t) = Inr ((), l) \<and> s' = t\<lparr>om_ledger := l\<rparr>)"
      by (auto simp: bindS_run onledger_run split: sum.splits prod.splits)
    moreover have "om_revision t = om_revision s + 1" by (simp add: t_def)
    ultimately show ?thesis
      using in_t record_order_rows [of _ _ _ _ _ "om_ledger t" "()" _ "new_row n reserved ''SENT''"]
      by (auto simp: True)
  qed
  then show "new_row n reserved (answer_state answer) \<in> set (lg_intents (om_ledger s'))"
    "om_revision s' = om_revision s + 1" by simp_all
qed

text \<open>The row of the attempt, and what the broker's answer makes of it.\<close>

definition attempt_row :: "intent \<Rightarrow> string \<Rightarrow> instant \<Rightarrow> string \<Rightarrow> jrow \<Rightarrow> attempt_row" where
  "attempt_row n a now state response = \<lparr>at_id = a, at_intent = in_id n, at_sent = now, at_state = state, at_response = encode_row response\<rparr>"

definition answered :: "reply \<Rightarrow> string \<times> jrow" where
  "answered answer =
     (case answer of
        Raised e receipt \<Rightarrow> (''UNKNOWN'', receipt)
      | Replied (Some row) \<Rightarrow> if truthy (jget_or ''orderId'' JNull row) then (''ACCEPTED'', row)
          else (''UNKNOWN'', [(''error'', JStr ''ambiguous_response'')])
      | Replied None \<Rightarrow> (''UNKNOWN'', [(''error'', JStr ''ambiguous_response'')]))"

lemma upsert_fresh: "at_id r \<notin> at_id ` set rows \<Longrightarrow> upsert_row at_id f r rows = rows @ [r]"
  by (simp add: upsert_row_def row_with_None)

lemma upsert_last:
  assumes "a \<notin> at_id ` set rows"
  shows "upsert_row at_id (\<lambda>old r. old\<lparr>at_state := at_state r, at_response := at_response r\<rparr>)
    (attempt_row n a now st' resp') (rows @ [attempt_row n a now st resp]) = rows @ [attempt_row n a now st' resp']"
proof -
  have "row_with at_id a (rows @ [attempt_row n a now st resp]) \<noteq> None"
    by (auto simp: row_with_None attempt_row_def)
  moreover have "update_where (\<lambda>x. at_id x = a) g rows = rows" for g :: "attempt_row \<Rightarrow> attempt_row"
    unfolding update_where_def using assms by (intro map_idI) auto
  moreover have "update_where p g (xs @ ys) = update_where p g xs @ update_where p g ys" for p and g :: "attempt_row \<Rightarrow> attempt_row" and xs ys
    by (simp add: update_where_def)
  ultimately show ?thesis
    by (cases "row_with at_id a (rows @ [attempt_row n a now st resp])")
      (simp_all add: upsert_row_def attempt_row_def, simp add: update_where_def)
qed

lemma record_order_attempts: "record_order oid i account st payload l = Inr (u, l') \<Longrightarrow> lg_attempts l' = lg_attempts l"
  by (auto simp: record_order_def reopen_recovery_closed_def Let_def split: option.splits if_splits)

lemma dispatch_attempt:
  assumes "dispatch now account n a answer s = (r, s')"
    and rows: "lg_attempts (om_ledger s) = rows @ [attempt_row n a now st resp]" and fresh: "a \<notin> at_id ` set rows"
  shows "lg_attempts (om_ledger s') = rows @ [attempt_row n a now (fst (answered answer)) (snd (answered answer))]"
proof -
  have up: "upsert_row at_id (\<lambda>old r. old\<lparr>at_state := at_state r, at_response := at_response r\<rparr>)
      \<lparr>at_id = a, at_intent = in_id n, at_sent = now, at_state = st', at_response = encode_row resp'\<rparr> (lg_attempts (om_ledger s))
    = rows @ [attempt_row n a now st' resp']" for st' resp'
    using upsert_last [OF fresh, of n now st' resp' st resp] rows by (simp add: attempt_row_def)
  show ?thesis
    using assms(1)
    by (auto simp: dispatch_def answered_def bindS_run onledger_run account_changed_def record_attempt_def up
        split: reply.splits option.splits if_splits sum.splits prod.splits dest!: record_order_attempts)
qed

lemma pending_of: "r \<in> set (lg_intents l) \<Longrightarrow> ir_state r \<in> {''SEND_UNKNOWN'', ''SENT'', ''PENDING_SEND''} \<Longrightarrow> r \<in> set (pending_intents l)"
  by (auto simp: pending_intents_def recovery_closed_valid_def TERMINAL_INTENT_def)

lemma sum_by_sort_key: "sum_by f (sort_key k xs) = sum_by f xs"
proof -
  have "sum_mset (image_mset f (mset (sort_key k xs))) = sum_mset (image_mset f (mset xs))" by simp
  then show ?thesis by (simp only: sum_by_def mset_map [symmetric] sum_mset_sum_list)
qed

lemma pending_sells_append:
  assumes "lg_intents l' = lg_intents l @ [r]" "lg_orders l' = lg_orders l" "lg_fills l' = lg_fills l"
    "lg_incidents l' = lg_incidents l"
    and "ir_side r = SELL" "ir_security r = security" "ir_state r = ''SEND_UNKNOWN''"
  shows "pending_sells security l' = pending_sells security l + ir_quantity r"
proof -
  have valid: "recovery_closed_valid l' = recovery_closed_valid l"
    using assms(2-4) by (auto simp: recovery_closed_valid_def fun_eq_iff)
  have pend: "pending_sells security m = sum_by ir_quantity (filter (\<lambda>r. ir_side r = SELL \<and> ir_security r = security)
      (filter (\<lambda>r. \<not> recovery_closed_valid m r) (filter (\<lambda>r. ir_state r \<notin> set TERMINAL_INTENT) (lg_intents m))))" for m
    by (simp only: pending_sells_def pending_intents_def filter_sort sum_by_sort_key)
  have "\<not> recovery_closed_valid l r" using assms(7) by (simp add: recovery_closed_valid_def)
  then show ?thesis
    using assms(5-7) by (simp add: pend valid assms(1) TERMINAL_INTENT_def)
qed

section \<open>The order manager as a transition system\<close>

text \<open>
  Submissions and reconciliation commits, in any order. The rows a commit works
  from were read from the same ledger, possibly earlier.
\<close>

inductive om_step :: "oms \<Rightarrow> oms \<Rightarrow> bool" where
  submission: "check_intent n = Inr n \<Longrightarrow> submit account now ts a n reserved ready positions answer s = (r, s') \<Longrightarrow> om_step s s'"
| reconciliation: "set (map core rows) \<subseteq> set (map core (lg_intents (om_ledger s)))
    \<Longrightarrow> reconcile_commit now account revision rows resolved trades historical positions s = (r', s') \<Longrightarrow> om_step s s'"

inductive_cases om_stepE: "om_step s s'"

text \<open>The account revision only grows.\<close>

definition revision_grows :: "oms \<Rightarrow> oms \<Rightarrow> bool" where
  "revision_grows s s' = (om_revision s \<le> om_revision s')"

interpretation rev: step_closed revision_grows
  by unfold_locales (auto simp: revision_grows_def)

lemma rev_onledger: "always revision_grows (onledger f)"
  by (auto simp: always_def onledger_run revision_grows_def split: sum.splits)

lemma rev_account_changed: "always revision_grows account_changed"
  by (auto simp: always_def account_changed_def revision_grows_def)

lemma rev_claim_rate: "always revision_grows (claim_rate n a ts)"
  by (auto simp: always_def claim_rate_def onledger_run bindS_run set_intent_state_def revision_grows_def split: sum.splits if_splits)

lemmas rev_intros = rev.always_rules rev_onledger rev_account_changed rev_claim_rate

lemma rev_dispatch: "always revision_grows (dispatch now account n a answer)"
  unfolding dispatch_def by (cases answer) (auto intro!: rev_intros split: option.splits)

lemma rev_submit: "always revision_grows (submit account now ts a n reserved ready positions answer)"
  unfolding submit_def prepare_def by (intro rev_intros rev_dispatch)

lemma rev_apply_intent: "always revision_grows (apply_intent now account trades historical resolved row)"
  unfolding apply_intent_def apply_order_def apply_trade_def confirm_historical_def settle_intent_def Let_def
  by (cases "resolved (ir_id row)") (auto simp del: if_split intro!: rev_intros)

lemma rev_reconcile: "always revision_grows (reconcile_commit now account revision rows resolved trades historical positions)"
  unfolding reconcile_commit_def by (intro rev_intros rev_apply_intent)

lemma om_step_revision: "om_step s s' \<Longrightarrow> om_revision s \<le> om_revision s'"
  by (auto simp: revision_grows_def elim!: om_stepE dest!: alwaysD [OF rev_submit] alwaysD [OF rev_reconcile])

lemma om_steps_revision: "om_step\<^sup>*\<^sup>* s s' \<Longrightarrow> om_revision s \<le> om_revision s'"
  by (induction rule: rtranclp_induct) (auto dest: om_step_revision)

lemma om_step_runs: "om_step s s' \<Longrightarrow> ledger_runs s s'"
  by (auto elim!: om_stepE dest: alwaysD [OF runs_submit] alwaysD [OF runs_reconcile])

lemma om_steps_wf: "om_step\<^sup>*\<^sup>* s s' \<Longrightarrow> wf_ledger (om_ledger s) \<Longrightarrow> wf_ledger (om_ledger s')"
  by (induction rule: rtranclp_induct) (auto intro: runs_wf om_step_runs)

section \<open>FILLED means filled\<close>

definition filled_ok :: "ledger \<Rightarrow> bool" where
  "filled_ok l = (wf_ledger l \<and> (\<forall>r \<in> set (lg_intents l). ir_state r = ''FILLED'' \<longrightarrow> filled_quantity (ir_id r) l = ir_quantity r))"

text \<open>Any ledger step that sets no intent to \<open>FILLED\<close> keeps the invariant.\<close>

lemma filled_quantity_correct:
  "known_fill f (lg_fills l) = Some old \<Longrightarrow>
   filled_quantity i (l\<lparr>lg_fills := update_where (\<lambda>r. fr_key r = fr_key old) (correct_fill f) (lg_fills l)\<rparr>) = filled_quantity i l"
  by (simp add: filled_quantity_def filter_update_where sum_by_update_where)

lemma filled_quantity_grows:
  assumes "ledger_step l l'"
  shows "filled_quantity i l \<le> filled_quantity i l'"
  using assms
proof (cases rule: ledger_step.cases)
  case (fill f iid b)
  show ?thesis
  proof (cases "known_fill f (lg_fills l)")
    case (Some old)
    then show ?thesis using fill(2) filled_quantity_correct [OF Some, of i]
      by (auto simp: record_fill_once_def split: if_splits)
  next
    case None
    have "0 < f_quantity f" using fill(1) by (auto simp: check_fill_def split: if_splits)
    with None fill(2) show ?thesis
      by (auto simp: record_fill_once_def Let_def insert_ignore_def filled_quantity_def split: option.splits if_splits)
  qed
next
  case (order oid iid acc st payload u)
  then show ?thesis using same_record_order by (simp add: filled_quantity_def)
next
  case (charges oid iid fees c u)
  then show ?thesis using same_charges by (simp add: filled_quantity_def)
qed (auto simp: plain_write_defs create_intent_def filled_quantity_def split: option.splits if_splits)

lemma filled_ok_keep:
  assumes ok: "filled_ok l" and step: "ledger_step l l'"
    and keep: "\<And>r. r \<in> set (lg_intents l') \<Longrightarrow> ir_state r = ''FILLED'' \<Longrightarrow> r \<in> set (lg_intents l)"
  shows "filled_ok l'"
proof -
  have wf: "wf_ledger l'" using ok step by (auto simp: filled_ok_def intro: ledger_step_wf)
  have "filled_quantity (ir_id r) l' = ir_quantity r" if r: "r \<in> set (lg_intents l')" "ir_state r = ''FILLED''" for r
  proof (rule antisym)
    show "filled_quantity (ir_id r) l' \<le> ir_quantity r"
      using wf r(1) by (auto simp: wf_ledger_def fills_wf_def filled_quantity_def)
    have "filled_quantity (ir_id r) l = ir_quantity r" using ok keep [OF r] r(2) by (simp add: filled_ok_def)
    then show "ir_quantity r \<le> filled_quantity (ir_id r) l'"
      using filled_quantity_grows [OF step, of "ir_id r"] by simp
  qed
  with wf show ?thesis by (simp add: filled_ok_def)
qed

definition filled_runs :: "intent_row list \<Rightarrow> oms \<Rightarrow> oms \<Rightarrow> bool" where
  "filled_runs rows s s' =
     (filled_ok (om_ledger s) \<and> set (map core rows) \<subseteq> set (map core (lg_intents (om_ledger s))) \<longrightarrow>
      filled_ok (om_ledger s') \<and> set (map core rows) \<subseteq> set (map core (lg_intents (om_ledger s'))))"

interpretation filled: step_closed "filled_runs rows" for rows
  by unfold_locales (auto simp: filled_runs_def)

lemma cores_grow: "ledger_step l l' \<Longrightarrow> set (map core (lg_intents l)) \<subseteq> set (map core (lg_intents l'))"
  using ledger_step_extends [of l l'] set_mono_prefix unfolding extends_def by blast

lemma filled_onledger:
  assumes "\<And>l x l'. f l = Inr (x, l') \<Longrightarrow>
    ledger_step l l' \<and> (\<forall>r \<in> set (lg_intents l'). ir_state r = ''FILLED'' \<longrightarrow> r \<in> set (lg_intents l))"
  shows "always (filled_runs rows) (onledger f)"
proof (rule alwaysI)
  fix s r s' assume run: "onledger f s = (r, s')"
  show "filled_runs rows s s'"
  proof (cases "f (om_ledger s)")
    case (Inl e)
    then show ?thesis using run by (simp add: onledger_run filled_runs_def)
  next
    case (Inr p)
    then obtain x l' where f: "f (om_ledger s) = Inr (x, l')" by (cases p) auto
    note step = assms [OF f]
    have "set (map core (lg_intents (om_ledger s))) \<subseteq> set (map core (lg_intents l'))" by (rule cores_grow) (use step in blast)
    moreover have "filled_ok (om_ledger s) \<Longrightarrow> filled_ok l'" by (rule filled_ok_keep [of "om_ledger s"]) (use step in blast)+
    moreover have "om_ledger s' = l'" using run by (auto simp: onledger_run f)
    ultimately show ?thesis unfolding filled_runs_def by blast
  qed
qed

lemma filled_revision: "always (filled_runs rows) account_changed"
  by (auto simp: always_def account_changed_def filled_runs_def)

lemma not_filled_state:
  "st \<noteq> ''FILLED'' \<Longrightarrow> r \<in> set (update_where p (with_state st) rows) \<Longrightarrow> ir_state r = ''FILLED'' \<Longrightarrow> r \<in> set rows"
  by (auto simp: set_update_where)

lemma filled_attempt: "always (filled_runs rows) (onledger (record_attempt now a i st resp))"
  by (rule filled_onledger) (auto simp: record_attempt_def intro: ledger_step.attempt [of now a i st resp] dest: not_filled_state [rotated]
      split: if_splits)

lemma filled_set_state: "st \<noteq> ''FILLED'' \<Longrightarrow> always (filled_runs rows) (onledger (set_intent_state i st))"
  by (rule filled_onledger) (auto simp: set_intent_state_def intro: ledger_step.state [of i st] dest: not_filled_state [rotated])

lemma reopen_not_filled:
  "r \<in> set (lg_intents (reopen_recovery_closed i reason l)) \<Longrightarrow> ir_state r = ''FILLED'' \<Longrightarrow> r \<in> set (lg_intents l)"
  by (auto simp: reopen_recovery_closed_def Let_def set_update_where split: if_splits)

lemma filled_order: "always (filled_runs rows) (onledger (record_order oid i acc st payload))"
proof (rule filled_onledger, intro conjI)
  fix l x l' assume run: "record_order oid i acc st payload l = Inr (x, l')"
  show "ledger_step l l'" by (rule ledger_step.order [OF run])
  show "\<forall>r \<in> set (lg_intents l'). ir_state r = ''FILLED'' \<longrightarrow> r \<in> set (lg_intents l)"
    using run by (auto simp: record_order_def Let_def dest: reopen_not_filled split: option.splits if_splits)
qed

lemma filled_fill:
  assumes "check_fill f = Inr f"
  shows "always (filled_runs rows) (onledger (record_fill_once f i))"
proof (rule filled_onledger, intro conjI)
  fix l x l' assume run: "record_fill_once f i l = Inr (x, l')"
  show "ledger_step l l'" by (rule ledger_step.fill [OF assms run])
  show "\<forall>r \<in> set (lg_intents l'). ir_state r = ''FILLED'' \<longrightarrow> r \<in> set (lg_intents l)"
    using run by (auto simp: record_fill_once_def Let_def dest: reopen_not_filled split: option.splits if_splits)
qed

lemma filled_charges: "always (filled_runs rows) (onledger (record_order_charges oid i fees c))"
  by (rule filled_onledger) (auto dest: ledger_step.charges same_charges)

lemma filled_rate: "always (filled_runs rows) (onledger (rate_attempt n a ts))"
  by (rule filled_onledger) (auto dest: rate_attempt_step rate_attempt_Inr(1))

lemma filled_create: "check_intent n = Inr n \<Longrightarrow> always (filled_runs rows) (onledger (create_intent n reserved))"
proof (rule filled_onledger, intro conjI)
  fix l x l' assume n: "check_intent n = Inr n" and run: "create_intent n reserved l = Inr (x, l')"
  show "ledger_step l l'" by (rule ledger_step.intent [OF n run])
  show "\<forall>r \<in> set (lg_intents l'). ir_state r = ''FILLED'' \<longrightarrow> r \<in> set (lg_intents l)"
    using create_intent_Inr [OF run] by auto
qed

lemma filled_claim: "always (filled_runs rows) (claim_rate n a ts)"
proof (rule alwaysI)
  fix s r s' assume run: "claim_rate n a ts s = (r, s')"
  have abort: "always (filled_runs rows) (bindS (onledger (set_intent_state (in_id n) ''ABORTED'')) (\<lambda>_. raiseS e))" for e
    by (intro filled.always_rules filled_set_state) simp
  obtain v t where m: "onledger (rate_attempt n a ts) s = (v, t)" by force
  then have "filled_runs rows s t" by (rule alwaysD [OF filled_rate])
  with run m show "filled_runs rows s s'"
    by (auto simp: claim_rate_def split: sum.splits if_splits intro: filled.trans dest: alwaysD [OF abort])
qed

lemmas filled_intros = filled.always_rules filled_attempt filled_order filled_charges filled_claim filled_revision

lemma filled_dispatch: "always (filled_runs rows) (dispatch now account n a answer)"
  unfolding dispatch_def by (cases answer) (auto intro!: filled_intros split: option.splits)

lemma filled_submit:
  "check_intent n = Inr n \<Longrightarrow> always (filled_runs rows) (submit account now ts a n reserved ready positions answer)"
  unfolding submit_def prepare_def by (intro filled_intros filled_dispatch filled_create)

lemma filled_settle:
  assumes "row \<in> set rows"
  shows "always (filled_runs rows) (settle_intent oid row b)"
proof (rule alwaysI)
  fix s r s' assume run: "settle_intent oid row b s = (r, s')"
  let ?l = "om_ledger s" and ?f = "filled_quantity (ir_id row) (om_ledger s)"
  from run consider "s' = s"
    | st where "st \<in> set TERMINAL" "onledger (set_intent_state (ir_id row) (if ?f = ir_quantity row then ''FILLED'' else st)) s = (r, s')"
    by (auto simp: settle_intent_def Let_def bindS_run whenS_def guardR_def split: sum.splits if_splits option.splits)
  then show "filled_runs rows s s'"
  proof cases
    case 1
    then show ?thesis by (simp add: filled.refl)
  next
    case 2
    show ?thesis
    proof (cases "?f = ir_quantity row")
      case False
      have "(if ?f = ir_quantity row then ''FILLED'' else st) \<noteq> ''FILLED''" using 2(1) False by (auto simp: TERMINAL_def)
      from alwaysD [OF filled_set_state [OF this] 2(2)] show ?thesis .
    next
      case True
      let ?p = "\<lambda>r. ir_id r = ir_id row \<and> ir_state r \<noteq> ''FILLED''"
      have s': "om_ledger s' = ?l\<lparr>lg_intents := update_where ?p (with_state ''FILLED'') (lg_intents ?l)\<rparr>"
        using 2(2) True by (auto simp: onledger_run set_intent_state_def)
      have step: "ledger_step ?l (om_ledger s')"
        unfolding s' by (rule ledger_step.state [of "ir_id row" "''FILLED''" _ "()"]) (simp add: set_intent_state_def)
      show ?thesis
        unfolding filled_runs_def
      proof (intro impI conjI)
        assume pre: "filled_ok ?l \<and> set (map core rows) \<subseteq> set (map core (lg_intents ?l))"
        then have "core row \<in> core ` set (lg_intents ?l)" using assms by auto
        then obtain q where q: "q \<in> set (lg_intents ?l)" "core q = core row" by auto
        have ids: "distinct (map ir_id (lg_intents ?l))" using pre by (simp add: filled_ok_def wf_ledger_def intents_wf_def o_def)
        have same: "ir_quantity x = ir_quantity row" if "x \<in> set (lg_intents ?l)" "ir_id x = ir_id row" for x
        proof -
          have "ir_id q = ir_id row" "ir_quantity q = ir_quantity row" using arg_cong [OF q(2), of ir_id] arg_cong [OF q(2), of ir_quantity] by simp_all
          moreover from this have "x = q" using row_with_in [OF ids that(1)] row_with_in [OF ids q(1)] that(2) by simp
          ultimately show ?thesis by simp
        qed
        show "filled_ok (om_ledger s')"
          using pre True same ledger_step_wf [OF step]
          by (auto simp: filled_ok_def s' set_update_where filled_quantity_def)
        show "set (map core rows) \<subseteq> set (map core (lg_intents (om_ledger s')))"
          using pre cores_grow [OF step] by blast
      qed
    qed
  qed
qed

lemma filled_bind_lift:
  "(\<And>x. v = Inr x \<Longrightarrow> always (filled_runs rows) (f x)) \<Longrightarrow> always (filled_runs rows) (bindS (liftS v) f)"
  by (auto simp: always_def bind_lift filled.refl split: sum.splits)

lemma filled_apply_trade: "always (filled_runs rows) (apply_trade now account oid row trade)"
  unfolding apply_trade_def
  by (intro filled.always_if filled.always_ret filled.always_bind [OF filled.always_guard] filled_bind_lift
      filled.always_bind [OF filled_fill] trade_fill_checked)

lemma filled_confirm: "always (filled_runs rows) (confirm_historical account row b records)"
  unfolding confirm_historical_def Let_def by (intro filled_intros)

lemma filled_apply_intent:
  "row \<in> set rows \<Longrightarrow> always (filled_runs rows) (apply_intent now account trades historical resolved row)"
  unfolding apply_intent_def apply_order_def Let_def
  by (cases "resolved (ir_id row)")
     (simp_all, (intro filled_intros filled_set_state filled_confirm filled_apply_trade filled_settle; simp)+)

lemma filled_reconcile:
  "always (filled_runs rows) (reconcile_commit now account revision rows resolved trades historical positions)"
  unfolding reconcile_commit_def by (intro filled_intros filled_apply_intent)

lemma om_step_filled: "om_step s s' \<Longrightarrow> filled_ok (om_ledger s) \<Longrightarrow> filled_ok (om_ledger s')"
proof (induction rule: om_step.induct)
  case (submission n account now ts a reserved ready positions answer s r s')
  then show ?case using alwaysD [OF filled_submit submission(2), of "[]"] by (simp add: filled_runs_def)
next
  case (reconciliation rows s now account revision resolved trades historical positions r' s')
  then show ?case using alwaysD [OF filled_reconcile reconciliation(2)] unfolding filled_runs_def by blast
qed

section \<open>An order the broker does not show\<close>

text \<open>An intent with attempts and no broker order is left exactly as it is.\<close>

definition stays :: "intent_row \<Rightarrow> oms \<Rightarrow> oms \<Rightarrow> bool" where
  "stays r s s' =
     (r \<in> set (lg_intents (om_ledger s)) \<and> list_ex (\<lambda>a. at_intent a = ir_id r) (lg_attempts (om_ledger s)) \<longrightarrow>
      r \<in> set (lg_intents (om_ledger s')) \<and> list_ex (\<lambda>a. at_intent a = ir_id r) (lg_attempts (om_ledger s')))"

interpretation stays: step_closed "stays r" for r
  by unfold_locales (auto simp: stays_def)

lemma stays_onledger:
  assumes "\<And>l x l'. f l = Inr (x, l') \<Longrightarrow> lg_attempts l' = lg_attempts l
    \<and> (r \<in> set (lg_intents l) \<longrightarrow> r \<in> set (lg_intents l'))"
  shows "always (stays r) (onledger f)"
  using assms by (force simp: always_def onledger_run stays_def split: sum.splits)

lemma stays_order: "ir_id r \<noteq> i \<Longrightarrow> always (stays r) (onledger (record_order oid i acc st payload))"
  by (rule stays_onledger)
     (auto simp: record_order_def Let_def reopen_recovery_closed_def set_update_where image_iff split: option.splits if_splits)

lemma stays_fill: "ir_id r \<noteq> i \<Longrightarrow> always (stays r) (onledger (record_fill_once f i))"
  by (rule stays_onledger)
     (auto simp: record_fill_once_def Let_def reopen_recovery_closed_def set_update_where image_iff split: option.splits if_splits)

lemma stays_charges: "always (stays r) (onledger (record_order_charges oid i fees c))"
  by (rule stays_onledger)
     (auto simp: record_order_charges_def Let_def split: decnum.splits option.splits if_splits)

lemma stays_set_state: "ir_id r \<noteq> i \<Longrightarrow> always (stays r) (onledger (set_intent_state i st))"
  by (rule stays_onledger) (auto simp: set_intent_state_def set_update_where image_iff)

lemma stays_revision: "always (stays r) account_changed"
  by (auto simp: always_def account_changed_def stays_def)

lemmas stays_intros = stays.always_rules stays_order stays_fill stays_charges stays_revision

lemma stays_apply_order: "ir_id r \<noteq> ir_id row \<Longrightarrow> always (stays r) (apply_order now account trades historical row b)"
  unfolding apply_order_def apply_trade_def confirm_historical_def settle_intent_def Let_def
  by (intro stays_intros stays_set_state)

lemma stays_apply_intent:
  assumes "resolved (ir_id r) = None"
  shows "always (stays r) (apply_intent now account trades historical resolved row)"
proof (cases "resolved (ir_id row)")
  case (Some b)
  then have "ir_id r \<noteq> ir_id row" using assms by auto
  then show ?thesis unfolding apply_intent_def Some by (simp add: stays_apply_order)
next
  case None
  show ?thesis
  proof (cases "ir_id r = ir_id row")
    case False
    then show ?thesis unfolding apply_intent_def None by (simp, intro stays_intros stays_set_state)
  next
    case True
    show ?thesis
    proof (rule alwaysI)
      fix s v s' assume run: "apply_intent now account trades historical resolved row s = (v, s')"
      show "stays r s s'"
      proof (cases "list_ex (\<lambda>a. at_intent a = ir_id r) (lg_attempts (om_ledger s))")
        case False
        then show ?thesis by (simp add: stays_def)
      next
        case True
        then show ?thesis using run \<open>ir_id r = ir_id row\<close> None
          by (simp add: apply_intent_def bindS_run whenS_def stays_def)
      qed
    qed
  qed
qed

lemma stays_reconcile:
  "resolved (ir_id r) = None \<Longrightarrow>
   always (stays r) (reconcile_commit now account revision rows resolved trades historical positions)"
  unfolding reconcile_commit_def by (intro stays_intros stays_apply_intent)

section \<open>Properties\<close>

text \<open>
  C1: No order reaches the broker unrecorded. Once \<open>submit\<close> is about to call the
  broker, three things are durable: the intent with its reservation and state
  \<open>SEND_UNKNOWN\<close>, the attempt that names it, and the rate event. Whatever the broker then
  answers, an exception or an ambiguous reply included, the intent stays among the pending
  ones, as \<open>SENT\<close> only when the answer carries an order identity, and the attempt keeps what
  was answered. When the preparation refuses, the answer cannot matter: the broker is not
  called. The attempt's identity is new, as \<open>uuid4\<close> makes it.
\<close>

theorem submit_write_ahead:
  assumes "submit account now ts a n reserved ready positions answer s = (r, s')"
    and fresh: "a \<notin> at_id ` set (lg_attempts (om_ledger s))"
  shows "case prepare account now ts a n reserved ready positions s of
      (Inl e, s1) \<Rightarrow> r = Inl e \<and> s' = s1
    | (Inr u, s1) \<Rightarrow>
        new_row n reserved ''SEND_UNKNOWN'' \<in> set (pending_intents (om_ledger s1))
        \<and> (a, ts) \<in> set (lg_rate_events (om_ledger s1))
        \<and> lg_attempts (om_ledger s1) = lg_attempts (om_ledger s) @ [attempt_row n a now ''STARTED'' []]
        \<and> new_row n reserved (answer_state answer) \<in> set (pending_intents (om_ledger s'))
        \<and> lg_attempts (om_ledger s') = lg_attempts (om_ledger s) @ [attempt_row n a now (fst (answered answer)) (snd (answered answer))]
        \<and> om_revision s' = om_revision s + 2"
proof -
  obtain v s1 where p: "prepare account now ts a n reserved ready positions s = (v, s1)" by force
  show ?thesis
  proof (cases v)
    case (Inl e)
    with assms p show ?thesis by (simp add: submit_def bindS_run)
  next
    case (Inr u)
    note rows = prepare_rows [OF p [unfolded Inr]]
    have d: "dispatch now account n a answer s1 = (r, s')" using assms p Inr by (simp add: submit_def bindS_run)
    have in1: "new_row n reserved ''SEND_UNKNOWN'' \<in> set (lg_intents (om_ledger s1))" by (simp add: rows(1))
    have att: "lg_attempts (om_ledger s1) = lg_attempts (om_ledger s) @ [attempt_row n a now ''STARTED'' []]"
      using rows(4) fresh upsert_fresh [of "attempt_row n a now ''STARTED'' []"] by (simp add: attempt_row_def encode_row_def)
    have "answer_state answer \<in> {''SEND_UNKNOWN'', ''SENT''}"
      by (auto simp: answer_state_def split: reply.splits option.splits)
    then show ?thesis
      using p Inr rows(3,8) in1 att dispatch_attempt [OF d att fresh] dispatch_row [OF d in1] pending_of [of "new_row n reserved ''SEND_UNKNOWN''"]
        pending_of [of "new_row n reserved (answer_state answer)"]
      by auto
  qed
qed

definition start :: oms where
  "start = \<lparr>om_ledger = empty_ledger, om_revision = 0\<rparr>"

definition demo_submit :: "reply \<Rightarrow> (oms, jrow) sm" where
  "demo_submit answer = submit ''A'' 10 (1 / 2) ''a1'' demo_intent 7700 True (Inr []) answer"

theorem submit_write_ahead_witness:
  "(case demo_submit (Raised (BrokerFailure ''timeout'') []) start of
      (r, s') \<Rightarrow> r = Inl (BrokerFailure ''timeout'')
        \<and> map ir_state (pending_intents (om_ledger s')) = [''SEND_UNKNOWN''])
   \<and> new_row demo_intent 7700 ''SEND_UNKNOWN''
       \<in> set (pending_intents (om_ledger (snd (demo_submit (Raised (BrokerFailure ''timeout'') []) start))))
   \<and> lg_attempts (om_ledger (snd (demo_submit (Raised (BrokerFailure ''timeout'') []) start)))
       = [attempt_row demo_intent ''a1'' 10 ''UNKNOWN'' []]"
proof -
  let ?a = "Raised (BrokerFailure ''timeout'') []"
  have c: "case demo_submit ?a start of
      (r, s') \<Rightarrow> r = Inl (BrokerFailure ''timeout'') \<and> map ir_state (pending_intents (om_ledger s')) = [''SEND_UNKNOWN'']"
    by code_simp
  have ok: "ok (fst (prepare ''A'' 10 (1 / 2) ''a1'' demo_intent 7700 True (Inr []) start))" by code_simp
  have none: "lg_attempts (om_ledger start) = []" by (simp add: start_def empty_ledger_def)
  obtain r s' where run: "submit ''A'' 10 (1 / 2) ''a1'' demo_intent 7700 True (Inr []) ?a start = (r, s')" by force
  obtain v s1 where p: "prepare ''A'' 10 (1 / 2) ''a1'' demo_intent 7700 True (Inr []) start = (v, s1)" by force
  with ok have "\<exists>u. v = Inr u" by (cases v) auto
  with submit_write_ahead [OF run] p none
  have "new_row demo_intent 7700 ''SEND_UNKNOWN'' \<in> set (pending_intents (om_ledger s'))
    \<and> lg_attempts (om_ledger s') = [attempt_row demo_intent ''a1'' 10 ''UNKNOWN'' []]"
    by (auto simp: answer_state_def answered_def)
  with c run show ?thesis by (simp add: demo_submit_def)
qed

text \<open>
  C5: A sale that is sent never exceeds what the account holds: after a successful
  preparation all pending sells of the contract, the new one included, are
  covered by the long NSE_FNO MARGIN quantity the broker reported.
\<close>

theorem sells_within_holding:
  assumes run: "prepare account now ts a n reserved ready (Inr positions) s = (Inr u, s')" and sell: "in_side n = SELL"
  shows "\<exists>available. held_by_broker (security_id (in_instrument n)) positions = Inr available
    \<and> pending_sells (security_id (in_instrument n)) (om_ledger s') \<le> available"
proof -
  let ?sec = "security_id (in_instrument n)"
  obtain rq l1 l2 l3 where "check_sale n (Inr positions) (om_ledger s) = Inr ()"
    by (rule prepare_Inr [OF run])
  then obtain available where h: "held_by_broker ?sec positions = Inr available"
      "in_quantity n + pending_sells ?sec (om_ledger s) \<le> available"
    using sell by (auto simp: check_sale_def bindR_Inr_iff guardR_Inr_iff)
  have "pending_sells ?sec (om_ledger s') = pending_sells ?sec (om_ledger s) + ir_quantity (new_row n reserved ''SEND_UNKNOWN'')"
    by (rule pending_sells_append) (use prepare_rows [OF run] sell in simp_all)
  with h show ?thesis by auto
qed

definition demo_sale :: intent where
  "demo_sale = demo_intent\<lparr>in_id := ''i2'', in_side := SELL, in_client_order_id := ''x1''\<rparr>"

definition demo_positions :: "jrow list" where
  "demo_positions = [[(''securityId'', JStr ''1''), (''netQty'', JInt 75)], [(''securityId'', JStr ''2''), (''netQty'', JInt 75)],
     [(''securityId'', JInt 1), (''netQty'', JInt 75), (''productType'', JStr ''INTRADAY'')]]"

theorem sells_within_holding_witness:
  "\<exists>s'. prepare ''A'' 10 (1 / 2) ''a1'' demo_sale 1 True (Inr demo_positions) start = (Inr (), s')
     \<and> pending_sells ''1'' (om_ledger s') \<le> 75 \<and> held_by_broker ''1'' demo_positions = Inr 75"
proof -
  have "ok (fst (prepare ''A'' 10 (1 / 2) ''a1'' demo_sale 1 True (Inr demo_positions) start))" by code_simp
  then obtain s' where run: "prepare ''A'' 10 (1 / 2) ''a1'' demo_sale 1 True (Inr demo_positions) start = (Inr (), s')"
    by (cases "prepare ''A'' 10 (1 / 2) ''a1'' demo_sale 1 True (Inr demo_positions) start"; cases "fst (prepare ''A'' 10 (1 / 2) ''a1'' demo_sale 1 True (Inr demo_positions) start)") auto
  have "held_by_broker ''1'' demo_positions = Inr 75" by code_simp
  moreover have "in_side demo_sale = SELL" "security_id (in_instrument demo_sale) = ''1''"
    by (simp_all add: demo_sale_def demo_intent_def demo_instrument_def)
  ultimately show ?thesis using sells_within_holding [OF run] run by auto
qed

text \<open>
  C3: A reconciliation that read the account before an order was sent cannot be
  applied after it: whatever submissions and reconciliations run in between, once
  one of them has called the broker, the stale commit is refused and changes
  nothing, so a position read before an order can never be taken for one after it.
\<close>

theorem stale_reconciliation_discarded:
  assumes "om_step\<^sup>*\<^sup>* s0 s" and "fst (prepare account now ts a n reserved ready positions s) = Inr ()"
    and "om_step\<^sup>*\<^sup>* (snd (submit account now ts a n reserved ready positions answer s)) s2"
  shows "reconcile_commit now' account' (om_revision s0) rows resolved trades historical positions' s2
    = (Inl (ReconciliationChanged ''order state changed while reading account''), s2)"
proof -
  obtain s1 where p: "prepare account now ts a n reserved ready positions s = (Inr (), s1)"
    using assms(2) by (metis prod.collapse)
  obtain r s' where run: "submit account now ts a n reserved ready positions answer s = (r, s')" by force
  have "submit account now ts a n reserved ready positions answer s = dispatch now account n a answer s1"
    using p by (simp add: submit_def bindS_run)
  then have "dispatch now account n a answer s1 = (r, s')" using run by simp
  from alwaysD [OF rev_dispatch this] prepare_rows(8) [OF p]
  have "om_revision s + 1 \<le> om_revision s'" by (simp add: revision_grows_def)
  moreover have "om_revision s0 \<le> om_revision s" "om_revision s' \<le> om_revision s2"
    using om_steps_revision [OF assms(1)] om_steps_revision [OF assms(3)] run by simp_all
  ultimately have "om_revision s0 \<noteq> om_revision s2" by simp
  then show ?thesis by (simp add: reconcile_commit_def bindS_run)
qed

theorem stale_reconciliation_discarded_witness:
  "reconcile_commit 20 ''A'' 0 [] (\<lambda>_. None) [] [] [] (snd (demo_submit (Replied None) start))
    = (Inl (ReconciliationChanged ''order state changed while reading account''), snd (demo_submit (Replied None) start))"
proof -
  have "fst (prepare ''A'' 10 (1 / 2) ''a1'' demo_intent 7700 True (Inr []) start) = Inr ()" by code_simp
  moreover have "om_revision start = 0" by (simp add: start_def)
  ultimately show ?thesis
    using stale_reconciliation_discarded [of start start, OF rtranclp.rtrancl_refl _ rtranclp.rtrancl_refl]
    by (simp add: demo_submit_def)
qed

text \<open>
  C4: Whatever submissions and reconciliations are run from a ledger whose
  \<open>FILLED\<close> intents are filled, the ledger stays well formed and every intent marked
  \<open>FILLED\<close> has recorded fills for exactly its quantity.
\<close>

theorem filled_intents_are_filled:
  assumes "om_step\<^sup>*\<^sup>* start s"
  shows "wf_ledger (om_ledger s)
    \<and> (\<forall>r \<in> set (lg_intents (om_ledger s)). ir_state r = ''FILLED'' \<longrightarrow> filled_quantity (ir_id r) (om_ledger s) = ir_quantity r)"
proof -
  have "filled_ok (om_ledger start)" using wf_empty by (simp add: start_def filled_ok_def empty_ledger_def)
  with assms have "filled_ok (om_ledger s)" by (induction rule: rtranclp_induct) (auto intro: om_step_filled)
  then show ?thesis by (simp add: filled_ok_def)
qed

definition demo_order :: jrow where
  "demo_order = [(''orderId'', JStr ''o1''), (''correlationId'', JStr ''e1''), (''orderStatus'', JStr ''TRADED'')]"

definition demo_trade :: jrow where
  "demo_trade = [(''orderId'', JStr ''o1''), (''exchangeTradeId'', JInt 7), (''tradedQuantity'', JInt 75),
     (''tradedPrice'', JDec ''100'')]"

definition demo_sent :: oms where
  "demo_sent = \<lparr>om_ledger = empty_ledger\<lparr>lg_intents := [new_row demo_intent 7700 ''SENT''],
     lg_attempts := [\<lparr>at_id = ''a1'', at_intent = ''i1'', at_sent = 10, at_state = ''ACCEPTED'', at_response = encode_row demo_order\<rparr>],
     lg_orders := [\<lparr>or_id = ''o1'', or_intent = ''i1'', or_account = ''A'', or_state = ''TRADED'', or_payload = encode_row demo_order\<rparr>],
     lg_rate_events := [(''a1'', 1 / 2)]\<rparr>, om_revision = 2\<rparr>"

definition demo_reconciled :: oms where
  "demo_reconciled = \<lparr>om_ledger = (om_ledger demo_sent)\<lparr>lg_intents := [new_row demo_intent 7700 ''FILLED''],
     lg_fills := [\<lparr>fr_key = PairKey ''o1'' ''7'', fr_order = ''o1'', fr_intent = ''i1'', fr_security = ''1'', fr_quantity = 75,
       fr_price = 100, fr_fees = 0, fr_occurred = 20\<rparr>]\<rparr>, om_revision = 3\<rparr>"

lemma demo_sent_run: "demo_submit (Replied (Some demo_order)) start = (Inr demo_order, demo_sent)"
  by code_simp

lemma demo_reconciled_run:
  "reconcile_commit 20 ''A'' 2 (lg_intents (om_ledger demo_sent)) (\<lambda>_. Some demo_order) [demo_trade] [] [] demo_sent
   = (Inr \<lparr>sn_revision = 3, sn_positions = [], sn_unresolved = False\<rparr>, demo_reconciled)"
  by code_simp

theorem filled_intents_are_filled_witness:
  "map (\<lambda>r. (ir_state r, filled_quantity (ir_id r) (om_ledger demo_reconciled))) (lg_intents (om_ledger demo_reconciled))
     = [(''FILLED'', 75)]
   \<and> wf_ledger (om_ledger demo_reconciled)"
proof -
  have n: "check_intent demo_intent = Inr demo_intent" by code_simp
  have s1: "om_step start demo_sent"
    by (rule om_step.submission [OF n demo_sent_run [unfolded demo_submit_def]])
  have s2: "om_step demo_sent demo_reconciled"
    by (rule om_step.reconciliation [OF subset_refl demo_reconciled_run])
  have "om_step\<^sup>*\<^sup>* start demo_reconciled" using s1 s2 by auto
  moreover have "map (\<lambda>r. (ir_state r, filled_quantity (ir_id r) (om_ledger demo_reconciled))) (lg_intents (om_ledger demo_reconciled))
     = [(''FILLED'', 75)]" by code_simp
  ultimately show ?thesis using filled_intents_are_filled by blast
qed

text \<open>
  C2: An order the broker does not show is never taken for one that did not happen. Whatever
  rows the reconciliation works from, as old as they may be, and whether it succeeds or
  stops at an error, an intent with a recorded attempt and no broker order is left exactly
  as it was. As long as it is neither terminal nor closed by a recovery it stays pending,
  and the account is reported unresolved, which blocks new entries.
\<close>

theorem unknown_order_stays_pending:
  assumes "row \<in> set (lg_intents (om_ledger s))"
    and "list_ex (\<lambda>a. at_intent a = ir_id row) (lg_attempts (om_ledger s))" and "resolved (ir_id row) = None"
    and "reconcile_commit now account revision rows resolved trades historical positions s = (r, s')"
  shows "row \<in> set (lg_intents (om_ledger s'))
    \<and> (ir_state row \<notin> insert ''RECOVERY_CLOSED'' (set TERMINAL_INTENT) \<longrightarrow>
         row \<in> set (pending_intents (om_ledger s')) \<and> (\<forall>snap. r = Inr snap \<longrightarrow> sn_unresolved snap))"
proof (intro conjI impI)
  show row: "row \<in> set (lg_intents (om_ledger s'))"
    using alwaysD [OF stays_reconcile [of resolved row, OF assms(3)] assms(4)] assms(1,2) by (simp add: stays_def)
  assume state: "ir_state row \<notin> insert ''RECOVERY_CLOSED'' (set TERMINAL_INTENT)"
  then show p: "row \<in> set (pending_intents (om_ledger s'))"
    using row by (auto simp: pending_intents_def recovery_closed_valid_def)
  have "sn_unresolved snap = (pending_intents (om_ledger s') \<noteq> [])" if "r = Inr snap" for snap
    using assms(4) that by (auto simp: reconcile_commit_def bindS_Inr)
  with p show "\<forall>snap. r = Inr snap \<longrightarrow> sn_unresolved snap" by auto
qed

text \<open>
  Two cases: an intent sent without an answer, and one whose row was read as
  \<open>PENDING_SEND\<close> before the attempt the ledger now holds.
\<close>

theorem unknown_order_stays_pending_witness:
  "(case reconcile_commit 20 ''A'' 2 (lg_intents (om_ledger (snd (demo_submit (Replied None) start)))) (\<lambda>_. None) [] [] []
      (snd (demo_submit (Replied None) start)) of
     (r, s') \<Rightarrow> new_row demo_intent 7700 ''SEND_UNKNOWN'' \<in> set (pending_intents (om_ledger s')))
   \<and> (case reconcile_commit 20 ''A'' 2 [new_row demo_intent 7700 ''PENDING_SEND''] (\<lambda>_. None) [] [] [] demo_sent of
     (r, s') \<Rightarrow> new_row demo_intent 7700 ''SENT'' \<in> set (pending_intents (om_ledger s')))"
proof (intro conjI)
  let ?s = "snd (demo_submit (Replied None) start)"
  have i: "ir_id (new_row demo_intent 7700 st) = ''i1''" for st by (simp add: demo_intent_def)
  have live: "{''SEND_UNKNOWN'', ''SENT''} \<inter> insert ''RECOVERY_CLOSED'' (set TERMINAL_INTENT) = {}" by (simp add: TERMINAL_INTENT_def)
  obtain r s' where run: "reconcile_commit 20 ''A'' 2 (lg_intents (om_ledger ?s)) (\<lambda>_. None) [] [] [] ?s = (r, s')" by force
  have mem: "new_row demo_intent 7700 ''SEND_UNKNOWN'' \<in> set (lg_intents (om_ledger ?s))" by code_simp
  have att: "list_ex (\<lambda>a. at_intent a = ''i1'') (lg_attempts (om_ledger ?s))" by code_simp
  from unknown_order_stays_pending [OF mem _ _ run] att i run live
  show "case reconcile_commit 20 ''A'' 2 (lg_intents (om_ledger ?s)) (\<lambda>_. None) [] [] [] ?s of
     (r, s') \<Rightarrow> new_row demo_intent 7700 ''SEND_UNKNOWN'' \<in> set (pending_intents (om_ledger s'))" by auto
  obtain r s' where run: "reconcile_commit 20 ''A'' 2 [new_row demo_intent 7700 ''PENDING_SEND''] (\<lambda>_. None) [] [] [] demo_sent = (r, s')" by force
  have mem: "new_row demo_intent 7700 ''SENT'' \<in> set (lg_intents (om_ledger demo_sent))" by (simp add: demo_sent_def)
  have att: "list_ex (\<lambda>a. at_intent a = ''i1'') (lg_attempts (om_ledger demo_sent))" by (simp add: demo_sent_def)
  from unknown_order_stays_pending [OF mem _ _ run] att i run live
  show "case reconcile_commit 20 ''A'' 2 [new_row demo_intent 7700 ''PENDING_SEND''] (\<lambda>_. None) [] [] [] demo_sent of
     (r, s') \<Rightarrow> new_row demo_intent 7700 ''SENT'' \<in> set (pending_intents (om_ledger s'))" by auto
qed

end
