(* ===== verification/Sessions.thy ===== *)
theory Sessions
  imports Json Domain
begin

text \<open>
  Exchange sessions and completed minute bars: \<open>dhan_cas_bot/session_strategies.py\<close>.
  A minute series is a list of availability times and bars. The JSON the calendar
  and history services return is an argument, as the parser delivers it.
\<close>

section \<open>Names\<close>

definition CAS :: string where "CAS = ''CAS_LAG_V1''"
definition GAP :: string where "GAP = ''GAP_FADE_DOUBLE''"
definition REBOUND :: string where "REBOUND = ''NIFTY_SELLOFF_REBOUND_1510''"
definition SHOCK :: string where "SHOCK = ''VOLATILITY_SHOCK_V1''"

definition SECONDS_NAMES :: "string list" where
  "SECONDS_NAMES = [''SECONDS_FUTURES_CATCHUP'', ''SECONDS_FAILED_BREAKOUT'', ''SECONDS_FLOW_CONTINUATION'',
     ''SECONDS_STRIKE_CATCHUP'', ''SECONDS_EVENT_IMPULSE'']"

section \<open>Bars, calendars and evaluations\<close>

record bar =
  br_available :: instant
  br_open :: decimal
  br_close :: decimal
  br_volume :: int
  br_oi :: int
  br_high :: "decimal option"
  br_low :: "decimal option"

type_synonym series = "(instant \<times> bar) list"

record calendar =
  cl_opens :: "instant option"
  cl_closes :: "instant option"
  cl_previous_opens :: instant
  cl_previous_closes :: instant
  cl_next_opens :: instant
  cl_next_closes :: instant
  cl_checked_at :: instant
  cl_day :: "day option"
  cl_spot_closes :: "instant option"
  cl_previous_spot_closes :: "instant option"

definition cal_fresh :: "calendar \<Rightarrow> instant \<Rightarrow> bool" where
  "cal_fresh c now =
     (ist_date (cl_checked_at c) = ist_date now
      \<and> 0 \<le> now - cl_checked_at c \<and> now - cl_checked_at c \<le> seconds (12 * 3600)
      \<and> (case cl_opens c of Some t \<Rightarrow> Some (ist_date t) | None \<Rightarrow> cl_day c) = Some (ist_date now))"

definition is_open :: "calendar \<Rightarrow> instant \<Rightarrow> bool" where
  "is_open c now =
     (cal_fresh c now \<and> (case (cl_opens c, cl_closes c) of (Some t, Some u) \<Rightarrow> t \<le> now \<and> now < u | _ \<Rightarrow> False))"

definition previous_close_time :: "calendar \<Rightarrow> instant" where
  "previous_close_time c = (case cl_previous_spot_closes c of Some t \<Rightarrow> t | None \<Rightarrow> cl_previous_closes c)"

datatype condition_state = PASS | FAIL | UNKNOWN_STATE

record condition =
  cn_key :: string
  cn_state :: condition_state
  cn_value :: dval

record evaluation =
  ev_strategy :: string
  ev_state :: string
  ev_reason :: string
  ev_at :: instant
  ev_side :: "option_type option"
  ev_spot :: "decimal option"
  ev_minimum_expiry :: "day option"
  ev_exit_at :: "instant option"
  ev_details :: details
  ev_conditions :: "condition list"
  ev_next_check :: "instant option"

section \<open>The session calendar\<close>

text \<open>One row of the timings service: its exchange and its two timestamps.\<close>

record session_row =
  se_exchange :: string
  se_start :: "jval option"
  se_end :: "jval option"

fun session_stamps :: "jval option \<Rightarrow> jval option \<Rightarrow> (instant \<times> instant) res" where
  "session_stamps (Some (JInt a)) (Some (JInt b)) = Inr (a * 1000, b * 1000)"
| "session_stamps (Some a) (Some b) = Inl (ContractError ''nonintegral calendar timestamp'')"
| "session_stamps a b = Inl (ContractError ''invalid calendar timestamps'')"

text \<open>
  \<open>payload\<close> is \<open>None\<close> unless the response says \<open>success\<close> and carries a list; a row
  that is not an object has an empty exchange.
\<close>

definition parse_session ::
  "session_row list option \<Rightarrow> day \<Rightarrow> string \<Rightarrow> (instant \<times> instant) option res" where
  "parse_session payload day exchange = (case payload of
      None \<Rightarrow> Inl (ContractError ''market calendar unavailable'')
    | Some rows \<Rightarrow>
        if list_ex (\<lambda>r. se_exchange r = []) rows then Inl (ContractError ''invalid market calendar row'')
        else (case filter (\<lambda>r. se_exchange r = exchange) rows of
            [] \<Rightarrow> Inr None
          | [row] \<Rightarrow>
              bindR (session_stamps (se_start row) (se_end row)) (\<lambda>(start, stop).
                if ist_date start \<noteq> day \<or> ist_date stop \<noteq> day \<or> stop \<le> start
                then Inl (ContractError ''inconsistent calendar date'') else Inr (Some (start, stop)))
          | _ \<Rightarrow> Inl (ContractError (''ambiguous '' @ exchange @ '' trading session''))))"

section \<open>Minute bars\<close>

definition integral_number :: "jval \<Rightarrow> int res" where
  "integral_number v =
     (let range = (\<lambda>n. if n < 0 \<or> 2 ^ 53 < n then Inl (ContractError ''integral candle value out of range'') else Inr n)
      in case v of
           JInt n \<Rightarrow> range n
         | JDec t \<Rightarrow> (case parse_decimal t of
               Some (Finite x) \<Rightarrow> if is_integral x then range \<lfloor>x\<rfloor> else Inl (ContractError ''invalid integral candle value'')
             | _ \<Rightarrow> Inl (ContractError ''invalid integral candle value''))
         | _ \<Rightarrow> Inl (ContractError ''invalid integral candle value''))"

text \<open>\<open>dec\<close> on a JSON value.\<close>

definition jdec :: "jval \<Rightarrow> string \<Rightarrow> decimal res" where
  "jdec v name = dec (case v of JInt n \<Rightarrow> PyInt n | JStr s \<Rightarrow> PyStr s
     | JDec t \<Rightarrow> (case parse_decimal t of Some d \<Rightarrow> PyDecimal d | None \<Rightarrow> PyOther) | JBool b \<Rightarrow> PyBool b
     | JNull \<Rightarrow> PyNone | JNested b t \<Rightarrow> PyOther) name False"

record minute_history =
  mh_timestamp :: "jval list"
  mh_open :: "jval list"
  mh_high :: "jval list"
  mh_low :: "jval list"
  mh_close :: "jval list"
  mh_volume :: "jval list"
  mh_oi :: "jval list option"

definition parse_bar :: "jval \<times> jval \<times> jval \<times> jval \<times> jval \<times> jval \<times> jval \<Rightarrow> int list \<Rightarrow> (int \<times> bar) res" where
  "parse_bar row seen = (case row of (ts, op, hi, lo, cl, vol, oi) \<Rightarrow>
     bindR (integral_number ts) (\<lambda>stamp.
       if stamp mod 60 \<noteq> 0 \<or> stamp \<in> set seen then Inl (ContractError ''ambiguous minute timestamp'')
       else
         bindR (jdec op ''open'') (\<lambda>op. bindR (jdec hi ''high'') (\<lambda>hi. bindR (jdec lo ''low'') (\<lambda>lo.
         bindR (jdec cl ''close'') (\<lambda>cl. bindR (integral_number vol) (\<lambda>vol. bindR (integral_number oi) (\<lambda>oi.
           if min (min op hi) (min lo cl) \<le> 0 \<or> \<not> (lo \<le> min op cl \<and> max op cl \<le> hi)
           then Inl (ContractError ''invalid minute OHLC'')
           else Inr (stamp, \<lparr>br_available = seconds stamp + minutes 1, br_open = op, br_close = cl, br_volume = vol,
                  br_oi = oi, br_high = Some hi, br_low = Some lo\<rparr>)))))))))"

fun parse_rows ::
  "(jval \<times> jval \<times> jval \<times> jval \<times> jval \<times> jval \<times> jval) list \<Rightarrow> int list \<Rightarrow> bar list res" where
  "parse_rows [] seen = Inr []"
| "parse_rows (row # rows) seen =
     bindR (parse_bar row seen) (\<lambda>(stamp, b). bindR (parse_rows rows (stamp # seen)) (\<lambda>bs. Inr (b # bs)))"

definition parse_bars :: "minute_history option \<Rightarrow> instant \<Rightarrow> bool \<Rightarrow> series res" where
  "parse_bars payload received_at require_oi = (case payload of
      None \<Rightarrow> Inl (ContractError ''minute history unavailable'')
    | Some h \<Rightarrow>
        let size = length (mh_timestamp h);
            oi = (case mh_oi h of None \<Rightarrow> if require_oi then None else Some (replicate size (JInt 0)) | Some v \<Rightarrow> Some v)
        in if list_ex (\<lambda>xs. length xs \<noteq> size) [mh_open h, mh_high h, mh_low h, mh_close h, mh_volume h]
           then Inl (ContractError ''misaligned minute history'')
           else (case oi of
               None \<Rightarrow> Inl (ContractError ''open interest history unavailable'')
             | Some ois \<Rightarrow>
                 if length ois \<noteq> size then Inl (ContractError ''open interest history unavailable'')
                 else bindR (parse_rows (zip (mh_timestamp h) (zip (mh_open h) (zip (mh_high h) (zip (mh_low h)
                        (zip (mh_close h) (zip (mh_volume h) ois)))))) []) (\<lambda>bs.
                      Inr (sort_key fst (map (\<lambda>b. (br_available b, b)) (filter (\<lambda>b. br_available b \<le> received_at) bs))))))"

section \<open>When a rule is next evaluated\<close>

definition check_clocks :: "string \<Rightarrow> int list" where
  "check_clocks strategy =
     (if strategy = GAP then map (\<lambda>m. clock (9 + m div 60) (m mod 60)) (map (\<lambda>k. 45 + 5 * k) [0..21]) else [clock 15 10])"

definition next_check :: "string \<Rightarrow> instant \<Rightarrow> calendar option \<Rightarrow> day list \<Rightarrow> instant option" where
  "next_check strategy now calendar expiries = (case calendar of
      None \<Rightarrow> None
    | Some c \<Rightarrow>
        if \<not> cal_fresh c now then None
        else let sessions = (case (cl_opens c, cl_closes c) of (Some t, Some u) \<Rightarrow> [(t, u)] | _ \<Rightarrow> [])
                            @ [(cl_next_opens c, cl_next_closes c)];
                 regular = filter (\<lambda>(t, u). ist_time t = clock 9 15 \<and> \<not> (strategy = GAP \<and> ist_date t \<in> set expiries)) sessions;
                 candidates = concat (map (\<lambda>(t, u). filter (\<lambda>x. now < x \<and> t < x \<and> x < u)
                                                     (map (ist_at (ist_date t)) (check_clocks strategy))) regular)
             in (case candidates of [] \<Rightarrow> None | x # _ \<Rightarrow> Some x))"

section \<open>The two recorded rules\<close>

definition floor_minute :: "instant \<Rightarrow> instant" where
  "floor_minute t = t - t mod minutes 1"

text \<open>\<open>series[t]\<close> and a quotient of decimals, either of which may raise.\<close>

definition bar_at :: "series \<Rightarrow> instant \<Rightarrow> bar res" where
  "bar_at s t = (case map_of s t of None \<Rightarrow> Inl KeyError | Some b \<Rightarrow> Inr b)"

definition qdiv :: "decimal \<Rightarrow> decimal \<Rightarrow> decimal res" where
  "qdiv a b = (if b = 0 then Inl InvalidOperation else Inr (ddiv a b))"

definition gap_check_minute :: "instant \<Rightarrow> bool" where
  "gap_check_minute minute =
     (clock 9 45 \<le> ist_time minute \<and> ist_time minute < clock 11 31 \<and> (ist_time minute div minutes 1) mod 60 mod 5 = 0)"

record rule_result =
  rr_state :: string
  rr_reason :: string
  rr_side :: "option_type option"
  rr_spot :: "decimal option"
  rr_minimum_expiry :: "day option"
  rr_exit_at :: "instant option"
  rr_details :: details

definition plain_result :: "string \<Rightarrow> string \<Rightarrow> rule_result" where
  "plain_result state reason = \<lparr>rr_state = state, rr_reason = reason, rr_side = None, rr_spot = None,
     rr_minimum_expiry = None, rr_exit_at = None, rr_details = []\<rparr>"

definition rebound_rule :: "calendar \<Rightarrow> decimal \<Rightarrow> decimal \<Rightarrow> rule_result res" where
  "rebound_rule c opening current =
     bindR (qdiv current opening) (\<lambda>r.
       let change = dsub r 1;
           exit_at = ist_at (ist_date (cl_next_opens c)) (clock 15 10)
       in if \<not> (cl_next_opens c < exit_at \<and> exit_at < cl_next_closes c)
          then Inr (plain_result ''UNKNOWN'' ''NEXT_SESSION_EXIT_UNAVAILABLE'')
          else let yes = change \<le> - 75 / 10000
               in Inr \<lparr>rr_state = if yes then ''SIGNAL'' else ''NO_SIGNAL'',
                    rr_reason = if yes then ''SELLOFF_THRESHOLD_MET'' else ''SELLOFF_BELOW_THRESHOLD'',
                    rr_side = if yes then Some CE else None, rr_spot = Some current,
                    rr_minimum_expiry = Some (ist_date exit_at + 1), rr_exit_at = Some exit_at,
                    rr_details = [(''open_return'', DDec change)]\<rparr>)"

definition persistent_closes :: "decimal \<Rightarrow> decimal list \<Rightarrow> bool" where
  "persistent_closes direction closes = list_all (\<lambda>(a, b). 0 < direction * (b - a)) (zip closes (tl closes))"

definition gap_rule ::
  "instant \<Rightarrow> instant \<Rightarrow> calendar \<Rightarrow> series \<Rightarrow> series \<Rightarrow> decimal \<Rightarrow> decimal \<Rightarrow> rule_result res" where
  "gap_rule now minute c spot future opening current =
     bindR (bar_at spot (previous_close_time c)) (\<lambda>pb.
       let previous = br_close pb
       in if previous \<le> 0 then Inl (ContractError ''nonpositive previous close'')
          else bindR (qdiv opening previous) (\<lambda>r.
            let gap = dsub r 1; direction = (if 0 < gap then -1 else 1)
            in bindR (if opening = previous then Inr 0 else qdiv (opening - current) (opening - previous)) (\<lambda>fraction.
               bindR (mapR (\<lambda>i. bindR (bar_at spot (minute - minutes i)) (\<lambda>b. Inr (br_close b))) [2, 1, 0]) (\<lambda>closes.
               bindR (bar_at future minute) (\<lambda>fa. bindR (bar_at future (minute - minutes 5)) (\<lambda>fb.
               bindR (qdiv (br_close fa) (br_close fb)) (\<lambda>fr.
                 let f5 = dsub fr 1;
                     persistent = persistent_closes direction closes;
                     yes = 5 / 1000 \<le> \<bar>gap\<bar> \<and> 1 / 4 \<le> fraction \<and> fraction \<le> 1 \<and> 0 < direction * f5 \<and> persistent
                 in Inr \<lparr>rr_state = if yes then ''SIGNAL'' else ''NO_SIGNAL'',
                      rr_reason = if yes then ''GAP_FADE_CONFIRMED'' else ''GAP_FADE_CONDITIONS_NOT_MET'',
                      rr_side = if yes then Some (if 0 < direction then CE else PE) else None,
                      rr_spot = Some current, rr_minimum_expiry = Some (ist_date now),
                      rr_exit_at = map_option (\<lambda>t. t - minutes 6) (cl_closes c),
                      rr_details = [(''gap'', DDec gap), (''fraction_filled'', DDec fraction),
                        (''future_5m_return'', DDec f5), (''persistent'', DBool persistent)]\<rparr>)))))))"

text \<open>\<open>except (KeyError, ArithmeticError, ContractError)\<close>\<close>

definition recorded_rule ::
  "string \<Rightarrow> instant \<Rightarrow> instant \<Rightarrow> calendar \<Rightarrow> instant \<Rightarrow> series \<Rightarrow> series \<Rightarrow> rule_result" where
  "recorded_rule strategy now minute c opens spot future =
     (case bindR (bar_at spot (opens + minutes 1)) (\<lambda>ob. bindR (bar_at spot minute) (\<lambda>cb.
             if min (br_open ob) (br_close cb) \<le> 0 then Inl (ContractError ''nonpositive index reference'')
             else if strategy = REBOUND then rebound_rule c (br_open ob) (br_close cb)
             else gap_rule now minute c spot future (br_open ob) (br_close cb))) of
        Inr r \<Rightarrow> r
      | Inl e \<Rightarrow> plain_result ''UNKNOWN'' ''COMPLETED_INPUT_MISSING_OR_INVALID'')"

definition evaluate_rule ::
  "string \<Rightarrow> instant \<Rightarrow> instant \<Rightarrow> calendar option \<Rightarrow> series \<Rightarrow> series \<Rightarrow> day list \<Rightarrow> rule_result" where
  "evaluate_rule strategy now minute calendar spot future expiries = (case calendar of
      None \<Rightarrow> plain_result ''UNKNOWN'' ''CALENDAR_UNAVAILABLE''
    | Some c \<Rightarrow>
        if \<not> cal_fresh c now then plain_result ''UNKNOWN'' ''CALENDAR_UNAVAILABLE''
        else if \<not> is_open c now then plain_result ''WAITING'' ''EXCHANGE_CLOSED''
        else if expiries = [] then plain_result ''UNKNOWN'' ''CONTRACT_CALENDAR_UNAVAILABLE''
        else if strategy = GAP \<and> ist_date now \<in> set expiries
        then plain_result ''NOT_APPLICABLE'' ''EXPIRY_SESSION_OUTSIDE_RESEARCH_SCOPE''
        else if strategy = GAP \<and> \<not> gap_check_minute minute
             \<or> strategy = REBOUND \<and> ist_time minute div minutes 1 \<noteq> clock 15 10 div minutes 1
        then plain_result ''WAITING'' ''OUTSIDE_STRATEGY_WINDOW''
        else (case cl_opens c of
            None \<Rightarrow> plain_result ''WAITING'' ''EXCHANGE_CLOSED''
          | Some opens \<Rightarrow>
              if ist_time opens \<noteq> clock 9 15 then plain_result ''NOT_APPLICABLE'' ''SPECIAL_SESSION_OUTSIDE_RESEARCH_SCOPE''
              else recorded_rule strategy now minute c opens spot future))"

section \<open>Condition evidence\<close>

text \<open>Diagnostic values; a value that cannot be computed is unknown.\<close>

definition known :: "'a res \<Rightarrow> 'a option" where
  "known r = (case r of Inl e \<Rightarrow> None | Inr x \<Rightarrow> Some x)"

definition evidence :: "string \<Rightarrow> decimal option \<Rightarrow> bool option \<Rightarrow> condition" where
  "evidence key value passed = \<lparr>cn_key = key,
     cn_state = (case passed of None \<Rightarrow> UNKNOWN_STATE | Some b \<Rightarrow> if b then PASS else FAIL),
     cn_value = (case value of None \<Rightarrow> DNone | Some x \<Rightarrow> DDec x)\<rparr>"

definition opt_div :: "decimal option \<Rightarrow> decimal option \<Rightarrow> decimal option" where
  "opt_div a b = (case (a, b) of (Some x, Some y) \<Rightarrow> known (qdiv x y) | _ \<Rightarrow> None)"

definition condition_evidence ::
  "string \<Rightarrow> instant \<Rightarrow> calendar option \<Rightarrow> series \<Rightarrow> series \<Rightarrow> condition list" where
  "condition_evidence strategy now calendar spot future =
     (let minute = floor_minute now;
          valid = (case calendar of None \<Rightarrow> False | Some c \<Rightarrow> cal_fresh c now);
          opening = (case calendar of Some c \<Rightarrow> if valid then (case cl_opens c of
              Some t \<Rightarrow> map_option br_open (map_of spot (t + minutes 1)) | None \<Rightarrow> None) else None | None \<Rightarrow> None);
          current = (if valid then map_option br_close (map_of spot minute) else None)
      in if strategy = REBOUND
         then let change = map_option (\<lambda>x. dsub x 1) (opt_div current opening)
              in [evidence ''selloff'' change (map_option (\<lambda>x. x \<le> - 75 / 10000) change)]
         else let previous = (case calendar of Some c \<Rightarrow> if valid then map_option br_close
                    (map_of spot (previous_close_time c)) else None
                  | None \<Rightarrow> None);
                  gap = map_option (\<lambda>x. dsub x 1) (opt_div opening previous);
                  direction = (case gap of None \<Rightarrow> None | Some g \<Rightarrow> if g = 0 then None else Some (if 0 < g then -1 else 1 :: decimal));
                  fraction = (case (opening, current, previous) of
                      (Some x, Some y, Some z) \<Rightarrow> known (qdiv (x - y) (x - z)) | _ \<Rightarrow> None);
                  f5 = (if valid then map_option (\<lambda>x. dsub x 1) (opt_div (map_option br_close (map_of future minute))
                      (map_option br_close (map_of future (minute - minutes 5)))) else None);
                  persistent = (case (direction, known (mapR (\<lambda>i. bindR (bar_at spot (minute - minutes i)) (\<lambda>b. Inr (br_close b))) [2, 1, 0])) of
                      (Some d, Some closes) \<Rightarrow> Some (persistent_closes d closes) | _ \<Rightarrow> None)
              in [evidence ''gap_size'' gap (map_option (\<lambda>g. 5 / 1000 \<le> \<bar>g\<bar>) gap),
                  evidence ''gap_fill'' fraction (map_option (\<lambda>x. 1 / 4 \<le> x \<and> x \<le> 1) fraction),
                  evidence ''persistence'' None persistent,
                  evidence ''futures_direction'' f5 (case (f5, direction) of (Some x, Some d) \<Rightarrow> Some (0 < d * x) | _ \<Rightarrow> None)])"

text \<open>
  \<open>evaluate\<close>; \<open>expanded\<close> is the evaluation of the rules of
  \<open>expanded_strategies.py\<close>, used for every other name.
\<close>

definition evaluate ::
  "(string \<Rightarrow> instant \<Rightarrow> instant \<Rightarrow> evaluation res) \<Rightarrow> string \<Rightarrow> instant \<Rightarrow> calendar option \<Rightarrow> series \<Rightarrow> series \<Rightarrow> day list
   \<Rightarrow> instant option \<Rightarrow> evaluation res" where
  "evaluate expanded strategy now calendar spot future expiries bar_time =
     (let minute = floor_minute (case bar_time of None \<Rightarrow> now | Some t \<Rightarrow> t);
          result = (\<lambda>r. Inr \<lparr>ev_strategy = strategy, ev_state = rr_state r, ev_reason = rr_reason r, ev_at = minute,
            ev_side = rr_side r, ev_spot = rr_spot r, ev_minimum_expiry = rr_minimum_expiry r, ev_exit_at = rr_exit_at r,
            ev_details = rr_details r, ev_conditions = condition_evidence strategy minute calendar spot future,
            ev_next_check = next_check strategy now calendar expiries\<rparr>)
      in if \<not> (0 \<le> now - minute \<and> now - minute \<le> seconds 90) then result (plain_result ''UNKNOWN'' ''STRATEGY_INPUTS_STALE'')
         else if strategy \<noteq> GAP \<and> strategy \<noteq> REBOUND then expanded strategy now minute
         else result (evaluate_rule strategy now minute calendar spot future expiries))"

section \<open>Accepted minute histories\<close>

definition bar_valid :: "bar \<Rightarrow> bool" where
  "bar_valid b = (case (br_high b, br_low b) of
      (Some hi, Some lo) \<Rightarrow> 0 < lo \<and> lo \<le> br_open b \<and> lo \<le> br_close b \<and> br_open b \<le> hi \<and> br_close b \<le> hi
        \<and> 0 \<le> br_volume b \<and> 0 \<le> br_oi b \<and> br_available b mod minutes 1 = 0
    | _ \<Rightarrow> False)"

lemma integral_number_nonneg: "integral_number v = Inr n \<Longrightarrow> 0 \<le> n"
  by (auto simp: integral_number_def Let_def split: jval.splits if_splits option.splits decnum.splits)

lemma parse_bar_Inr:
  assumes "parse_bar row seen = Inr (stamp, b)"
  shows "stamp \<notin> set seen \<and> br_available b = seconds stamp + minutes 1 \<and> bar_valid b"
proof -
  obtain ts op hi lo cl vol oi where row: "row = (ts, op, hi, lo, cl, vol, oi)" by (cases row)
  from assms obtain o' h l c v i where
    s: "integral_number ts = Inr stamp" "stamp mod 60 = 0" "stamp \<notin> set seen"
    and v: "integral_number vol = Inr v" "integral_number oi = Inr i"
    and p: "0 < min (min o' h) (min l c)" "l \<le> min o' c" "max o' c \<le> h"
    and b: "b = \<lparr>br_available = seconds stamp + minutes 1, br_open = o', br_close = c, br_volume = v, br_oi = i,
      br_high = Some h, br_low = Some l\<rparr>"
    by (auto simp: parse_bar_def row bindR_Inr_iff split: if_splits)
  have "(seconds stamp + minutes 1) mod minutes 1 = 0"
  proof -
    from s(2) obtain m where "stamp = 60 * m" by (auto simp: zmod_eq_0_iff)
    then have "seconds stamp + minutes 1 = (m + 1) * minutes 1" by (simp add: seconds_def minutes_def)
    then show ?thesis by simp
  qed
  with s v p show ?thesis by (auto simp: b bar_valid_def dest: integral_number_nonneg)
qed

lemma parse_rows_Inr:
  "parse_rows rows seen = Inr bs \<Longrightarrow>
   distinct (map br_available bs) \<and> list_all bar_valid bs
   \<and> (\<forall>b\<in>set bs. \<forall>stamp\<in>set seen. br_available b \<noteq> seconds stamp + minutes 1)"
proof (induction rows seen arbitrary: bs rule: parse_rows.induct)
  case (2 row rows seen)
  from "2.prems" obtain stamp b ts where h: "parse_bar row seen = Inr (stamp, b)" "parse_rows rows (stamp # seen) = Inr ts"
    and bs: "bs = b # ts"
    by (auto simp: bindR_Inr_iff)
  from "2.IH" [OF h(2)] parse_bar_Inr [OF h(1)] show ?case
    by (auto simp: bs seconds_def)
qed simp

text \<open>
  C20: An accepted minute history holds each minute at most once, in time order, under the instant the
  bar became available, with no bar later than the receipt of the history, prices that are positive
  and ordered low, open and close, high, and volumes and open interest that are not negative.
\<close>

theorem parse_bars_sound:
  assumes "parse_bars payload received_at require_oi = Inr s"
  shows "sorted (map fst s) \<and> distinct (map fst s)
    \<and> list_all (\<lambda>(t, b). br_available b = t \<and> t \<le> received_at \<and> bar_valid b) s"
proof -
  from assms obtain rows bs where rows: "parse_rows rows [] = Inr bs"
    and s: "s = sort_key fst (map (\<lambda>b. (br_available b, b)) (filter (\<lambda>b. br_available b \<le> received_at) bs))"
    by (auto simp: parse_bars_def Let_def bindR_Inr_iff split: option.splits if_splits)
  from parse_rows_Inr [OF rows] have bs: "distinct (map br_available bs)" "list_all bar_valid bs" by auto
  have "distinct (map fst (map (\<lambda>b. (br_available b, b)) (filter (\<lambda>b. br_available b \<le> received_at) bs)))"
    using bs(1) by (simp add: comp_def distinct_map_filter)
  then have "distinct (map fst s)" by (simp add: s distinct_map inj_on_def)
  moreover have "list_all (\<lambda>(t, b). br_available b = t \<and> t \<le> received_at \<and> bar_valid b) s"
    using bs(2) by (auto simp: s list_all_iff)
  ultimately show ?thesis by (simp add: s)
qed

definition demo_history :: minute_history where
  "demo_history = \<lparr>mh_timestamp = [JInt 120, JInt 60, JInt 180], mh_open = [JInt 10, JInt 11, JInt 12], mh_high = [JInt 12, JInt 12, JInt 12],
     mh_low = [JInt 9, JInt 9, JInt 9], mh_close = [JInt 11, JInt 10, JInt 10], mh_volume = [JInt 1, JInt 2, JInt 3], mh_oi = None\<rparr>"

lemma demo_history_parsed:
  "map_sum id (map fst) (parse_bars (Some demo_history) (seconds 180) False) = Inr [seconds 120, seconds 180]"
  by code_simp

lemma parse_bars_sound_witness:
  "sorted (map fst (projr (parse_bars (Some demo_history) (seconds 180) False)))
   \<and> map fst (projr (parse_bars (Some demo_history) (seconds 180) False)) = [seconds 120, seconds 180]"
proof -
  obtain s where "parse_bars (Some demo_history) (seconds 180) False = Inr s" "map fst s = [seconds 120, seconds 180]"
    using demo_history_parsed by (cases "parse_bars (Some demo_history) (seconds 180) False") auto
  then show ?thesis using parse_bars_sound by fastforce
qed

section \<open>The next check\<close>

lemma first_of_in: "(case xs of [] \<Rightarrow> None | x # _ \<Rightarrow> Some x) = Some y \<Longrightarrow> y \<in> set xs"
  by (cases xs) auto

text \<open>
  C21: The next check of a rule lies strictly in the future and strictly inside a session the exchange
  calendar confirms, the current or the next one, that opens at 09:15; for the gap rule never on an
  expiry day.
\<close>

theorem next_check_in_session:
  assumes "next_check strategy now calendar expiries = Some t"
  shows "\<exists>c opens closes. calendar = Some c \<and> cal_fresh c now \<and> now < t \<and> opens < t \<and> t < closes
    \<and> ist_time opens = clock 9 15 \<and> ist_date t = ist_date opens
    \<and> (opens = cl_next_opens c \<and> closes = cl_next_closes c \<or> cl_opens c = Some opens \<and> cl_closes c = Some closes)
    \<and> (strategy = GAP \<longrightarrow> ist_date t \<notin> set expiries)"
proof -
  have "0 \<le> k \<and> k < DAY_US" if "k \<in> set (check_clocks strategy)" for k
    using that by (auto simp: check_clocks_def clock_def DAY_US_def split: if_splits)
  then have d: "ist_date (ist_at d k) = d" if "k \<in> set (check_clocks strategy)" for d k
    using that by simp
  from assms obtain c where c: "calendar = Some c" "cal_fresh c now"
    by (auto simp: next_check_def split: option.splits if_splits)
  let ?sessions = "(case (cl_opens c, cl_closes c) of (Some t, Some u) \<Rightarrow> [(t, u)] | _ \<Rightarrow> []) @ [(cl_next_opens c, cl_next_closes c)]"
  let ?cand = "concat (map (\<lambda>(t, u). filter (\<lambda>x. now < x \<and> t < x \<and> x < u) (map (ist_at (ist_date t)) (check_clocks strategy)))
    (filter (\<lambda>(t, u). ist_time t = clock 9 15 \<and> \<not> (strategy = GAP \<and> ist_date t \<in> set expiries)) ?sessions))"
  have "next_check strategy now calendar expiries = (case ?cand of [] \<Rightarrow> None | x # _ \<Rightarrow> Some x)"
    using c by (simp add: next_check_def Let_def)
  with assms have "(case ?cand of [] \<Rightarrow> None | x # _ \<Rightarrow> Some x) = Some t" by simp
  then have "t \<in> set ?cand" by (rule first_of_in)
  then obtain opens closes where s: "(opens, closes) \<in> set ?sessions"
    and t: "now < t" "opens < t" "t < closes" "ist_time opens = clock 9 15" "\<not> (strategy = GAP \<and> ist_date opens \<in> set expiries)"
      "ist_date t = ist_date opens"
    using d unfolding set_concat set_map set_filter by fastforce
  from s have "opens = cl_next_opens c \<and> closes = cl_next_closes c \<or> cl_opens c = Some opens \<and> cl_closes c = Some closes"
    by (auto split: option.splits)
  with c t show ?thesis by metis
qed

definition demo_calendar :: calendar where
  "demo_calendar = \<lparr>cl_opens = Some (ist_at 20000 (clock 9 15)), cl_closes = Some (ist_at 20000 (clock 15 30)),
     cl_previous_opens = ist_at 19999 (clock 9 15), cl_previous_closes = ist_at 19999 (clock 15 30),
     cl_next_opens = ist_at 20001 (clock 9 15), cl_next_closes = ist_at 20001 (clock 15 30),
     cl_checked_at = ist_at 20000 (clock 15 0), cl_day = Some 20000, cl_spot_closes = None, cl_previous_spot_closes = None\<rparr>"

lemma demo_next_check: "next_check REBOUND (ist_at 20000 (clock 15 20)) (Some demo_calendar) [20003] = Some (ist_at 20001 (clock 15 10))"
  by code_simp

lemma next_check_in_session_witness: "ist_at 20000 (clock 15 20) < ist_at 20001 (clock 15 10)"
  using next_check_in_session [OF demo_next_check] by blast


end
