(* ===== verification/Expanded.thy ===== *)
theory Expanded
  imports Sessions
begin

text \<open>
  The ported research rules of \<open>dhan_cas_bot/expanded_strategies.py\<close>: the table of
  rule names, the indicator helpers over completed bars, one definition per rule
  family and the evaluation that selects, bounds and confines them. A rule returns
  its direction (1, -1 or 0) with the details it reports, or the exception that
  makes the evaluation unknown.
\<close>

section \<open>The table of rules\<close>

definition INTRADAY :: "string list" where
  "INTRADAY = [''OPEN_DRIVE'', ''GAP_FADE'', ''FIRST_LAST'', ''TREND_PULLBACK'', ''VOLUME_REVERSAL'',
     ''SECTOR_CATCHUP'', ''RANGE_FAILURE'', ''AFTERNOON_COMPRESSION'', ''CHAIN_UNWIND'', ''SKEW_UNWIND'']"

definition MULTI :: "string list" where
  "MULTI = [''FUTURE_TREND'', ''FUTURE_OI'', ''BASIS_LEAD'', ''IV_CHEAP_TREND'', ''SKEW_UNWIND'',
     ''SECTOR_CONFIRM'', ''GIFT_CATCHUP'', ''CHAIN_UNWIND'', ''PCR_CONFIRM'', ''PAIN_ESCAPE'',
     ''INSTITUTIONAL_ALIGN'', ''PUBLISHED_PCR'', ''PUBLISHED_PAIN'']"

definition READINESS :: "string list" where
  "READINESS = [''FAILED_ORB'', ''VWAP_RECLAIM'', ''COMPRESSION_BREAK'', ''PRIOR_OI_WALL'']"

definition SPOT :: "string list" where
  "SPOT = [''ORB30'', ''LATE_BREAK'', ''LATE_FADE'', ''TREND1445'', ''OPTION_ACCEL'', ''OPTION_ACCEL_OI'']"

definition OVERNIGHT :: "string list" where
  "OVERNIGHT = [''NIFTY_SELLOFF_REBOUND'', ''NIFTY_DAY_CONTINUATION'', ''NIFTY_TREND_ALIGNMENT'']"

definition FRONTIER :: "string list" where
  "FRONTIER = [''SELLOFF_CALL'', ''SELLOFF_PUT'', ''RALLY_CALL'', ''RALLY_PUT'', ''TWO_SIDED_REVERSAL'',
     ''TWO_SIDED_CONTINUATION'', ''TREND_PULLBACK'', ''TREND_CONTINUATION'']"

record rule_spec =
  rs_family :: string
  rs_style :: string
  rs_scope :: string
  rs_schedule :: string

definition spec :: "string \<Rightarrow> string \<Rightarrow> string \<Rightarrow> string \<Rightarrow> rule_spec" where
  "spec f st sc sch = \<lparr>rs_family = f, rs_style = st, rs_scope = sc, rs_schedule = sch\<rparr>"

definition SPECS :: "(string \<times> rule_spec) list" where
  "SPECS =
     concat (map (\<lambda>f. map (\<lambda>st. (f @ ''_'' @ st, spec f st ''ORDINARY'' ''INTRADAY''))
       [''FAST'', ''SWING'', ''DOUBLE'']) INTRADAY)
     @ concat (map (\<lambda>f. concat (map (\<lambda>sc.
         if f \<in> set SPOT \<and> sc = ''ORDINARY'' then []
         else map (\<lambda>st. (sc @ ''_'' @ f @ ''_'' @ st, spec f st sc ''MARKET'')) [''TARGET'', ''TRAIL''])
         [''EXPIRY'', ''ORDINARY''])) (MULTI @ READINESS @ SPOT))
     @ concat (map (\<lambda>f. map (\<lambda>st. (f @ ''_'' @ st, spec f st ''EXPIRY'' ''MARKET'')) [''TARGET'', ''TRAIL'']) SPOT)
     @ concat (map (\<lambda>f. map (\<lambda>c. (f @ ''_'' @ c, spec f ''DOUBLE'' ''ANY'' c)) [''0930'', ''1510'']) OVERNIGHT)
     @ map (\<lambda>f. (f, spec f ''DOUBLE'' ''ANY'' ''FRONTIER'')) FRONTIER"

definition EXPANDED_NAMES :: "string list" where
  "EXPANDED_NAMES = map fst SPECS"

text \<open>The names of \<open>session_strategies.py\<close> every component accepts.\<close>

definition STRATEGIES :: "string list" where
  "STRATEGIES = rev (remdups (rev ([GAP, REBOUND, CAS, SHOCK] @ EXPANDED_NAMES @ SECONDS_NAMES)))"

section \<open>Exit policies\<close>

record exit_policy =
  xp_target :: "decimal option"
  xp_stop :: decimal
  xp_trail :: bool
  xp_hold_minutes :: "int option"

definition exit_policy :: "string \<Rightarrow> exit_policy" where
  "exit_policy strategy =
     (let style = (case map_of SPECS strategy of None \<Rightarrow> ''DOUBLE'' | Some s \<Rightarrow> rs_style s);
          (target, stop, hold) =
            (if style = ''FAST'' then (Some (125 / 100), 85 / 100, Some 30)
             else if style = ''SWING'' then (Some (150 / 100), 75 / 100, Some 60)
             else if style = ''TRAIL'' then (None, 5 / 10, None)
             else (Some 2, 5 / 10, None))
      in \<lparr>xp_target = target, xp_stop = stop, xp_trail = (style = ''TRAIL''), xp_hold_minutes = hold\<rparr>)"

definition opt_dec :: "decimal option \<Rightarrow> dval" where
  "opt_dec x = (case x of None \<Rightarrow> DNone | Some d \<Rightarrow> DDec d)"

definition policy_details :: "exit_policy \<Rightarrow> details" where
  "policy_details p = [(''exit_target'', opt_dec (xp_target p)), (''exit_stop'', DDec (xp_stop p)),
     (''exit_trail'', DBool (xp_trail p)),
     (''hold_minutes'', case xp_hold_minutes p of None \<Rightarrow> DNone | Some n \<Rightarrow> DInt n)]"

section \<open>Indicators over completed bars\<close>

definition xbar :: "series \<Rightarrow> instant \<Rightarrow> bar res" where
  "xbar s t = (case map_of s t of
      None \<Rightarrow> Inl (Missing ''MISSING_COMPLETED_BAR'')
    | Some b \<Rightarrow> if br_available b \<noteq> t \<or> br_close b \<le> 0 then Inl (Missing ''MISSING_COMPLETED_BAR'') else Inr b)"

definition xclose :: "series \<Rightarrow> instant \<Rightarrow> decimal res" where
  "xclose s t = bindR (xbar s t) (\<lambda>b. Inr (br_close b))"

text \<open>\<open>a / b - 1\<close>\<close>

definition rise :: "decimal \<Rightarrow> decimal \<Rightarrow> decimal res" where
  "rise a b = bindR (qdiv a b) (\<lambda>q. Inr (dsub q 1))"

definition ret :: "series \<Rightarrow> instant \<Rightarrow> int \<Rightarrow> decimal res" where
  "ret s t n = bindR (xclose s t) (\<lambda>a. bindR (xclose s (t - minutes n)) (\<lambda>b. rise a b))"

definition sign :: "decimal \<Rightarrow> decimal" where
  "sign x = (if 0 < x then 1 else if x < 0 then -1 else 0)"

text \<open>Closes \<open>first\<close>, \<open>first - 1\<close>, \<dots>, \<open>final\<close> minutes before \<open>t\<close>.\<close>

definition closes_back :: "series \<Rightarrow> instant \<Rightarrow> int list \<Rightarrow> decimal list res" where
  "closes_back s t ks = mapR (\<lambda>i. xclose s (t - minutes i)) ks"

definition bars_back :: "series \<Rightarrow> instant \<Rightarrow> int list \<Rightarrow> bar list res" where
  "bars_back s t ks = mapR (\<lambda>i. xbar s (t - minutes i)) ks"

definition persistent :: "series \<Rightarrow> instant \<Rightarrow> decimal \<Rightarrow> bool res" where
  "persistent s t direction =
     bindR (closes_back s t [2, 1, 0]) (\<lambda>rows. Inr (direction \<noteq> 0 \<and> persistent_closes direction rows))"

definition range_values :: "bar list \<Rightarrow> (decimal \<times> decimal) res" where
  "range_values rows =
     (if rows = [] \<or> list_ex (\<lambda>b. br_high b = None \<or> br_low b = None) rows then Inl (Missing ''MISSING_OHLC_RANGE'')
      else Inr (Max (set (map (the \<circ> br_high) rows)), Min (set (map (the \<circ> br_low) rows))))"

definition session_rows :: "series \<Rightarrow> instant \<Rightarrow> instant \<Rightarrow> bar list res" where
  "session_rows s opening stop = mapR (\<lambda>k. xbar s (opening + minutes k)) [1..(stop - opening) div minutes 1]"

definition vwap :: "series \<Rightarrow> instant \<Rightarrow> instant \<Rightarrow> decimal res" where
  "vwap s opening stop = bindR (session_rows s opening stop) (\<lambda>rows.
     if rows = [] \<or> list_ex (\<lambda>b. br_high b = None \<or> br_low b = None) rows then Inl (Missing ''MISSING_VWAP_INPUTS'')
     else let volume = sum_by br_volume rows
          in if volume \<le> 0 then Inl (Missing ''ZERO_FUTURE_VOLUME'')
             else Inr (ddiv (foldl (\<lambda>acc b. dadd acc (dmul (ddiv (the (br_high b) + the (br_low b) + br_close b) 3)
                                                      (of_int (br_volume b)))) 0 rows) (of_int volume)))"

text \<open>\<open>median\<close> of volumes: the middle one, or the mean of the middle two.\<close>

definition median :: "int list \<Rightarrow> decimal res" where
  "median xs =
     (let ys = sort xs; n = length ys; i = n div 2
      in if n = 0 then Inl (ValueError ''no median for empty data'')
         else Inr (if n mod 2 = 1 then of_int (ys ! i) else of_int (ys ! (i - 1) + ys ! i) / 2))"

fun total3 :: "int list \<Rightarrow> int list" where
  "total3 (a # b # c # xs) = (a + b + c) # total3 xs"
| "total3 xs = []"

section \<open>Published features\<close>

type_synonym option_series = "((option_type \<times> decimal) \<times> series) list"

type_synonym 'a published = "(instant option \<times> 'a) option"

record chain =
  pc_oi :: "((option_type \<times> decimal) \<times> int) list"
  pc_pcr_change :: decimal
  pc_max_pain :: decimal

record institutions =
  in_fii :: decimal
  in_dii :: decimal
  in_source :: day

record features =
  ft_bank :: series
  ft_it :: series
  ft_vix :: series
  ft_gift :: series
  ft_options :: option_series
  ft_prior_trend :: "decimal published"
  ft_iv :: "(decimal \<times> (option_type \<times> decimal) list) list published"
  ft_pcr_pain :: "((instant \<times> decimal) list \<times> (instant \<times> decimal) list) published"
  ft_prior_chain :: "chain published"
  ft_institutions :: "institutions published"

definition no_features :: features where
  "no_features = \<lparr>ft_bank = [], ft_it = [], ft_vix = [], ft_gift = [], ft_options = [], ft_prior_trend = None,
     ft_iv = None, ft_pcr_pain = None, ft_prior_chain = None, ft_institutions = None\<rparr>"

definition published :: "'a published \<Rightarrow> string \<Rightarrow> instant \<Rightarrow> (instant \<times> 'a) res" where
  "published row name now = (case row of
      None \<Rightarrow> Inl (Missing (''MISSING_'' @ name))
    | Some (None, _) \<Rightarrow> Inl (Missing ''SOURCE_NOT_YET_AVAILABLE'')
    | Some (Some t, x) \<Rightarrow> if now < t then Inl (Missing ''SOURCE_NOT_YET_AVAILABLE'') else Inr (t, x))"

definition option_bar :: "option_series \<Rightarrow> instant \<Rightarrow> option_type \<Rightarrow> decimal \<Rightarrow> bar res" where
  "option_bar options t side k = (case map_of (case map_of options (side, k) of None \<Rightarrow> [] | Some s \<Rightarrow> s) t of
      None \<Rightarrow> Inl (Missing ''MISSING_SAME_STRIKE_OPTION'')
    | Some b \<Rightarrow> if br_available b \<noteq> t \<or> br_close b \<le> 0 then Inl (Missing ''MISSING_SAME_STRIKE_OPTION'') else Inr b)"

definition strikes_of :: "option_series \<Rightarrow> decimal list" where
  "strikes_of options = sort (remdups (map (snd \<circ> fst) options))"

definition nearest_strike :: "decimal list \<Rightarrow> decimal \<Rightarrow> decimal option" where
  "nearest_strike strikes x = py_min_by (\<lambda>k. (\<bar>k - x\<bar>, k)) strikes"

text \<open>What every rule reads.\<close>

record rule_inputs =
  ri_now :: instant
  ri_minute :: instant
  ri_calendar :: calendar
  ri_opens :: instant
  ri_spot :: series
  ri_future :: series
  ri_features :: features
  ri_current :: decimal
  ri_open :: decimal

type_synonym signal = "(decimal \<times> details) res"

text \<open>\<open>v if b and \<dots> else 0\<close> with the details of the rule.\<close>

definition directed :: "decimal \<Rightarrow> bool res \<Rightarrow> details \<Rightarrow> signal" where
  "directed v cond detail = bindR cond (\<lambda>b. Inr (if b then v else 0, detail))"

section \<open>Intraday rules\<close>

definition open_drive :: "rule_inputs \<Rightarrow> decimal \<Rightarrow> signal" where
  "open_drive x f5 =
     bindR (rise (ri_current x) (ri_open x)) (\<lambda>r. let v = sign r in
     bindR (vwap (ri_future x) (ri_opens x) (ri_minute x)) (\<lambda>level.
     bindR (xclose (ri_future x) (ri_minute x)) (\<lambda>f.
       directed v (andR (35 / 10000 \<le> \<bar>r\<bar> \<and> 0 < v * f5 \<and> 0 < v * (f - level)) (persistent (ri_spot x) (ri_minute x) v))
         [(''open_return'', DDec r), (''future_vwap'', DDec level)])))"

definition gap_fade :: "rule_inputs \<Rightarrow> decimal \<Rightarrow> signal" where
  "gap_fade x f5 =
     bindR (xclose (ri_spot x) (previous_close_time (ri_calendar x))) (\<lambda>previous.
     bindR (rise (ri_open x) previous) (\<lambda>gap. let v = - sign gap in
     bindR (if ri_open x = previous then Inr 0 else qdiv (ri_open x - ri_current x) (ri_open x - previous)) (\<lambda>fraction.
       directed v (andR (5 / 1000 \<le> \<bar>gap\<bar> \<and> 1 / 4 \<le> fraction \<and> fraction \<le> 1 \<and> 0 < v * f5)
                        (persistent (ri_spot x) (ri_minute x) v))
         [(''gap'', DDec gap), (''fraction_filled'', DDec fraction)])))"

definition first_last :: "rule_inputs \<Rightarrow> decimal \<Rightarrow> signal" where
  "first_last x f5 =
     bindR (xclose (ri_spot x) (ri_opens x + minutes 30)) (\<lambda>c.
     bindR (rise c (ri_open x)) (\<lambda>r. let v = sign r in
       directed v (andR (2 / 1000 \<le> \<bar>r\<bar> \<and> 0 < v * (ri_current x - ri_open x) \<and> 0 < v * f5)
                        (persistent (ri_spot x) (ri_minute x) v))
         [(''first_half_hour_return'', DDec r)]))"

definition trend_pullback :: "rule_inputs \<Rightarrow> decimal \<Rightarrow> signal" where
  "trend_pullback x f5 =
     bindR (ret (ri_spot x) (ri_minute x) 30) (\<lambda>r.
     bindR (ret (ri_spot x) (ri_minute x) 10) (\<lambda>pull. let v = sign r in
       directed v (andR (25 / 10000 \<le> \<bar>r\<bar> \<and> v * pull < 0 \<and> 0 < v * f5) (persistent (ri_spot x) (ri_minute x) v))
         [(''trend_30m'', DDec r), (''pullback_10m'', DDec pull)]))"

definition volume_reversal :: "rule_inputs \<Rightarrow> signal" where
  "volume_reversal x =
     bindR (ret (ri_spot x) (ri_minute x) 15) (\<lambda>r. let v = - sign r in
     bindR (bars_back (ri_future x) (ri_minute x) [0..32]) (\<lambda>rows. let volumes = map br_volume rows in
     bindR (median (total3 (drop 3 volumes))) (\<lambda>base.
       if base \<le> 0 then Inl (Missing ''ZERO_VOLUME_BASE'')
       else bindR (qdiv (of_int (sum_list (take 3 volumes))) base) (\<lambda>ratio.
         directed v (andR (2 / 1000 \<le> \<bar>r\<bar> \<and> 3 \<le> ratio)
             (bindR (ret (ri_future x) (ri_minute x) 1) (\<lambda>f1. andR (0 < v * f1) (persistent (ri_spot x) (ri_minute x) v))))
           [(''move_15m'', DDec r), (''volume_ratio'', DDec ratio)]))))"

definition sector_catchup :: "rule_inputs \<Rightarrow> decimal \<Rightarrow> signal" where
  "sector_catchup x f5 =
     bindR (ret (ft_bank (ri_features x)) (ri_minute x) 15) (\<lambda>b.
     bindR (ret (ft_it (ri_features x)) (ri_minute x) 15) (\<lambda>i.
     bindR (ret (ri_spot x) (ri_minute x) 15) (\<lambda>s. let v = sign b in
       directed v (andR (2 / 1000 \<le> \<bar>b\<bar> \<and> 2 / 1000 \<le> v * i \<and> v * s < ddiv (min \<bar>b\<bar> \<bar>i\<bar>) 2 \<and> 0 < v * f5)
                        (persistent (ri_spot x) (ri_minute x) v))
         [(''bank_15m'', DDec b), (''it_15m'', DDec i), (''spot_15m'', DDec s)])))"

definition range_failure :: "rule_inputs \<Rightarrow> decimal \<Rightarrow> signal" where
  "range_failure x f5 =
     bindR (session_rows (ri_spot x) (ri_opens x) (ri_opens x + minutes 30)) (\<lambda>rows.
     bindR (range_values rows) (\<lambda>(hi, lo).
     bindR (closes_back (ri_spot x) (ri_minute x) [1..15]) (\<lambda>past.
       let current = ri_current x;
           attempt = (\<lambda>v failed. andR (failed \<and> 0 < v * f5) (persistent (ri_spot x) (ri_minute x) v));
           detail = [(''opening_high'', DDec hi), (''opening_low'', DDec lo)]
       in if lo \<le> current \<and> current \<le> hi
          then bindR (attempt 1 (Min (set past) < lo - current * (5 / 10000))) (\<lambda>up.
                 if up then Inr (1, detail)
                 else directed (-1) (attempt (-1) (hi + current * (5 / 10000) < Max (set past))) detail)
          else Inr (0, detail))))"

definition afternoon_compression :: "rule_inputs \<Rightarrow> decimal \<Rightarrow> signal" where
  "afternoon_compression x f5 =
     bindR (bars_back (ri_spot x) (ri_minute x) [3..32]) (\<lambda>rows.
     bindR (range_values rows) (\<lambda>(hi, lo).
     bindR (closes_back (ri_spot x) (ri_minute x) [2, 1, 0]) (\<lambda>latest.
     bindR (qdiv (hi - lo) (ri_current x)) (\<lambda>width.
       Inr (if width \<le> 15 / 10000
            then if hi < Min (set latest) \<and> 0 < f5 then 1 else if Max (set latest) < lo \<and> f5 < 0 then -1 else 0
            else 0,
            [(''compressed_high'', DDec hi), (''compressed_low'', DDec lo)])))))"

definition intraday_rule :: "string \<Rightarrow> rule_inputs \<Rightarrow> signal" where
  "intraday_rule family x = bindR (ret (ri_future x) (ri_minute x) 5) (\<lambda>f5.
     if family = ''OPEN_DRIVE'' then open_drive x f5
     else if family = ''GAP_FADE'' then gap_fade x f5
     else if family = ''FIRST_LAST'' then first_last x f5
     else if family = ''TREND_PULLBACK'' then trend_pullback x f5
     else if family = ''VOLUME_REVERSAL'' then volume_reversal x
     else if family = ''SECTOR_CATCHUP'' then sector_catchup x f5
     else if family = ''RANGE_FAILURE'' then range_failure x f5
     else afternoon_compression x f5)"

section \<open>Futures-trend rules\<close>

definition future_core :: "rule_inputs \<Rightarrow> signal" where
  "future_core x =
     bindR (ret (ri_spot x) (ri_minute x) 15) (\<lambda>s.
     bindR (ret (ri_future x) (ri_minute x) 15) (\<lambda>f. let v = sign s in
     bindR (vwap (ri_future x) (ri_opens x) (ri_minute x)) (\<lambda>level.
       directed v (andR (1 / 1000 \<le> \<bar>s\<bar> \<and> 0 < v * f)
                        (bindR (xclose (ri_future x) (ri_minute x)) (\<lambda>c. Inr (0 < v * (c - level)))))
         [(''spot_15m'', DDec s), (''future_15m'', DDec f), (''future_vwap'', DDec level)])))"

definition volume_multiple :: "rule_inputs \<Rightarrow> decimal res" where
  "volume_multiple x =
     bindR (bars_back (ri_future x) (ri_minute x) [0..2]) (\<lambda>recent.
     bindR (bars_back (ri_future x) (ri_minute x) [3..22]) (\<lambda>older.
     bindR (median (map br_volume older)) (\<lambda>base.
       if base \<le> 0 then Inl (Missing ''ZERO_VOLUME_BASE'') else qdiv (of_int (sum_by br_volume recent)) (base * 3))))"

text \<open>Each filter keeps the direction \<open>d\<close> or drops it, adding what it read.\<close>

definition future_oi :: "rule_inputs \<Rightarrow> decimal \<Rightarrow> signal" where
  "future_oi x d =
     bindR (xbar (ri_future x) (ri_minute x - minutes 5)) (\<lambda>b0. bindR (xbar (ri_future x) (ri_minute x)) (\<lambda>b1.
       let old = br_oi b0; new = br_oi b1
       in if old \<le> 0 then Inl (Missing ''MISSING_FUTURE_OI'')
          else let ratio = ddiv (of_int new) (of_int old)
               in Inr (if ratio < 101 / 100 then 0 else d, [(''future_oi_5m'', DDec (dsub ratio 1))])))"

text \<open>
  \<open>realized\<close> is the realized volatility of 31 closes, a floating-point function
  of the logarithms of their ratios.
\<close>

definition iv_cheap :: "(decimal list \<Rightarrow> decimal) \<Rightarrow> rule_inputs \<Rightarrow> decimal \<Rightarrow> signal" where
  "iv_cheap realized x d =
     bindR (published (ft_iv (ri_features x)) ''IV'' (ri_now x)) (\<lambda>(received, values).
       case nearest_strike (map fst values) (ri_current x) of
         None \<Rightarrow> Inl (ValueError ''min() iterable argument is empty'')
       | Some k \<Rightarrow>
           let iv = (case map_of (case map_of values k of None \<Rightarrow> [] | Some sides \<Rightarrow> sides) (if 0 < d then CE else PE) of
                 None \<Rightarrow> 0 | Some v \<Rightarrow> v)
           in if iv \<le> 0 \<or> seconds 90 < ri_now x - received then Inl (Missing ''MISSING_CURRENT_IV'')
              else bindR (closes_back (ri_spot x) (ri_minute x) (rev [0..30])) (\<lambda>prices.
                   bindR (ret (ft_vix (ri_features x)) (ri_minute x) 15) (\<lambda>v.
                     let rv = realized prices
                     in Inr (if rv < iv \<or> v < 0 then 0 else d,
                          [(''iv'', DDec iv), (''realized_vol_30m'', DDec rv), (''vix_15m'', DDec v)]))))"

text \<open>A bucket that is absent or zero.\<close>

definition bucket :: "(instant \<times> decimal) list \<Rightarrow> instant \<Rightarrow> string \<Rightarrow> decimal res" where
  "bucket rows t name = (case map_of rows t of
      None \<Rightarrow> Inl (Missing name) | Some v \<Rightarrow> if v = 0 then Inl (Missing name) else Inr v)"

definition pcr_confirm :: "rule_inputs \<Rightarrow> decimal \<Rightarrow> signal" where
  "pcr_confirm x d =
     bindR (published (ft_pcr_pain (ri_features x)) ''INSIGHTS'' (ri_now x)) (\<lambda>(_, pcr, _).
     bindR (bucket pcr (ri_minute x) ''MISSING_PCR_INSIGHT'') (\<lambda>new.
     bindR (bucket pcr (ri_minute x - minutes 5) ''MISSING_PCR_INSIGHT'') (\<lambda>old.
     bindR (rise new old) (\<lambda>change. Inr (if d * change < 1 / 10 then 0 else d, [(''pcr_change_5m'', DDec change)])))))"

definition published_pcr :: "rule_inputs \<Rightarrow> decimal \<Rightarrow> signal" where
  "published_pcr x d =
     bindR (published (ft_prior_chain (ri_features x)) ''PRIOR_CHAIN'' (ri_now x)) (\<lambda>(_, row).
       let change = pc_pcr_change row in Inr (if d * change < 1 / 10 then 0 else d, [(''pcr_change'', DDec change)]))"

text \<open>The first close is not beyond the level, both later ones are.\<close>

definition crosses :: "decimal \<Rightarrow> decimal list \<Rightarrow> decimal \<Rightarrow> bool" where
  "crosses d closes level = (d * (hd closes - level) \<le> 0 \<and> list_all (\<lambda>p. 0 < d * (p - level)) (tl closes))"

definition pain_rule :: "bool \<Rightarrow> rule_inputs \<Rightarrow> decimal \<Rightarrow> signal" where
  "pain_rule prior x d =
     bindR (if prior
            then bindR (published (ft_prior_chain (ri_features x)) ''PRIOR_CHAIN'' (ri_now x)) (\<lambda>(_, row).
                   if pc_max_pain row = 0 then Inl (Missing ''MISSING_MAX_PAIN_INSIGHT'') else Inr (pc_max_pain row))
            else bindR (published (ft_pcr_pain (ri_features x)) ''INSIGHTS'' (ri_now x)) (\<lambda>(_, _, pain).
                   bucket pain (ri_minute x) ''MISSING_MAX_PAIN_INSIGHT'')) (\<lambda>level.
     bindR (closes_back (ri_spot x) (ri_minute x) [2, 1, 0]) (\<lambda>closes.
       Inr (if crosses d closes level then d else 0, [(''known_max_pain'', DDec level)])))"

definition institutional_align :: "rule_inputs \<Rightarrow> decimal \<Rightarrow> signal" where
  "institutional_align x d =
     bindR (published (ft_institutions (ri_features x)) ''INSTITUTIONS'' (ri_now x)) (\<lambda>(_, row).
       Inr (if d * in_fii row \<le> 0 \<or> d * in_dii row \<le> 0 then 0 else d,
         [(''fii_net_change'', DDec (in_fii row)), (''dii_net'', DDec (in_dii row)), (''source_date'', DInt (in_source row))]))"

definition trend_filter :: "(decimal list \<Rightarrow> decimal) \<Rightarrow> string \<Rightarrow> rule_inputs \<Rightarrow> decimal \<Rightarrow> signal" where
  "trend_filter realized family x d =
     (if family = ''FUTURE_OI'' then future_oi x d
      else if family = ''IV_CHEAP_TREND'' then iv_cheap realized x d
      else if family = ''PCR_CONFIRM'' then pcr_confirm x d
      else if family = ''PUBLISHED_PCR'' then published_pcr x d
      else if family = ''PAIN_ESCAPE'' then pain_rule False x d
      else if family = ''PUBLISHED_PAIN'' then pain_rule True x d
      else if family = ''INSTITUTIONAL_ALIGN'' then institutional_align x d
      else Inr (d, []))"

definition trend_rule :: "(decimal list \<Rightarrow> decimal) \<Rightarrow> string \<Rightarrow> rule_inputs \<Rightarrow> signal" where
  "trend_rule realized family x = bindR (future_core x) (\<lambda>(d, detail).
     if d = 0 then Inr (d, detail)
     else bindR (trend_filter realized family x d) (\<lambda>(d, more). Inr (d, detail @ more)))"

section \<open>Cross-market rules\<close>

definition basis_lead :: "rule_inputs \<Rightarrow> signal" where
  "basis_lead x =
     bindR (ret (ri_future x) (ri_minute x) 5) (\<lambda>f. bindR (ret (ri_spot x) (ri_minute x) 5) (\<lambda>s. let v = sign f in
     bindR (xclose (ri_future x) (ri_minute x)) (\<lambda>f1. bindR (xclose (ri_future x) (ri_minute x - minutes 5)) (\<lambda>f0.
     bindR (xclose (ri_spot x) (ri_minute x - minutes 5)) (\<lambda>s0.
     bindR (qdiv f1 (ri_current x)) (\<lambda>b1. bindR (qdiv f0 s0) (\<lambda>b0. let basis = dsub b1 b0 in
       directed v (andR (1 / 1000 \<le> \<bar>f\<bar> \<and> 5 / 10000 \<le> v * basis) (persistent (ri_spot x) (ri_minute x) v))
         [(''future_5m'', DDec f), (''spot_5m'', DDec s), (''basis_change'', DDec basis)])))))))"

definition sector_confirm :: "rule_inputs \<Rightarrow> signal" where
  "sector_confirm x =
     bindR (ret (ri_spot x) (ri_minute x) 15) (\<lambda>s. let v = sign s in
     bindR (ret (ft_bank (ri_features x)) (ri_minute x) 15) (\<lambda>b.
     bindR (ret (ft_it (ri_features x)) (ri_minute x) 15) (\<lambda>i.
       Inr (if 1 / 1000 \<le> \<bar>s\<bar> \<and> 5 / 10000 \<le> v * b \<and> 5 / 10000 \<le> v * i then v else 0,
         [(''spot_15m'', DDec s), (''bank_15m'', DDec b), (''it_15m'', DDec i)]))))"

definition gift_catchup :: "rule_inputs \<Rightarrow> signal" where
  "gift_catchup x =
     (let lead_at = ri_minute x - minutes 2 in
      bindR (ret (ft_gift (ri_features x)) lead_at 15) (\<lambda>lead.
      bindR (ret (ri_spot x) (ri_minute x) 15) (\<lambda>s. let v = sign lead in
        directed v (andR (15 / 10000 \<le> \<bar>lead\<bar> \<and> v * s < ddiv \<bar>lead\<bar> 2) (persistent (ri_spot x) (ri_minute x) v))
          [(''gift_15m'', DDec lead), (''spot_15m'', DDec s), (''lead_available'', DTime lead_at)])))"

section \<open>Option-chain rules\<close>

definition other_side :: "option_type \<Rightarrow> option_type" where
  "other_side s = (case s of CE \<Rightarrow> PE | PE \<Rightarrow> CE)"

definition total_oi :: "option_series \<Rightarrow> decimal list \<Rightarrow> option_type \<Rightarrow> instant \<Rightarrow> int res" where
  "total_oi options ks side t =
     bindR (mapR (\<lambda>k. option_bar options t side k) ks) (\<lambda>bs. Inr (sum_by br_oi bs))"

definition chain_unwind ::
  "rule_inputs \<Rightarrow> decimal list \<Rightarrow> nat \<Rightarrow> option_type \<Rightarrow> decimal \<Rightarrow> details \<Rightarrow> signal" where
  "chain_unwind x strikes j side v detail =
     (let options = ft_options (ri_features x); t = ri_minute x;
          ks = take (j + 2 - (j - 1)) (drop (j - 1) strikes)
      in if length ks \<noteq> 3 then Inl (Missing ''MISSING_CHAIN_NEIGHBOURS'')
         else bindR (total_oi options ks side (t - minutes 5)) (\<lambda>own.
              bindR (total_oi options ks (other_side side) (t - minutes 5)) (\<lambda>opp.
              if min own opp \<le> 0 then Inl (Missing ''MISSING_CHAIN_OI'')
              else bindR (total_oi options ks side t) (\<lambda>own_now. bindR (total_oi options ks (other_side side) t) (\<lambda>opp_now.
                let own_ratio = ddiv (of_int own_now) (of_int own); opp_ratio = ddiv (of_int opp_now) (of_int opp)
                in Inr (if own_ratio \<le> 95 / 100 \<and> 105 / 100 \<le> opp_ratio then v else 0,
                     detail @ [(''own_oi'', DDec (dsub own_ratio 1)), (''opposite_oi'', DDec (dsub opp_ratio 1))]))))))"

definition skew_unwind :: "rule_inputs \<Rightarrow> decimal \<Rightarrow> bar \<Rightarrow> bar \<Rightarrow> option_type \<Rightarrow> decimal \<Rightarrow> details \<Rightarrow> signal" where
  "skew_unwind x k cur old side v detail =
     (if br_oi old \<le> 0 then Inl (Missing ''MISSING_OPTION_OI'')
      else bindR (option_bar (ft_options (ri_features x)) (ri_minute x) (other_side side) k) (\<lambda>o1.
           bindR (option_bar (ft_options (ri_features x)) (ri_minute x - minutes 3) (other_side side) k) (\<lambda>o0.
             let opp = ddiv (br_close o1) (br_close o0); oi = ddiv (of_int (br_oi cur)) (of_int (br_oi old))
             in Inr (if oi \<le> 92 / 100 \<and> opp \<le> 90 / 100 then v else 0,
                  detail @ [(''oi_change'', DDec (dsub oi 1)), (''opposite_return'', DDec (dsub opp 1))]))))"

fun position :: "'a \<Rightarrow> 'a list \<Rightarrow> nat" where
  "position x [] = 0"
| "position x (y # ys) = (if x = y then 0 else Suc (position x ys))"

definition unwind_rule :: "bool \<Rightarrow> rule_inputs \<Rightarrow> signal" where
  "unwind_rule chain x =
     (let options = ft_options (ri_features x); strikes = strikes_of options; t = ri_minute x in
      case nearest_strike strikes (ri_current x) of
        None \<Rightarrow> Inl (Missing ''MISSING_SAME_STRIKE_OPTION'')
      | Some k \<Rightarrow>
          bindR (ret (ri_future x) t 5) (\<lambda>f.
            let v = sign f; side = (if 0 < v then CE else PE); look = (if chain then 5 else 3)
            in bindR (option_bar options t side k) (\<lambda>cur. bindR (option_bar options (t - minutes look) side k) (\<lambda>old.
               bindR (rise (br_close cur) (br_close old)) (\<lambda>r.
                 let detail = [(''premium_return'', DDec r), (''strike'', DDec k), (''future_5m'', DDec f)]
                 in if v \<noteq> 0 \<and> (if chain then 15 / 100 else 25 / 100) \<le> r
                    then if chain then chain_unwind x strikes (position k strikes) side v detail
                         else skew_unwind x k cur old side v detail
                    else Inr (0, detail))))))"

text \<open>One side of the accelerated option: its three-minute return and whether its open interest unwound.\<close>

definition acceleration :: "bool \<Rightarrow> option_series \<Rightarrow> instant \<Rightarrow> decimal \<Rightarrow> option_type \<Rightarrow> (decimal \<times> option_type \<times> bool) option res" where
  "acceleration need_unwind options t k side =
     bindR (mapR (\<lambda>j. option_bar options (t - minutes j) side k) (rev [0..32])) (\<lambda>rows.
     let volumes = map br_volume rows; now_bar = rows ! 32; then_bar = rows ! 29 in
     bindR (rise (br_close now_bar) (br_close then_bar)) (\<lambda>r.
     bindR (median (total3 (take 30 volumes))) (\<lambda>base.
       let unwind = (0 < br_oi then_bar \<and> ddiv (of_int (br_oi now_bar)) (of_int (br_oi then_bar)) \<le> 92 / 100)
       in Inr (if 25 / 100 \<le> r \<and> 0 < base \<and> base * 2 \<le> of_int (sum_list (drop 30 volumes)) \<and> (need_unwind \<longrightarrow> unwind)
               then Some (r, side, unwind) else None))))"

definition option_accel :: "bool \<Rightarrow> rule_inputs \<Rightarrow> signal" where
  "option_accel need_unwind x =
     (let options = ft_options (ri_features x) in
      bindR (xclose (ri_spot x) (ist_at (ist_date (ri_now x)) (clock 14 45))) (\<lambda>anchor.
      case nearest_strike (strikes_of options) anchor of
        None \<Rightarrow> Inl (Missing ''MISSING_SAME_STRIKE_OPTION'')
      | Some k \<Rightarrow>
          bindR (mapR (acceleration need_unwind options (ri_minute x) k) [CE, PE]) (\<lambda>found.
            Inr (case py_min_by (\<lambda>(r, side, unwind). (- r, if side = CE then 0 else 1 :: int)) (List.map_filter id found) of
                None \<Rightarrow> (0, [])
              | Some (r, side, unwind) \<Rightarrow> (if side = CE then 1 else -1,
                  [(''premium_return_3m'', DDec r), (''anchor_spot'', DDec anchor), (''oi_unwind'', DBool unwind)])))))"

definition wall_side ::
  "rule_inputs \<Rightarrow> chain \<Rightarrow> decimal \<Rightarrow> decimal list \<Rightarrow> option_type \<times> decimal \<Rightarrow> (decimal \<times> details) option res" where
  "wall_side x row anchor closes sv = (case sv of (side, v) \<Rightarrow>
     let ks = map (\<lambda>((s, k), oi). (k, oi)) (filter (\<lambda>((s, k), oi). s = side \<and> \<bar>k - anchor\<bar> \<le> 200) (pc_oi row))
     in case py_min_by (\<lambda>(k, oi). (- oi, k)) ks of
          None \<Rightarrow> Inl (Missing ''MISSING_PRIOR_WALL'')
        | Some (k, oi) \<Rightarrow>
            if oi \<le> 0 then Inl (Missing ''ZERO_PRIOR_WALL_OI'')
            else bindR (andR (crosses v closes k) (bindR (ret (ri_future x) (ri_minute x) 3) (\<lambda>f. Inr (0 < v * f)))) (\<lambda>go.
              if \<not> go then Inr None
              else bindR (option_bar (ft_options (ri_features x)) (ri_minute x) side k) (\<lambda>cur.
                   bindR (option_bar (ft_options (ri_features x)) (ri_minute x - minutes 3) side k) (\<lambda>old.
                     if br_oi old \<le> 0 then Inl (Missing ''MISSING_PRIOR_OPTION_OI'')
                     else let oi_ratio = ddiv (of_int (br_oi cur)) (of_int (br_oi old));
                              premium = ddiv (br_close cur) (br_close old)
                          in Inr (if oi_ratio \<le> 92 / 100 \<and> 125 / 100 \<le> premium
                                  then Some (v, [(''prior_oi_wall'', DDec k), (''oi_change'', DDec (dsub oi_ratio 1)),
                                         (''premium_return'', DDec (dsub premium 1))]) else None)))))"

definition prior_oi_wall :: "rule_inputs \<Rightarrow> signal" where
  "prior_oi_wall x =
     bindR (published (ft_prior_chain (ri_features x)) ''PRIOR_CHAIN'' (ri_now x)) (\<lambda>(_, row).
     bindR (xclose (ri_spot x) (ist_at (ist_date (ri_now x)) (clock 9 30))) (\<lambda>anchor.
     bindR (closes_back (ri_spot x) (ri_minute x) [2, 1, 0]) (\<lambda>closes.
     bindR (wall_side x row anchor closes (CE, 1)) (\<lambda>up. case up of
         Some r \<Rightarrow> Inr r
       | None \<Rightarrow> bindR (wall_side x row anchor closes (PE, -1)) (\<lambda>down. Inr (case down of Some r \<Rightarrow> r | None \<Rightarrow> (0, [])))))))"

section \<open>Readiness rules\<close>

definition compression_break :: "rule_inputs \<Rightarrow> signal" where
  "compression_break x =
     bindR (bars_back (ri_spot x) (ri_minute x) [3..32]) (\<lambda>rows.
     bindR (range_values rows) (\<lambda>(hi, lo).
     bindR (closes_back (ri_spot x) (ri_minute x) [0, 1, 2]) (\<lambda>closes.
       let v = (if hi * (10002 / 10000) \<le> Min (set closes) then 1
                else if Max (set closes) \<le> lo * (9998 / 10000) then -1 else 0 :: decimal)
       in bindR (volume_multiple x) (\<lambda>ratio. bindR (qdiv (hi - lo) ((hi + lo) / 2)) (\<lambda>width.
          directed v (andR (width \<le> 1 / 1000) (bindR (ret (ri_future x) (ri_minute x) 3) (\<lambda>f. Inr (0 < v * f \<and> 2 \<le> ratio))))
            [(''compression_high'', DDec hi), (''compression_low'', DDec lo), (''volume_ratio'', DDec ratio)])))))"

text \<open>The futures close less its session VWAP, both at \<open>t\<close>.\<close>

definition vwap_difference :: "rule_inputs \<Rightarrow> instant \<Rightarrow> decimal res" where
  "vwap_difference x t =
     bindR (xclose (ri_future x) t) (\<lambda>c. bindR (vwap (ri_future x) (ri_opens x) t) (\<lambda>level. Inr (dsub c level)))"

definition vwap_reclaim :: "rule_inputs \<Rightarrow> signal" where
  "vwap_reclaim x =
     bindR (mapR (\<lambda>i. vwap_difference x (ri_minute x - minutes i)) (rev [2..16])) (\<lambda>ds.
       let v = (if list_all (\<lambda>p. p < 0) ds then 1 else if list_all (\<lambda>p. 0 < p) ds then -1 else 0 :: decimal)
       in bindR (andR (v \<noteq> 0) (bindR (allR (\<lambda>i. bindR (vwap_difference x (ri_minute x - minutes i)) (\<lambda>p. Inr (0 < v * p))) [1, 0])
              (\<lambda>b. andR b (persistent (ri_spot x) (ri_minute x) v)))) (\<lambda>b.
          if \<not> b then Inr (0, [])
          else bindR (volume_multiple x) (\<lambda>ratio. bindR (vwap (ri_future x) (ri_opens x) (ri_minute x)) (\<lambda>level.
               Inr (if 2 \<le> ratio then v else 0, [(''volume_ratio'', DDec ratio), (''future_vwap'', DDec level)])))))"

fun first_break :: "series \<Rightarrow> decimal \<Rightarrow> decimal \<Rightarrow> instant list \<Rightarrow> (decimal \<times> instant) option res" where
  "first_break s hi lo [] = Inr None"
| "first_break s hi lo (t # ts) = bindR (closes_back s t [0, 1, 2]) (\<lambda>closes.
     if hi * (10005 / 10000) \<le> Min (set closes) then Inr (Some (1, t))
     else if Max (set closes) \<le> lo * (9995 / 10000) then Inr (Some (-1, t))
     else first_break s hi lo ts)"

definition failed_orb :: "rule_inputs \<Rightarrow> signal" where
  "failed_orb x =
     bindR (session_rows (ri_spot x) (ri_opens x) (ri_opens x + minutes 30)) (\<lambda>rows.
     bindR (range_values rows) (\<lambda>(hi, lo).
     bindR (first_break (ri_spot x) hi lo
        (takeWhile (\<lambda>t. t < ri_minute x) (map (\<lambda>k. ri_opens x + minutes k) [32..(ri_minute x - ri_opens x) div minutes 1]))) (\<lambda>broken.
       case broken of
         None \<Rightarrow> Inr (0, [])
       | Some (v, t) \<Rightarrow>
           bindR (allR (\<lambda>i. bindR (xclose (ri_spot x) (ri_minute x - minutes i)) (\<lambda>c. Inr (lo \<le> c \<and> c \<le> hi))) [1, 0]) (\<lambda>inside.
           bindR (andR inside (persistent (ri_future x) (ri_minute x) (- v))) (\<lambda>b.
             if \<not> b then Inr (0, [])
             else bindR (volume_multiple x) (\<lambda>ratio. Inr (if 2 \<le> ratio then - v else 0,
                  [(''first_break_at'', DTime t), (''opening_high'', DDec hi), (''opening_low'', DDec lo),
                   (''volume_ratio'', DDec ratio)])))))))"

definition readiness_rule :: "string \<Rightarrow> rule_inputs \<Rightarrow> signal" where
  "readiness_rule family x =
     (if family = ''COMPRESSION_BREAK'' then compression_break x
      else if family = ''VWAP_RECLAIM'' then vwap_reclaim x
      else if family = ''FAILED_ORB'' then failed_orb x
      else Inr (0, []))"

section \<open>Opening-range and late-session rules\<close>

text \<open>The first close at least five points outside the box, in the minutes before the current one.\<close>

fun first_outside :: "series \<Rightarrow> decimal \<Rightarrow> decimal \<Rightarrow> instant list \<Rightarrow> decimal res" where
  "first_outside s hi lo [] = Inr 0"
| "first_outside s hi lo (t # ts) = bindR (xclose s t) (\<lambda>p.
     if hi + 5 \<le> p then Inr 1 else if p \<le> lo - 5 then Inr (-1) else first_outside s hi lo ts)"

definition box_rule :: "string \<Rightarrow> rule_inputs \<Rightarrow> signal" where
  "box_rule family x =
     (let start = (if family = ''ORB30'' then ri_opens x else ist_at (ist_date (ri_now x)) (clock 14 15));
          stop = start + minutes (if family = ''ORB30'' then 30 else 15)
      in bindR (session_rows (ri_spot x) start stop) (\<lambda>rows.
         bindR (range_values rows) (\<lambda>(hi, lo).
         bindR (closes_back (ri_spot x) (ri_minute x) [1, 0]) (\<lambda>closes.
           let detail = [(''box_high'', DDec hi), (''box_low'', DDec lo)]
           in if family = ''LATE_FADE''
              then bindR (first_outside (ri_spot x) hi lo (takeWhile (\<lambda>t. t < ri_minute x)
                       (map (\<lambda>k. stop + minutes k) [1..(ri_minute x - stop) div minutes 1]))) (\<lambda>broken.
                     Inr (if broken \<noteq> 0 \<and> list_all (\<lambda>p. lo \<le> p \<and> p \<le> hi) closes then - broken else 0, detail))
              else Inr (if hi + 5 \<le> Min (set closes) then 1 else if Max (set closes) \<le> lo - 5 then -1 else 0, detail)))))"

definition trend_1445 :: "rule_inputs \<Rightarrow> signal" where
  "trend_1445 x =
     bindR (session_rows (ri_spot x) (ist_at (ist_date (ri_now x)) (clock 13 44)) (ri_minute x)) (\<lambda>rows.
       let prices = map br_close rows; n = length prices in
       if n < 16 then Inl IndexError
       else let base = prices ! (n - 16); final = prices ! (n - 1); change = final - base;
                recent = last_n 16 prices; path = sum_by (\<lambda>(a, b). \<bar>b - a\<bar>) (zip recent (tl recent))
            in bindR (qdiv change base) (\<lambda>r.
                 Inr (if 1 / 1000 \<le> \<bar>r\<bar> \<and> 0 < change * (final - hd prices) \<and> 0 < path \<and> 60 / 100 \<le> ddiv \<bar>change\<bar> path
                      then sign change else 0,
                   [(''efficiency'', if path \<noteq> 0 then DDec (ddiv \<bar>change\<bar> path) else DNone)])))"

definition spot_rule :: "string \<Rightarrow> rule_inputs \<Rightarrow> signal" where
  "spot_rule family x = (if family = ''TREND1445'' then trend_1445 x else box_rule family x)"

section \<open>Rules held overnight\<close>

definition overnight_direction :: "string \<Rightarrow> decimal \<Rightarrow> decimal option \<Rightarrow> decimal" where
  "overnight_direction family r trend =
     (let v = sign r; big = 75 / 10000 \<le> \<bar>r\<bar>; t = (case trend of None \<Rightarrow> 0 | Some x \<Rightarrow> x) in
      if family = ''NIFTY_SELLOFF_REBOUND'' \<or> family = ''SELLOFF_CALL'' then if r \<le> - 75 / 10000 then 1 else 0
      else if family = ''SELLOFF_PUT'' then if r \<le> - 75 / 10000 then -1 else 0
      else if family = ''RALLY_CALL'' then if 75 / 10000 \<le> r then 1 else 0
      else if family = ''RALLY_PUT'' then if 75 / 10000 \<le> r then -1 else 0
      else if family = ''TWO_SIDED_REVERSAL'' then if big then - v else 0
      else if family = ''TWO_SIDED_CONTINUATION'' then if big then v else 0
      else if family = ''NIFTY_DAY_CONTINUATION'' then if 5 / 1000 \<le> \<bar>r\<bar> then v else 0
      else if family = ''NIFTY_TREND_ALIGNMENT'' then if 2 / 1000 \<le> \<bar>r\<bar> \<and> 0 < r * t then v else 0
      else if family = ''TREND_CONTINUATION'' then if big \<and> 0 < r * t then v else 0
      else if family = ''TREND_PULLBACK'' then if big \<and> r * t < 0 then - v else 0
      else 0)"

definition trend_families :: "string list" where
  "trend_families = [''NIFTY_DAY_CONTINUATION'', ''NIFTY_TREND_ALIGNMENT'', ''TREND_CONTINUATION'', ''TREND_PULLBACK'']"

definition overnight_rule :: "string \<Rightarrow> string \<Rightarrow> rule_inputs \<Rightarrow> (decimal \<times> details \<times> instant) res" where
  "overnight_rule family schedule x =
     bindR (rise (ri_current x) (ri_open x)) (\<lambda>r.
     bindR (if family \<in> set trend_families
            then bindR (published (ft_prior_trend (ri_features x)) ''PRIOR_TREND'' (ri_now x)) (\<lambda>(_, v). Inr (Some v))
            else Inr None) (\<lambda>trend.
       let c = ri_calendar x;
           exit_at = ist_at (ist_date (cl_next_opens c)) (if schedule = ''0930'' then clock 9 30 else clock 15 10)
       in if \<not> (cl_next_opens c < exit_at \<and> exit_at < cl_next_closes c) then Inl (Missing ''NEXT_SESSION_EXIT_UNAVAILABLE'')
          else Inr (overnight_direction family r trend,
            (case trend of None \<Rightarrow> [] | Some t \<Rightarrow> [(''prior_trend_20d'', DDec t)]) @ [(''open_return'', DDec r)], exit_at)))"

section \<open>The evaluation\<close>

definition overnight_schedule :: "string \<Rightarrow> bool" where
  "overnight_schedule schedule = (schedule \<in> set [''0930'', ''1510'', ''FRONTIER''])"

definition window :: "string \<Rightarrow> string \<Rightarrow> int \<times> int" where
  "window family schedule =
     (if overnight_schedule schedule then (910, 910)
      else if family = ''OPTION_ACCEL'' \<or> family = ''OPTION_ACCEL_OI'' then (885, 930)
      else if family = ''TREND1445'' then (885, 885)
      else if family = ''LATE_BREAK'' \<or> family = ''LATE_FADE'' then (871, 914)
      else if family = ''ORB30'' then (586, 720)
      else if family = ''OPEN_DRIVE'' then (585, 630)
      else if family = ''GAP_FADE'' then (585, 690)
      else if family = ''FIRST_LAST'' then (885, 885)
      else if family = ''AFTERNOON_COMPRESSION'' then (810, 885)
      else if schedule = ''INTRADAY'' then (600, 885)
      else (600, 910))"

definition in_window :: "string \<Rightarrow> string \<Rightarrow> instant \<Rightarrow> bool" where
  "in_window family schedule t =
     (let m = ist_time t div minutes 1; (first, final) = window family schedule;
          step = (if family \<in> set MULTI \<or> schedule = ''INTRADAY'' then 5 else 1)
      in first \<le> m \<and> m \<le> final \<and> m mod step = 0)"

definition family_rule ::
  "(decimal list \<Rightarrow> decimal) \<Rightarrow> string \<Rightarrow> string \<Rightarrow> rule_inputs \<Rightarrow> instant option \<Rightarrow> (decimal \<times> details \<times> instant option) res" where
  "family_rule realized family schedule x exit_at =
     (let same_day = (\<lambda>m. bindR m (\<lambda>(d, detail). Inr (d, detail, exit_at))) in
      if overnight_schedule schedule
      then bindR (overnight_rule family schedule x) (\<lambda>(d, detail, t). Inr (d, detail, Some t))
      else if family \<in> set [''OPEN_DRIVE'', ''GAP_FADE'', ''FIRST_LAST'', ''TREND_PULLBACK'', ''VOLUME_REVERSAL'',
          ''SECTOR_CATCHUP'', ''RANGE_FAILURE'', ''AFTERNOON_COMPRESSION''] then same_day (intraday_rule family x)
      else if family \<in> set [''FUTURE_TREND'', ''FUTURE_OI'', ''IV_CHEAP_TREND'', ''PCR_CONFIRM'', ''PAIN_ESCAPE'',
          ''INSTITUTIONAL_ALIGN'', ''PUBLISHED_PCR'', ''PUBLISHED_PAIN''] then same_day (trend_rule realized family x)
      else if family = ''BASIS_LEAD'' then same_day (basis_lead x)
      else if family = ''SECTOR_CONFIRM'' then same_day (sector_confirm x)
      else if family = ''GIFT_CATCHUP'' then same_day (gift_catchup x)
      else if family = ''CHAIN_UNWIND'' \<or> family = ''SKEW_UNWIND'' then same_day (unwind_rule (family = ''CHAIN_UNWIND'') x)
      else if family = ''OPTION_ACCEL'' \<or> family = ''OPTION_ACCEL_OI'' then same_day (option_accel (family = ''OPTION_ACCEL_OI'') x)
      else if family = ''PRIOR_OI_WALL'' then same_day (prior_oi_wall x)
      else if family \<in> set READINESS then same_day (readiness_rule family x)
      else if family \<in> set SPOT then same_day (spot_rule family x)
      else Inr (0, [], exit_at))"

definition evaluate_family ::
  "(decimal list \<Rightarrow> decimal) \<Rightarrow> rule_spec \<Rightarrow> exit_policy \<Rightarrow> instant \<Rightarrow> instant \<Rightarrow> calendar \<Rightarrow> instant \<Rightarrow> series \<Rightarrow> series
   \<Rightarrow> features \<Rightarrow> (decimal \<times> details \<times> instant option) res" where
  "evaluate_family realized s policy now minute c opens spot future features =
     bindR (xclose spot minute) (\<lambda>current. bindR (xbar spot (opens + minutes 1)) (\<lambda>first_bar.
       let op = br_open first_bar in
       if op \<le> 0 then Inl (Missing ''INVALID_OPEN_REFERENCE'')
       else bindR (family_rule realized (rs_family s) (rs_schedule s)
              \<lparr>ri_now = now, ri_minute = minute, ri_calendar = c, ri_opens = opens, ri_spot = spot, ri_future = future,
               ri_features = features, ri_current = current, ri_open = op\<rparr>
              (map_option (\<lambda>t. t - minutes 6) (cl_closes c))) (\<lambda>(d, detail, exit_at).
            Inr (d, detail, case xp_hold_minutes policy of
              None \<Rightarrow> exit_at | Some n \<Rightarrow> map_option (\<lambda>t. min t (minute + minutes (1 + n))) exit_at))))"

text \<open>\<open>except (Missing, KeyError, ArithmeticError, ValueError)\<close>; any other exception escapes.\<close>

definition outcome :: "(decimal \<times> details \<times> instant option) res \<Rightarrow> (string \<times> string \<times> option_type option \<times> details \<times> instant option) res" where
  "outcome r = (case r of
      Inr (d, detail, exit_at) \<Rightarrow> Inr (if d \<noteq> 0 then ''SIGNAL'' else ''NO_SIGNAL'',
        if d \<noteq> 0 then ''EXPANDED_RULE_CONFIRMED'' else ''EXPANDED_RULE_NOT_MET'',
        if 0 < d then Some CE else if d < 0 then Some PE else None, detail, exit_at)
    | Inl (Missing m) \<Rightarrow> Inr (''UNKNOWN'', m, None, [], None)
    | Inl e \<Rightarrow> (case e of IndexError \<Rightarrow> Inl e | TypeError \<Rightarrow> Inl e | IntegrityError \<Rightarrow> Inl e | BrokerFailure b \<Rightarrow> Inl e
        | ReconciliationChanged b \<Rightarrow> Inl e
        | _ \<Rightarrow> Inr (''UNKNOWN'', ''COMPLETED_INPUT_MISSING_OR_INVALID'', None, [], None)))"

definition plain_outcome :: "string \<Rightarrow> string \<Rightarrow> (string \<times> string \<times> option_type option \<times> details \<times> instant option) res" where
  "plain_outcome state reason = Inr (state, reason, None, [], None)"

definition expanded_outcome ::
  "(decimal list \<Rightarrow> decimal) \<Rightarrow> rule_spec \<Rightarrow> exit_policy \<Rightarrow> instant \<Rightarrow> instant \<Rightarrow> calendar option \<Rightarrow> series \<Rightarrow> series
   \<Rightarrow> day list \<Rightarrow> features \<Rightarrow> (string \<times> string \<times> option_type option \<times> details \<times> instant option) res" where
  "expanded_outcome realized s policy now minute calendar spot future expiries features =
     (if \<not> (0 \<le> now - minute \<and> now - minute \<le> seconds 90) then plain_outcome ''UNKNOWN'' ''STRATEGY_INPUTS_STALE''
      else case calendar of
        None \<Rightarrow> plain_outcome ''UNKNOWN'' ''CALENDAR_UNAVAILABLE''
      | Some c \<Rightarrow>
          if \<not> cal_fresh c now then plain_outcome ''UNKNOWN'' ''CALENDAR_UNAVAILABLE''
          else if \<not> is_open c now then plain_outcome ''WAITING'' ''EXCHANGE_CLOSED''
          else if expiries = [] then plain_outcome ''UNKNOWN'' ''CONTRACT_CALENDAR_UNAVAILABLE''
          else let expiry = ist_date now \<in> set expiries in
            if rs_scope s = ''EXPIRY'' \<and> \<not> expiry \<or> rs_scope s = ''ORDINARY'' \<and> expiry
            then plain_outcome ''NOT_APPLICABLE''
                   (if expiry then ''EXPIRY_SESSION_OUTSIDE_RESEARCH_SCOPE'' else ''REQUIRES_EXPIRY_SESSION'')
            else (case cl_opens c of
                None \<Rightarrow> plain_outcome ''WAITING'' ''EXCHANGE_CLOSED''
              | Some opens \<Rightarrow>
                  if ist_time opens \<noteq> clock 9 15 then plain_outcome ''NOT_APPLICABLE'' ''SPECIAL_SESSION_OUTSIDE_RESEARCH_SCOPE''
                  else if \<not> in_window (rs_family s) (rs_schedule s) minute
                  then plain_outcome ''WAITING'' ''OUTSIDE_STRATEGY_WINDOW''
                  else outcome (evaluate_family realized s policy now minute c opens spot future features)))"

definition expanded_evaluate ::
  "(decimal list \<Rightarrow> decimal) \<Rightarrow> string \<Rightarrow> instant \<Rightarrow> calendar option \<Rightarrow> series \<Rightarrow> series \<Rightarrow> day list \<Rightarrow> features
   \<Rightarrow> instant option \<Rightarrow> evaluation res" where
  "expanded_evaluate realized strategy now calendar spot future expiries features bar_time =
     (case map_of SPECS strategy of
        None \<Rightarrow> Inl (ContractError ''unknown directional strategy'')
      | Some s \<Rightarrow>
          let minute = floor_minute (case bar_time of None \<Rightarrow> now | Some t \<Rightarrow> t); policy = exit_policy strategy
          in bindR (expanded_outcome realized s policy now minute calendar spot future expiries features)
               (\<lambda>(state, reason, side, detail, exit_at). Inr
                 \<lparr>ev_strategy = strategy, ev_state = state, ev_reason = reason, ev_at = minute, ev_side = side,
                  ev_spot = (case dget ''anchor_spot'' detail of DDec a \<Rightarrow> Some a | _ \<Rightarrow> map_option br_close (map_of spot minute)),
                  ev_minimum_expiry = Some (case exit_at of
                      Some t \<Rightarrow> if overnight_schedule (rs_schedule s) then ist_date t + 1 else ist_date now
                    | None \<Rightarrow> ist_date now),
                  ev_exit_at = exit_at, ev_details = detail @ policy_details policy,
                  ev_conditions = [\<lparr>cn_key = ''rule'',
                    cn_state = (if state = ''SIGNAL'' then PASS else if state = ''NO_SIGNAL'' then FAIL else UNKNOWN_STATE),
                    cn_value = DText reason\<rparr>],
                  ev_next_check = None\<rparr>))"

section \<open>No bar is read before it is available\<close>

definition known_by :: "instant \<Rightarrow> series \<Rightarrow> series" where
  "known_by t s = filter (\<lambda>(u, _). u \<le> t) s"

definition features_upto :: "instant \<Rightarrow> features \<Rightarrow> features" where
  "features_upto t f = f\<lparr>ft_bank := known_by t (ft_bank f), ft_it := known_by t (ft_it f), ft_vix := known_by t (ft_vix f),
     ft_gift := known_by t (ft_gift f), ft_options := map (\<lambda>(k, s). (k, known_by t s)) (ft_options f)\<rparr>"

definition inputs_upto :: "instant \<Rightarrow> rule_inputs \<Rightarrow> rule_inputs" where
  "inputs_upto t x = x\<lparr>ri_spot := known_by t (ri_spot x), ri_future := known_by t (ri_future x), ri_features := features_upto t (ri_features x)\<rparr>"

named_theorems bounded_reads \<open>an indicator at or before the boundary reads only bars up to it\<close>

lemma map_of_upto [bounded_reads]: "u \<le> t \<Longrightarrow> map_of (known_by t s) u = map_of s u"
  by (induction s) (auto simp: known_by_def)

lemma xbar_upto [bounded_reads]: "u \<le> t \<Longrightarrow> xbar (known_by t s) u = xbar s u"
  by (simp add: xbar_def bounded_reads)

lemma xclose_upto [bounded_reads]: "u \<le> t \<Longrightarrow> xclose (known_by t s) u = xclose s u"
  by (simp add: xclose_def bounded_reads)

lemma minutes_nonneg [simp]: "0 \<le> minutes n \<longleftrightarrow> 0 \<le> n"
  by (simp add: minutes_def seconds_def)

lemma ret_upto [bounded_reads]: "u \<le> t \<Longrightarrow> 0 \<le> n \<Longrightarrow> ret (known_by t s) u n = ret s u n"
proof -
  assume "u \<le> t" "0 \<le> n"
  moreover from this have "u - minutes n \<le> t" by (simp add: minutes_def seconds_def)
  ultimately show ?thesis by (simp add: ret_def bounded_reads)
qed

lemma mapR_cong: "xs = ys \<Longrightarrow> (\<And>x. x \<in> set ys \<Longrightarrow> f x = g x) \<Longrightarrow> mapR f xs = mapR g ys"
  by (induction ys arbitrary: xs) auto

lemma back_upto [bounded_reads]:
  assumes "u \<le> t" "\<forall>k\<in>set ks. 0 \<le> k"
  shows "closes_back (known_by t s) u ks = closes_back s u ks" "bars_back (known_by t s) u ks = bars_back s u ks"
proof -
  have "u - minutes k \<le> t" if "k \<in> set ks" for k
  proof -
    have "0 \<le> minutes k" using assms(2) that by simp
    with assms(1) show ?thesis by linarith
  qed
  then show "closes_back (known_by t s) u ks = closes_back s u ks" "bars_back (known_by t s) u ks = bars_back s u ks"
    by (auto simp: closes_back_def bars_back_def bounded_reads intro!: mapR_cong)
qed

lemma persistent_upto [bounded_reads]: "u \<le> t \<Longrightarrow> persistent (known_by t s) u v = persistent s u v"
  by (simp add: persistent_def bounded_reads)

lemma session_rows_upto [bounded_reads]:
  assumes "stop \<le> t"
  shows "session_rows (known_by t s) opening stop = session_rows s opening stop"
  unfolding session_rows_def
proof (rule mapR_cong)
  fix k assume "k \<in> set [1..(stop - opening) div minutes 1]"
  then have "k * minutes 1 \<le> (stop - opening) div minutes 1 * minutes 1"
    by (intro mult_right_mono) (auto simp: minutes_def seconds_def)
  also have "\<dots> \<le> stop - opening" by (rule div_mult_le) (simp add: minutes_def seconds_def)
  finally have "opening + minutes k \<le> t" using assms by (simp add: minutes_def seconds_def)
  then show "xbar (known_by t s) (opening + minutes k) = xbar s (opening + minutes k)" by (rule xbar_upto)
qed simp

lemma vwap_upto [bounded_reads]: "stop \<le> t \<Longrightarrow> vwap (known_by t s) opening stop = vwap s opening stop"
  by (simp add: vwap_def bounded_reads)

lemma option_bar_upto [bounded_reads]:
  "u \<le> t \<Longrightarrow> option_bar (map (\<lambda>(k, s). (k, known_by t s)) opts) u side k = option_bar opts u side k"
proof -
  assume u: "u \<le> t"
  have "map_of (map (\<lambda>(k, s). (k, known_by t s)) opts) x = map_option (known_by t) (map_of opts x)" for x
    by (induction opts) auto
  with u show ?thesis by (cases "map_of opts (side, k)") (simp_all add: option_bar_def bounded_reads)
qed

lemma strikes_of_upto [bounded_reads]: "strikes_of (map (\<lambda>(k, s). (k, known_by t s)) opts) = strikes_of opts"
  by (simp add: strikes_of_def case_prod_beta' comp_def)


lemma inputs_upto_simps [simp]:
  "ri_now (inputs_upto t x) = ri_now x" "ri_minute (inputs_upto t x) = ri_minute x"
  "ri_calendar (inputs_upto t x) = ri_calendar x" "ri_opens (inputs_upto t x) = ri_opens x"
  "ri_spot (inputs_upto t x) = known_by t (ri_spot x)" "ri_future (inputs_upto t x) = known_by t (ri_future x)"
  "ri_features (inputs_upto t x) = features_upto t (ri_features x)"
  "ri_current (inputs_upto t x) = ri_current x" "ri_open (inputs_upto t x) = ri_open x"
  by (simp_all add: inputs_upto_def)

lemma features_upto_simps [simp]:
  "ft_bank (features_upto t f) = known_by t (ft_bank f)" "ft_it (features_upto t f) = known_by t (ft_it f)"
  "ft_vix (features_upto t f) = known_by t (ft_vix f)" "ft_gift (features_upto t f) = known_by t (ft_gift f)"
  "ft_options (features_upto t f) = map (\<lambda>(k, s). (k, known_by t s)) (ft_options f)"
  "ft_prior_trend (features_upto t f) = ft_prior_trend f" "ft_iv (features_upto t f) = ft_iv f"
  "ft_pcr_pain (features_upto t f) = ft_pcr_pain f" "ft_prior_chain (features_upto t f) = ft_prior_chain f"
  "ft_institutions (features_upto t f) = ft_institutions f"
  by (simp_all add: features_upto_def)

lemma minus_minutes_le [simp]: "0 \<le> n \<Longrightarrow> t - minutes n \<le> t"
  by (simp add: minutes_def)

lemma future_core_upto: "ri_minute x \<le> t \<Longrightarrow> future_core (inputs_upto t x) = future_core x"
  by (simp add: future_core_def bounded_reads)

lemma volume_multiple_upto [bounded_reads]: "ri_minute x \<le> t \<Longrightarrow> volume_multiple (inputs_upto t x) = volume_multiple x"
  by (simp add: volume_multiple_def bounded_reads)


lemma intraday_upto [bounded_reads]:
  assumes "ri_minute x = t"
  shows "open_drive (inputs_upto t x) f5 = open_drive x f5"
    "trend_pullback (inputs_upto t x) f5 = trend_pullback x f5"
    "volume_reversal (inputs_upto t x) = volume_reversal x"
    "sector_catchup (inputs_upto t x) f5 = sector_catchup x f5"
    "afternoon_compression (inputs_upto t x) f5 = afternoon_compression x f5"
  using assms
  by (simp_all add: open_drive_def trend_pullback_def volume_reversal_def sector_catchup_def afternoon_compression_def
      bounded_reads cong: if_cong)

lemma gap_fade_upto [bounded_reads]:
  "ri_minute x = t \<Longrightarrow> previous_close_time (ri_calendar x) \<le> t \<Longrightarrow> gap_fade (inputs_upto t x) f5 = gap_fade x f5"
  by (simp add: gap_fade_def bounded_reads cong: if_cong)

lemma opening_upto [bounded_reads]:
  assumes "ri_minute x = t" "ri_opens x + minutes 30 \<le> t"
  shows "first_last (inputs_upto t x) f5 = first_last x f5"
    "range_failure (inputs_upto t x) f5 = range_failure x f5"
  using assms by (simp_all add: first_last_def range_failure_def bounded_reads cong: if_cong)

lemma intraday_rule_upto [bounded_reads]:
  assumes "ri_minute x = t" "previous_close_time (ri_calendar x) \<le> t"
    and "family = ''FIRST_LAST'' \<or> family = ''RANGE_FAILURE'' \<Longrightarrow> ri_opens x + minutes 30 \<le> t"
  shows "intraday_rule family (inputs_upto t x) = intraday_rule family x"
  unfolding intraday_rule_def using assms by (simp add: bounded_reads cong: if_cong del: list.inject char.inject)

lemma trend_filters_upto [bounded_reads]:
  assumes "ri_minute x = t"
  shows "future_oi (inputs_upto t x) d = future_oi x d" "iv_cheap realized (inputs_upto t x) d = iv_cheap realized x d"
    "pcr_confirm (inputs_upto t x) d = pcr_confirm x d" "published_pcr (inputs_upto t x) d = published_pcr x d"
    "pain_rule prior (inputs_upto t x) d = pain_rule prior x d"
    "institutional_align (inputs_upto t x) d = institutional_align x d"
  using assms
  by (simp_all add: future_oi_def pcr_confirm_def published_pcr_def pain_rule_def institutional_align_def bounded_reads iv_cheap_def cong: if_cong option.case_cong)

lemma trend_rule_upto [bounded_reads]:
  "ri_minute x = t \<Longrightarrow> trend_rule realized family (inputs_upto t x) = trend_rule realized family x"
  by (simp add: trend_rule_def future_core_upto trend_filter_def bounded_reads cong: if_cong del: list.inject)

lemma cross_market_upto [bounded_reads]:
  assumes "ri_minute x = t"
  shows "basis_lead (inputs_upto t x) = basis_lead x" "sector_confirm (inputs_upto t x) = sector_confirm x"
    "gift_catchup (inputs_upto t x) = gift_catchup x"
  using assms by (simp_all add: basis_lead_def sector_confirm_def gift_catchup_def bounded_reads)

lemma readiness_rule_upto [bounded_reads]:
  assumes "ri_minute x = t" "ri_opens x + minutes 30 \<le> t"
  shows "readiness_rule family (inputs_upto t x) = readiness_rule family x"
proof -
  have 1: "compression_break (inputs_upto t x) = compression_break x"
    using assms by (simp add: compression_break_def bounded_reads cong: if_cong)
  have d: "vwap_difference (inputs_upto t x) (t - minutes i) = vwap_difference x (t - minutes i)" if "0 \<le> i" for i
    using that by (simp add: vwap_difference_def bounded_reads)
  have 2: "vwap_reclaim (inputs_upto t x) = vwap_reclaim x"
    using assms by (simp add: vwap_reclaim_def bounded_reads d cong: if_cong)
  have f: "first_break (known_by t s) hi lo ts = first_break s hi lo ts" if "\<forall>u\<in>set ts. u \<le> t" for s hi lo ts
    using that by (induction ts) (simp_all add: bounded_reads cong: if_cong)
  have 3: "failed_orb (inputs_upto t x) = failed_orb x"
    using assms by (simp add: failed_orb_def bounded_reads cong: if_cong option.case_cong)
     (subst f, auto dest!: set_takeWhileD)
  show ?thesis using 1 2 3 by (simp add: readiness_rule_def cong: if_cong del: list.inject)
qed


lemma unwind_upto [bounded_reads]:
  assumes "ri_minute x = t"
  shows "unwind_rule chain (inputs_upto t x) = unwind_rule chain x"
proof -
  have o: "total_oi (map (\<lambda>(k, s). (k, known_by t s)) opts) ks side u = total_oi opts ks side u" if "u \<le> t" for opts ks side u
    using that by (simp add: total_oi_def bounded_reads)
  have "chain_unwind (inputs_upto t x) strikes j side v detail = chain_unwind x strikes j side v detail" for strikes j side v detail
    using assms by (simp add: chain_unwind_def o Let_def cong: if_cong)
  moreover have "skew_unwind (inputs_upto t x) k cur old side v detail = skew_unwind x k cur old side v detail"
    for k cur old side v detail
    using assms by (simp add: skew_unwind_def bounded_reads)
  ultimately show ?thesis
    using assms by (simp add: unwind_rule_def bounded_reads Let_def cong: if_cong option.case_cong)
qed

lemma option_accel_upto [bounded_reads]:
  assumes "ri_minute x = t" "ist_at (ist_date (ri_now x)) (clock 14 45) \<le> t"
  shows "option_accel need (inputs_upto t x) = option_accel need x"
proof -
  have "acceleration need (map (\<lambda>(k, s). (k, known_by t s)) opts) t k = acceleration need opts t k" for opts k
    unfolding acceleration_def by (rule ext, intro arg_cong2 [where f = bindR] mapR_cong refl) (auto simp: bounded_reads)
  then show ?thesis using assms by (simp add: option_accel_def bounded_reads Let_def cong: option.case_cong)
qed

lemma prior_oi_wall_upto [bounded_reads]:
  assumes "ri_minute x = t" "ist_at (ist_date (ri_now x)) (clock 9 30) \<le> t"
  shows "prior_oi_wall (inputs_upto t x) = prior_oi_wall x"
proof -
  have "wall_side (inputs_upto t x) row anchor closes sv = wall_side x row anchor closes sv" for row anchor closes sv
    using assms by (cases sv) (simp add: wall_side_def bounded_reads Let_def cong: option.case_cong if_cong)
  then show ?thesis using assms by (simp add: prior_oi_wall_def bounded_reads cong: option.case_cong)
qed

lemma spot_rule_upto [bounded_reads]:
  assumes "ri_minute x = t"
    and "family = ''ORB30'' \<Longrightarrow> ri_opens x + minutes 30 \<le> t"
    and "family \<noteq> ''ORB30'' \<Longrightarrow> family \<noteq> ''TREND1445'' \<Longrightarrow> ist_at (ist_date (ri_now x)) (clock 14 15) + minutes 15 \<le> t"
  shows "spot_rule family (inputs_upto t x) = spot_rule family x"
proof -
  have f: "first_outside (known_by t s) hi lo ts = first_outside s hi lo ts" if "\<forall>u\<in>set ts. u \<le> t" for s hi lo ts
    using that by (induction ts) (simp_all add: bounded_reads cong: if_cong)
  have g: "first_outside (known_by t s) hi lo (takeWhile (\<lambda>u. u < t) us) = first_outside s hi lo (takeWhile (\<lambda>u. u < t) us)"
    for s hi lo us
    by (rule f) (auto dest!: set_takeWhileD)
  have "trend_1445 (inputs_upto t x) = trend_1445 x"
    using assms(1) by (simp add: trend_1445_def bounded_reads)
  moreover have "box_rule family (inputs_upto t x) = box_rule family x" if "family \<noteq> ''TREND1445''"
    using assms that
    by (cases "family = ''ORB30''") (simp_all add: box_rule_def bounded_reads g Let_def del: list.inject char.inject cong: if_cong)
  ultimately show ?thesis by (simp add: spot_rule_def cong: if_cong del: list.inject)
qed

lemma overnight_rule_upto [bounded_reads]: "overnight_rule family schedule (inputs_upto t x) = overnight_rule family schedule x"
  by (simp add: overnight_rule_def)


section \<open>The evaluation reads no later bar\<close>

lemma clock_le: "0 \<le> h \<Longrightarrow> ist_time t div minutes 1 \<ge> h * 60 + m \<Longrightarrow> ist_at (ist_date t) (clock h m) \<le> t"
proof -
  assume "ist_time t div minutes 1 \<ge> h * 60 + m"
  then have "(h * 60 + m) * minutes 1 \<le> ist_time t div minutes 1 * minutes 1"
    by (intro mult_right_mono) (simp_all add: minutes_def)
  also have "\<dots> \<le> ist_time t" by (rule div_mult_le) (simp add: minutes_def)
  finally have "clock h m \<le> ist_time t" by (simp add: clock_def minutes_def)
  then have "ist_at (ist_date t) (clock h m) \<le> ist_at (ist_date t) (ist_time t)" by (simp add: ist_at_def)
  then show ?thesis by simp
qed

lemma in_window_start:
  assumes "in_window family schedule t"
  shows "585 \<le> ist_time t div minutes 1" "ist_time t div minutes 1 \<le> 930"
    and "overnight_schedule schedule \<or> family \<notin> set [''OPEN_DRIVE'', ''GAP_FADE'', ''ORB30''] \<Longrightarrow> 600 \<le> ist_time t div minutes 1"
  using assms by (auto simp: in_window_def window_def Let_def split: if_splits)


lemma same_day:
  assumes "0 \<le> now - t" "now - t \<le> seconds 90" "ist_time t div minutes 1 \<le> 930"
  shows "ist_date now = ist_date t"
proof -
  have "ist_time t = minutes 1 * (ist_time t div minutes 1) + ist_time t mod minutes 1" by simp
  moreover have "ist_time t mod minutes 1 < minutes 1" by (simp add: minutes_def)
  moreover have "minutes 1 * (ist_time t div minutes 1) \<le> minutes 1 * 930"
    using assms(3) by (intro mult_left_mono) (simp_all add: minutes_def)
  ultimately have t: "ist_time t < minutes 931" by (simp add: minutes_def)
  have "0 \<le> ist_time t" by (simp add: ist_time_def DAY_US_def)
  moreover have "now = ist_at (ist_date t) (ist_time t + (now - t))"
    using ist_at_date_time [of t] by (simp add: ist_at_def)
  moreover have "ist_time t + (now - t) < DAY_US" using t assms(2) by (simp add: minutes_def seconds_def DAY_US_def)
  ultimately show ?thesis using assms(1) by (metis add_nonneg_nonneg ist_date_at)
qed

lemma family_rule_upto:
  assumes "ri_minute x = t" "ist_date (ri_now x) = ist_date t" "in_window family schedule t"
    and "previous_close_time (ri_calendar x) \<le> t" "ri_opens x + minutes 30 \<le> t"
  shows "family_rule realized family schedule (inputs_upto t x) exit_at = family_rule realized family schedule x exit_at"
proof -
  have w: "585 \<le> ist_time t div minutes 1" using in_window_start assms(3) by blast
  have half_nine: "ist_at (ist_date (ri_now x)) (clock 9 30) \<le> t"
    unfolding assms(2) using clock_le [of 9 30 t] w by simp
  have accel: "ist_at (ist_date (ri_now x)) (clock 14 45) \<le> t"
    if "\<not> overnight_schedule schedule" "family = ''OPTION_ACCEL'' \<or> family = ''OPTION_ACCEL_OI''"
  proof -
    have "885 \<le> ist_time t div minutes 1" using assms(3) that by (auto simp: in_window_def window_def Let_def)
    then show ?thesis unfolding assms(2) using clock_le [of 14 45 t] by simp
  qed
  have late: "ist_at (ist_date (ri_now x)) (clock 14 15) + minutes 15 \<le> t"
    if "\<not> overnight_schedule schedule" "family = ''LATE_BREAK'' \<or> family = ''LATE_FADE''"
  proof -
    have "871 \<le> ist_time t div minutes 1" using assms(3) that by (auto simp: in_window_def window_def Let_def)
    then have "ist_at (ist_date (ri_now x)) (clock 14 30) \<le> t" unfolding assms(2) using clock_le [of 14 30 t] by simp
    then show ?thesis by (simp add: ist_at_def clock_def minutes_def)
  qed
  have "spot_rule family (inputs_upto t x) = spot_rule family x"
    if "\<not> overnight_schedule schedule" "family \<in> set SPOT" "\<not> (family = ''OPTION_ACCEL'' \<or> family = ''OPTION_ACCEL_OI'')"
    using that assms(1,5) late by (intro spot_rule_upto) (auto simp: SPOT_def)
  then show ?thesis
    using assms half_nine accel unfolding family_rule_def Let_def
    by (simp add: bounded_reads cong: if_cong del: list.inject char.inject list.set)
qed


lemma floor_minute_le: "floor_minute t \<le> t"
  by (simp add: floor_minute_def minutes_def)

text \<open>
  C22: A rule never looks ahead. Whatever bars arrive later than the evaluated minute (of the index,
  the future, the cross-market series or any option), the evaluation of every ported rule at that
  minute is the one made from the bars available by then alone.
\<close>

theorem expanded_no_lookahead:
  assumes "minute = floor_minute (case bar_time of None \<Rightarrow> now | Some t \<Rightarrow> t)"
    and "\<And>c. calendar = Some c \<Longrightarrow> previous_close_time c \<le> minute"
  shows "expanded_evaluate realized strategy now calendar (known_by minute spot) (known_by minute future) expiries
           (features_upto minute features) bar_time
         = expanded_evaluate realized strategy now calendar spot future expiries features bar_time"
proof -
  have "evaluate_family realized s policy now minute c opens (known_by minute spot) (known_by minute future) (features_upto minute features)
      = evaluate_family realized s policy now minute c opens spot future features"
    if c: "calendar = Some c" "cl_opens c = Some opens" "cal_fresh c now" "ist_time opens = clock 9 15"
      and w: "in_window (rs_family s) (rs_schedule s) minute" and t: "0 \<le> now - minute" "now - minute \<le> seconds 90"
    for s policy c opens
  proof -
    have d: "ist_date now = ist_date minute" using t in_window_start(2) [OF w] by (rule same_day)
    with c have "opens = ist_at (ist_date minute) (clock 9 15)"
      by (metis cal_fresh_def ist_at_date_time option.inject option.simps(5))
    moreover have "ist_at (ist_date minute) (clock 9 45) \<le> minute"
      using clock_le [of 9 45 minute] in_window_start(1) [OF w] by simp
    ultimately have o: "opens + minutes 30 \<le> minute" by (simp add: ist_at_def clock_def minutes_def)
    then have "opens + minutes 1 \<le> minute" by (simp add: minutes_def)
    moreover have "family_rule realized (rs_family s) (rs_schedule s)
        \<lparr>ri_now = now, ri_minute = minute, ri_calendar = c, ri_opens = opens, ri_spot = known_by minute spot,
         ri_future = known_by minute future, ri_features = features_upto minute features, ri_current = current, ri_open = op\<rparr> e
      = family_rule realized (rs_family s) (rs_schedule s)
        \<lparr>ri_now = now, ri_minute = minute, ri_calendar = c, ri_opens = opens, ri_spot = spot, ri_future = future,
         ri_features = features, ri_current = current, ri_open = op\<rparr> e" for current op e
      using family_rule_upto [of "\<lparr>ri_now = now, ri_minute = minute, ri_calendar = c, ri_opens = opens, ri_spot = spot,
        ri_future = future, ri_features = features, ri_current = current, ri_open = op\<rparr>" minute] o d w assms(2) [OF c(1)]
      by (simp add: inputs_upto_def)
    ultimately show ?thesis by (simp add: evaluate_family_def bounded_reads Let_def cong: if_cong)
  qed
  then have "expanded_outcome realized s policy now minute calendar (known_by minute spot) (known_by minute future) expiries
      (features_upto minute features) = expanded_outcome realized s policy now minute calendar spot future expiries features" for s policy
    by (auto simp: expanded_outcome_def Let_def split: option.splits)
  then show ?thesis by (simp add: expanded_evaluate_def assms(1) [symmetric] Let_def bounded_reads cong: option.case_cong dval.case_cong)
qed


definition demo_bar :: "instant \<Rightarrow> decimal \<Rightarrow> instant \<times> bar" where
  "demo_bar t p = (t, \<lparr>br_available = t, br_open = p, br_close = p, br_volume = 100, br_oi = 100, br_high = Some p, br_low = Some p\<rparr>)"

definition demo_spot :: series where
  "demo_spot = [demo_bar (ist_at 20000 (clock 9 16)) 100, demo_bar (ist_at 20000 (clock 15 10)) 99,
     demo_bar (ist_at 20000 (clock 15 11)) 101]"

lemma expanded_no_lookahead_witness:
  "expanded_evaluate (\<lambda>_. 0) ''SELLOFF_CALL'' (ist_at 20000 (clock 15 10)) (Some demo_calendar)
     (known_by (ist_at 20000 (clock 15 10)) demo_spot) (known_by (ist_at 20000 (clock 15 10)) []) [20003]
     (features_upto (ist_at 20000 (clock 15 10)) no_features) None
   = expanded_evaluate (\<lambda>_. 0) ''SELLOFF_CALL'' (ist_at 20000 (clock 15 10)) (Some demo_calendar) demo_spot [] [20003] no_features None"
  by (rule expanded_no_lookahead)
      (auto simp: floor_minute_def ist_at_def clock_def minutes_def DAY_US_def IST_OFFSET_def demo_calendar_def previous_close_time_def)


end
