(* ===== verification/Runtime.thy ===== *)
theory Runtime
  imports Orders Expanded
begin

text \<open>
  The live runtime of \<open>dhan_cas_bot/runtime.py\<close>: the status it publishes, the gate
  every new entry has to pass, and the operations that arm and disarm it. The
  durable ledger and its account revision are the state of the order manager.
\<close>

record runtime_status =
  rs_software_verified :: bool
  rs_funded :: bool
  rs_route_verified :: bool
  rs_cas_seen :: bool
  rs_final_verified :: bool
  rs_armed :: bool
  rs_state :: string
  rs_reason :: string

text \<open>
  \<open>rt_refresh\<close> is whether the account refresh component says the account view is
  fresh, \<open>None\<close> when there is no such component; \<open>rt_requested\<close> that a refresh has
  been asked for.
\<close>

record runtime =
  rt_oms :: oms
  rt_status :: runtime_status
  rt_mandate :: mandate
  rt_enabled :: "string list"
  rt_refresh :: "bool option"
  rt_requested :: bool
  rt_reconciled :: "snapshot option"

abbreviation rt_ledger :: "'z runtime_scheme \<Rightarrow> ledger" where
  "rt_ledger s \<equiv> om_ledger (rt_oms s)"

definition auto_live :: "oms \<Rightarrow> mandate \<Rightarrow> string \<Rightarrow> bool \<Rightarrow> runtime res" where
  "auto_live oms0 m account software_verified =
     bindR (validate_mandate m) (\<lambda>_.
       if md_account_id m \<noteq> account then Inl (ContractError ''mandate and broker account differ'')
       else Inr \<lparr>rt_oms = oms0,
              rt_status = \<lparr>rs_software_verified = software_verified, rs_funded = False, rs_route_verified = False,
                rs_cas_seen = False, rs_final_verified = False, rs_armed = live_order_authority m,
                rs_state = (if live_order_authority m then ''ARMED_WAITING_SESSION'' else ''DISARMED''), rs_reason = []\<rparr>,
              rt_mandate = m, rt_enabled = [CAS], rt_refresh = None, rt_requested = False, rt_reconciled = None\<rparr>)"

section \<open>Operations inside a handler\<close>

definition on_oms :: "(oms, 'a) sm \<Rightarrow> ('z runtime_scheme, 'a) sm" where
  "on_oms m = (\<lambda>s. case m (rt_oms s) of (r, o') \<Rightarrow> (r, s\<lparr>rt_oms := o'\<rparr>))"

definition set_status :: "(runtime_status \<Rightarrow> runtime_status) \<Rightarrow> ('z runtime_scheme, unit) sm" where
  "set_status f = modifyS (\<lambda>s. s\<lparr>rt_status := f (rt_status s)\<rparr>)"

definition set_state :: "string \<Rightarrow> ('z runtime_scheme, unit) sm" where
  "set_state st = set_status (\<lambda>t. t\<lparr>rs_state := st\<rparr>)"

definition set_reason :: "string \<Rightarrow> ('z runtime_scheme, unit) sm" where
  "set_reason r = set_status (\<lambda>t. t\<lparr>rs_reason := r\<rparr>)"

definition put_meta :: "string \<Rightarrow> meta \<Rightarrow> ('z runtime_scheme, unit) sm" where
  "put_meta k v = on_oms (onledger (put_metadata k v))"

section \<open>The entry gate\<close>

definition entry_permitted :: "bool \<Rightarrow> string \<Rightarrow> 'z runtime_scheme \<Rightarrow> bool" where
  "entry_permitted settlement_add strategy s =
     (let t = rt_status s in
      strategy \<in> set (rt_enabled s) \<and> strategy \<in> set STRATEGIES \<and> rt_refresh s \<noteq> Some False
      \<and> live_order_authority (rt_mandate s) \<and> 0 < allocated_capital (rt_mandate s)
      \<and> rs_software_verified t \<and> rs_funded t \<and> rs_route_verified t
      \<and> (strategy = CAS \<longrightarrow> rs_cas_seen t) \<and> rs_armed t
      \<and> \<not> metadata_flag ''disarmed'' (rt_ledger s)
      \<and> rs_state t \<notin> set (if settlement_add then [''DISARMED'', ''RECOVERING'']
                             else [''DISARMED'', ''RECOVERING'', ''SETTLEMENT_PENDING'']))"

definition permit_entry :: "bool \<Rightarrow> string \<Rightarrow> ('z runtime_scheme, bool) sm" where
  "permit_entry settlement_add strategy = (\<lambda>s.
     (Inr (entry_permitted settlement_add strategy s),
      if strategy \<in> set (rt_enabled s) \<and> strategy \<in> set STRATEGIES \<and> rt_refresh s = Some False
      then s\<lparr>rt_requested := True\<rparr> else s))"

section \<open>Arming, disarming, refreshing\<close>

definition disarm_new_entries :: "('z runtime_scheme, unit) sm" where
  "disarm_new_entries =
     bindS (set_status (\<lambda>t. t\<lparr>rs_armed := False, rs_state := ''ENTRY_HALTED'', rs_reason := ''operator_disarmed_new_entries''\<rparr>)) (\<lambda>_.
       put_meta ''disarmed'' (MFlag True))"

definition arm :: "('z runtime_scheme, unit) sm" where
  "arm = bindS getS (\<lambda>s.
     bindS (guardS (live_order_authority (rt_mandate s)) (ContractError ''standing mandate does not authorize live writes'')) (\<lambda>_.
     bindS (set_status (\<lambda>t. t\<lparr>rs_armed := True\<rparr>)) (\<lambda>_.
     bindS (put_meta ''disarmed'' (MFlag False)) (\<lambda>_. set_state ''ARMED_WAITING_SIGNAL''))))"

definition funded_by :: "mandate \<Rightarrow> funds_snapshot \<Rightarrow> bool" where
  "funded_by m f = (0 < spendable_cash f \<and> broker_account f = md_account_id m)"

text \<open>\<open>funds\<close> is the broker's answer or the name of the exception it raised.\<close>

definition refresh_account :: "string + funds_snapshot \<Rightarrow> ('z runtime_scheme, unit) sm" where
  "refresh_account funds =
     bindS (set_status (\<lambda>t. t\<lparr>rs_funded := False\<rparr>)) (\<lambda>_.
     bindS getS (\<lambda>s. case funds of
         Inr f \<Rightarrow> set_status (\<lambda>t. t\<lparr>rs_funded := funded_by (rt_mandate s) f\<rparr>)
       | Inl e \<Rightarrow> set_reason (''ACCOUNT_FUNDS_UNAVAILABLE:'' @ e)))"

definition recover :: "(oms, snapshot) sm \<Rightarrow> ('z runtime_scheme, snapshot) sm" where
  "recover reconcile =
     bindS (set_state ''RECOVERING'') (\<lambda>_.
     bindS (on_oms reconcile) (\<lambda>r.
     bindS (modifyS (\<lambda>s. s\<lparr>rt_reconciled := Some r\<rparr>)) (\<lambda>_.
     bindS getS (\<lambda>s.
     bindS (set_state (if live_order_authority (rt_mandate s) then ''ARMED_WAITING_SIGNAL'' else ''DISARMED'')) (\<lambda>_. retS r)))))"

lemma runtime_runs [simp, res_simps]:
  "set_status f s = (Inr (), s\<lparr>rt_status := f (rt_status s)\<rparr>)"
  "set_state st s = (Inr (), s\<lparr>rt_status := (rt_status s)\<lparr>rs_state := st\<rparr>\<rparr>)"
  "set_reason x s = (Inr (), s\<lparr>rt_status := (rt_status s)\<lparr>rs_reason := x\<rparr>\<rparr>)"
  by (simp_all add: set_status_def set_state_def set_reason_def)

lemma put_meta_run: "put_meta k v s = (Inr (), s\<lparr>rt_oms := (rt_oms s)\<lparr>om_ledger := snd (projr (put_metadata k v (rt_ledger s)))\<rparr>\<rparr>)"
  by (simp add: put_meta_def on_oms_def onledger_def transactionS_run put_metadata_def)

end
