(* ===== verification/Engine.thy ===== *)
theory Engine
  imports Runtime
begin

text \<open>
  The serialized session engine of \<open>dhan_cas_bot/engine.py\<close>: the feed callbacks that
  update its inputs, the allocation of a lifecycle and the cycle that manages an
  open position and enters a new one. The engine's state extends the runtime's. What
  the broker answers, what the clock reads and which identities are drawn are the
  arguments of a cycle; the callbacks that run while it awaits the broker are
  functions on its state.
\<close>

record engine = runtime +
  en_books :: "(string \<times> option_book) list"
  en_reference :: "reference option"
  en_cas :: "cas_status option"
  en_observations :: "(decimal \<times> string) list"
  en_reference_observations :: "index_observation list"
  en_streaks :: "(string \<times> (decimal \<times> string) list) list"
  en_identities :: "string list"
  en_signal_epoch :: "string option"
  en_market_epoch :: "string option"
  en_signal_connected :: bool
  en_market_connected :: bool
  en_exit_reason :: string
  en_peak_intrinsic :: decimal
  en_peak_bid :: decimal
  en_final :: "final_value option"
  en_last_signal :: int
  en_day :: day
  en_saved_invalid :: bool

definition session_id :: "'z engine_scheme \<Rightarrow> string" where
  "session_id s = isoformat (en_day s)"

section \<open>The open lifecycle\<close>

definition active_row :: "ledger \<Rightarrow> lifecycle_row option res" where
  "active_row l = (case filter (\<lambda>c. lc_state c \<noteq> ''CLOSED'') (lg_lifecycles l) of
      [] \<Rightarrow> Inr None
    | [c] \<Rightarrow> Inr (Some c)
    | _ \<Rightarrow> Inl (ContractError ''multiple unresolved lifecycles''))"

definition get_active :: "('z engine_scheme, lifecycle_row option) sm" where
  "get_active = bindS getS (\<lambda>s. liftS (active_row (rt_ledger s)))"

section \<open>Feed callbacks\<close>

definition signal_reconnect :: "string option \<Rightarrow> ('z engine_scheme, unit) sm" where
  "signal_reconnect epoch =
     bindS (modifyS (\<lambda>s. s\<lparr>en_signal_epoch := epoch, en_signal_connected := (epoch \<noteq> None), en_cas := None,
       en_observations := [], en_streaks := [], en_identities := [], en_reference_observations := [],
       en_last_signal := -1\<rparr>)) (\<lambda>_.
     set_status (\<lambda>t. t\<lparr>rs_cas_seen := False\<rparr>))"

definition market_reconnect :: "string option \<Rightarrow> ('z engine_scheme, unit) sm" where
  "market_reconnect epoch =
     modifyS (\<lambda>s. s\<lparr>en_market_epoch := epoch, en_market_connected := (epoch \<noteq> None), en_books := [], en_streaks := []\<rparr>)"

definition on_status :: "cas_status \<Rightarrow> int \<Rightarrow> ('z engine_scheme, unit) sm" where
  "on_status st clock_uncertainty_ms = bindS getS (\<lambda>s.
     if (case en_cas s of None \<Rightarrow> False
           | Some c \<Rightarrow> st_epoch st = st_epoch c \<and> updated_time_ms st < updated_time_ms c) then retS ()
     else bindS (modifyS (\<lambda>s. s\<lparr>en_cas := Some st, en_signal_epoch := Some (st_epoch st)\<rparr>)) (\<lambda>_.
          bindS (whenS (phase st = CTS_CLOSE \<and> en_reference s = None \<and> \<not> en_saved_invalid s)
            (bindS (liftS (select_reference (en_reference_observations s) st clock_uncertainty_ms)) (\<lambda>r.
             bindS (modifyS (\<lambda>s. s\<lparr>en_reference := Some r\<rparr>)) (\<lambda>_.
               on_oms (onledger (freeze_reference (isoformat (st_trading_date st)) r)))))) (\<lambda>_.
          set_status (\<lambda>t. t\<lparr>rs_cas_seen := (phase st \<noteq> UNKNOWN_PHASE)\<rparr>))))"

definition on_ltp :: "index_observation \<Rightarrow> ('z engine_scheme, unit) sm" where
  "on_ltp x = modifyS (\<lambda>s. if en_reference s = None
     then s\<lparr>en_reference_observations := last_n 2000 (en_reference_observations s @ [x])\<rparr> else s)"

text \<open>A displayed, whole-lot quote that still lags the index value by a tick.\<close>

definition lagging :: "option_book \<Rightarrow> decimal \<Rightarrow> bool" where
  "lagging b index = (case (top_bid b, top_ask b) of
      (Some bid, Some ask) \<Rightarrow> lot_size (instr b) \<le> min (lv_qty bid) (lv_qty ask)
         \<and> lv_price ask + tick_size (instr b) \<le> intrinsic (otype (instr b)) (strike (instr b)) index
    | _ \<Rightarrow> False)"

definition direction_of :: "decimal \<Rightarrow> decimal \<Rightarrow> option_type option" where
  "direction_of index ref = (if ref < index then Some CE else if index < ref then Some PE else None)"

definition streak_of :: "string \<Rightarrow> (string \<times> (decimal \<times> string) list) list \<Rightarrow> (decimal \<times> string) list" where
  "streak_of security streaks = (case map_of streaks security of None \<Rightarrow> [] | Some h \<Rightarrow> h)"

definition extend_streaks ::
  "(string \<times> option_book) list \<Rightarrow> decimal \<Rightarrow> decimal \<times> string \<Rightarrow> (string \<times> (decimal \<times> string) list) list
   \<Rightarrow> (string \<times> (decimal \<times> string) list) list" where
  "extend_streaks books ref obs streaks =
     map (\<lambda>(security, b). (security, last_n 24 (streak_of security streaks @ [obs])))
       (filter (\<lambda>(security, b). Some (otype (instr b)) = direction_of (fst obs) ref \<and> lagging b (fst obs)) books)"

definition take_observation :: "reference \<Rightarrow> decimal \<times> string \<Rightarrow> 'z engine_scheme \<Rightarrow> 'z engine_scheme" where
  "take_observation ref obs s = s\<lparr>en_observations := last_n 24 (en_observations s @ [obs]),
     en_streaks := extend_streaks (en_books s) (rf_value ref) obs (en_streaks s)\<rparr>"

text \<open>
  \<open>value_text\<close> is \<open>str(observation.value)\<close>. The answer says whether the observation
  was taken into account.
\<close>

definition observe_iep :: "index_observation \<Rightarrow> string \<Rightarrow> ('z engine_scheme, bool) sm" where
  "observe_iep x value_text = bindS getS (\<lambda>s. case (en_reference s, en_cas s) of
      (Some ref, Some st) \<Rightarrow>
        if ob_epoch x \<noteq> st_epoch st \<or> \<not> wrapper_present x then retS False
        else if provider_ts_ms x < max (en_last_signal s) (updated_time_ms st) then retS False
        else let identity = (if raw_identity x \<noteq> [] then raw_identity x
                   else ob_epoch x @ '':'' @ show_int (provider_ts_ms x) @ '':'' @ value_text)
             in bindS (modifyS (\<lambda>s. s\<lparr>en_last_signal := provider_ts_ms x\<rparr>)) (\<lambda>_.
                if identity \<in> set (en_identities s) then retS False
                else let ids = insert_ignore id identity (en_identities s);
                         ids = (if 10000 < length ids then remdups (map snd (en_observations s) @ [identity]) else ids);
                         obs = (ob_value x, identity)
                     in bindS (modifyS (\<lambda>s. take_observation ref obs (s\<lparr>en_identities := ids\<rparr>))) (\<lambda>_.
                        bindS (on_oms (onledger (observe identity ''IEP''))) (\<lambda>_. retS True)))
    | _ \<Rightarrow> retS False)"

definition on_book :: "option_book \<Rightarrow> ('z engine_scheme, unit) sm" where
  "on_book b = modifyS (\<lambda>s.
     if en_market_epoch s \<noteq> None \<and> Some (bk_epoch b) \<noteq> en_market_epoch s then s
     else let security = security_id (instr b); s = s\<lparr>en_books := AList.update security b (en_books s)\<rparr>
          in if map_of (en_streaks s) security \<noteq> None \<and> en_observations s \<noteq> []
                \<and> \<not> lagging b (fst (last (en_observations s)))
             then s\<lparr>en_streaks := AList.delete security (en_streaks s)\<rparr> else s)"

text \<open>\<open>published.timestamp()*1000\<close>, in doubles.\<close>

definition timestamp_ms :: "instant \<Rightarrow> rat" where
  "timestamp_ms t = dbl (dbl (of_int t / 1000000) * 1000)"

definition on_final :: "instant \<Rightarrow> final_value \<Rightarrow> ('z engine_scheme, unit) sm" where
  "on_final now final =
     bindS (liftS (validate_final final)) (\<lambda>_.
     bindS get_active (\<lambda>active.
     bindS getS (\<lambda>s.
       case (fv_trading_date final, fv_published_at final, fv_received_at final) of
         (Some day, AwareTime released, AwareTime received) \<Rightarrow>
           let historical = (case active of None \<Rightarrow> False | Some c \<Rightarrow> isoformat day = lc_session c \<and> day < en_day s)
           in bindS (guardS (day = en_day s \<or> historical) (ContractError ''final value is for another session'')) (\<lambda>_.
              bindS (guardS (historical \<or> (case en_cas s of None \<Rightarrow> False | Some st \<Rightarrow> phase st = CAS_STOP))
                (ContractError ''final input cannot precede collection stop'')) (\<lambda>_.
              bindS (guardS (\<not> (\<not> historical \<and> (case en_cas s of None \<Rightarrow> False
                        | Some st \<Rightarrow> timestamp_ms released < of_int (updated_time_ms st)) \<or> now < received))
                (ContractError ''final input time is inconsistent with session'')) (\<lambda>_.
              bindS (whenS (case en_final s of None \<Rightarrow> False | Some f \<Rightarrow> fv_value f \<noteq> fv_value final)
                (bindS (set_status (\<lambda>t. t\<lparr>rs_armed := False\<rparr>)) (\<lambda>_.
                 bindS (modifyS (\<lambda>s. s\<lparr>en_exit_reason := ''FINAL_VALUE_REVISED''\<rparr>)) (\<lambda>_.
                   put_meta ''disarmed'' (MFlag True))))) (\<lambda>_.
              bindS (modifyS (\<lambda>s. s\<lparr>en_final := Some final\<rparr>)) (\<lambda>_.
              bindS (set_status (\<lambda>t. t\<lparr>rs_final_verified := True\<rparr>)) (\<lambda>_.
                put_meta (''final:'' @ isoformat day) (MFinal final)))))))
       | _ \<Rightarrow> raiseS (ContractError ''invalid final input provenance''))))"

section \<open>The allocation of a lifecycle\<close>

definition closed_pnl :: "ledger \<Rightarrow> decimal res" where
  "closed_pnl l =
     bindR (mapR (\<lambda>c. bindR (lifecycle_totals (lc_id c) l) (\<lambda>t. Inr (sale_credit t - entry_debit_total t)))
              (filter (\<lambda>c. lc_state c = ''CLOSED'') (lg_lifecycles l)))
       (\<lambda>xs. Inr (sum_list xs))"

definition counted_debit :: "mandate \<Rightarrow> string \<Rightarrow> ledger \<Rightarrow> decimal res" where
  "counted_debit m session l =
     bindR (mapR (\<lambda>c. bindR (lifecycle_totals (lc_id c) l) (\<lambda>t. Inr (entry_debit_total t + reserved_total t)))
              (filter (\<lambda>c. debit_cap_scope m = ''mandate'' \<or> lc_session c = session) (lg_lifecycles l)))
       (\<lambda>xs. Inr (sum_list xs))"

definition allocate :: "mandate \<Rightarrow> string \<Rightarrow> ledger \<Rightarrow> funds_snapshot \<Rightarrow> lifecycle_row option \<Rightarrow> allocation res" where
  "allocate m session l funds active =
     bindR (case active of None \<Rightarrow> Inr (0, 0)
              | Some c \<Rightarrow> bindR (lifecycle_totals (lc_id c) l) (\<lambda>t. Inr (entry_debit_total t, reserved_total t))) (\<lambda>(spent, held_back).
     bindR (closed_pnl l) (\<lambda>pnl.
     let capital = allocated_capital m + (if reinvest_realized_profit m then pnl else min 0 pnl) in
     bindR (lifecycle_totals ''route-probe'' l) (\<lambda>probe.
     let bank = (case active of
           Some c \<Rightarrow> lc_bankroll c
         | None \<Rightarrow> max 0 (min (capital - (entry_debit_total probe - sale_credit probe)) (spendable_cash funds))) in
     bindR (case cumulative_entry_debit_cap m of
              None \<Rightarrow> Inr None
            | Some cap \<Rightarrow> bindR (counted_debit m session l) (\<lambda>debit. Inr (Some (max 0 (cap - debit))))) (\<lambda>cap_remaining.
       Inr (allocation_start bank (spendable_cash funds) spent held_back cap_remaining)))))"

section \<open>What a cycle is given\<close>

text \<open>
  The clock, the broker's answers and fresh identities of one cycle. \<open>cw_statement\<close> is
  the broker's statement, \<open>None\<close> when the broker has no such report. \<open>cw_later\<close> is the
  clock when the engine looks again before dispatch. \<open>cw_funds_gap\<close> and
  \<open>cw_dispatch_gap\<close> are what the feed callbacks did to the state while the funds were
  read and while the order waited for its turn.
\<close>

record 'z cycle_world =
  cw_now :: instant
  cw_later :: instant
  cw_uuid :: string
  cw_timestamp :: decimal
  cw_attempt :: string
  cw_reply :: reply
  cw_sale_positions :: "jrow list res"
  cw_funds :: "funds_snapshot res"
  cw_statement :: "statement_row list option"
  cw_funds_gap :: "'z \<Rightarrow> 'z"
  cw_dispatch_gap :: "'z \<Rightarrow> 'z"

definition submit_order ::
  "'z engine_scheme cycle_world \<Rightarrow> intent \<Rightarrow> decimal \<Rightarrow> ('z engine_scheme \<Rightarrow> bool) \<Rightarrow> ('z engine_scheme, unit) sm" where
  "submit_order w n reserved ready =
     bindS (liftS (check_intent n)) (\<lambda>n.
     bindS (modifyS (cw_dispatch_gap w)) (\<lambda>_.
     bindS getS (\<lambda>s.
     bindS (on_oms (submit (md_account_id (rt_mandate s)) (cw_now w) (cw_timestamp w) (cw_attempt w) n reserved (ready s)
       (cw_sale_positions w) (cw_reply w))) (\<lambda>_. retS ()))))"

text \<open>\<open>ExitManager.reduce\<close>\<close>

definition reduce ::
  "'z engine_scheme cycle_world \<Rightarrow> instrument \<Rightarrow> int \<Rightarrow> option_book \<Rightarrow> string \<Rightarrow> bool \<Rightarrow> ('z engine_scheme, unit) sm" where
  "reduce w i quantity b lifecycle emergency =
     bindS (liftS (reduce_order i quantity b emergency)) (\<lambda>(q, limit).
       submit_order w \<lparr>in_id = ''exit-'' @ cw_uuid w, in_side = SELL, in_instrument = i, in_quantity = q, in_limit_price = limit,
           in_client_order_id = ''x'' @ take 28 (cw_uuid w), in_created_at = cw_now w, in_lifecycle_id = lifecycle\<rparr>
         (1 / 100) (\<lambda>_. True))"

section \<open>Managing the open position\<close>

text \<open>The quantity of the finite bid ladder whose sale beats exercising the same units.\<close>

record ladder_sum =
  ls_supported :: int
  ls_cash :: decimal
  ls_units :: int

definition ladder_level :: "instrument \<Rightarrow> decimal \<Rightarrow> int \<times> decimal \<Rightarrow> ladder_sum \<Rightarrow> ladder_sum res" where
  "ladder_level i target qp a =
     (let (level_qty, level_price) = qp; child = whole_lots i;
          supported = ls_supported a + level_qty; cash = ls_cash a + of_int level_qty * level_price;
          units = supported div lot_size i * lot_size i; a' = a\<lparr>ls_supported := supported, ls_cash := cash\<rparr>
      in if units = 0 then Inr a'
         else let finite_cash = cash - of_int (supported - units) * level_price; children = children_of child units
              in bindR (fee_sell default_fees finite_cash children) (\<lambda>sale_fees.
                 bindR (fee_sell default_fees (target * of_int units) children) (\<lambda>exercise_fees.
                   Inr (if target * of_int units - exercise_fees \<le> finite_cash - sale_fees then a'\<lparr>ls_units := units\<rparr> else a'))))"

definition supported_units :: "instrument \<Rightarrow> decimal \<Rightarrow> (int \<times> decimal) list \<Rightarrow> int res" where
  "supported_units i target ladder =
     bindR (foldR (ladder_level i target) ladder \<lparr>ls_supported = 0, ls_cash = 0, ls_units = 0\<rparr>) (\<lambda>a. Inr (ls_units a))"

definition first_reason :: "string \<Rightarrow> bool \<Rightarrow> string \<Rightarrow> string" where
  "first_reason reason cond new = (if reason = [] \<and> cond then new else reason)"

text \<open>The reasons that need no observation, in the order in which they are tried.\<close>

definition standing_reason :: "'z engine_scheme \<Rightarrow> lifecycle_row \<Rightarrow> instant \<Rightarrow> bool \<Rightarrow> string \<Rightarrow> string" where
  "standing_reason s c now has_book latched =
     (let r = latched;
          r = first_reason r (\<not> has_book) ''OPTION_BOOK_UNAVAILABLE'';
          r = first_reason r (lc_session c \<noteq> session_id s \<or> \<not> en_signal_connected s \<or> \<not> en_market_connected s \<or> en_reference s = None)
                ''RECOVERY_OR_SIGNAL_UNAVAILABLE'';
          r = first_reason r (clock 15 39 \<le> ist_time now) ''TIME_EXIT'';
          r = first_reason r (case en_cas s of None \<Rightarrow> False | Some st \<Rightarrow> phase st = CAS_STOP \<and> en_final s = None)
                ''COLLECTION_STOPPED_NO_FINAL_INPUT''
      in first_reason r (case en_cas s of None \<Rightarrow> True | Some st \<Rightarrow> phase st = UNKNOWN_PHASE) ''SIGNAL_UNAVAILABLE'')"

text \<open>The reasons the latest observation gives, with the peaks it raises.\<close>

definition observed_reason ::
  "instrument \<Rightarrow> option_book \<Rightarrow> decimal \<Rightarrow> decimal \<Rightarrow> nat \<Rightarrow> decimal \<times> decimal \<Rightarrow> string \<Rightarrow> (string \<times> decimal \<times> decimal) res" where
  "observed_reason i b index ref streak peaks reason =
     (let current = intrinsic (otype i) (strike i) index;
          bid = (case top_bid b of None \<Rightarrow> 0 | Some l \<Rightarrow> lv_price l);
          peak_intrinsic = max (fst peaks) current; peak_bid = max (snd peaks) bid
      in bindR (fee_sell default_fees (bid * of_int (lot_size i)) 1) (\<lambda>fees.
           let cost_floor = max (tick_size i) (ddiv fees (of_int (lot_size i)))
           in Inr (if direction_of index ref \<noteq> Some (otype i) then first_reason reason True ''DIRECTION_REVERSAL''
                   else if streak < 2 then first_reason reason True ''CONTRACT_LAG_INVALIDATED''
                   else if (case top_ask b of None \<Rightarrow> True | Some l \<Rightarrow> current - lv_price l \<le> cost_floor)
                   then first_reason reason True ''LAG_CONVERGED''
                   else first_reason reason (current + tick_size i < peak_intrinsic \<and> bid + tick_size i < peak_bid) ''JOINT_REVERSAL'',
                   peak_intrinsic, peak_bid)))"

definition emergency_reasons :: "string list" where
  "emergency_reasons = [''TIME_EXIT'', ''RECOVERY_OR_SIGNAL_UNAVAILABLE'', ''SIGNAL_UNAVAILABLE'', ''OPTION_BOOK_UNAVAILABLE'', ''SAVED_SIGNAL_INVALID'']"

definition watch_position ::
  "'z engine_scheme cycle_world \<Rightarrow> lifecycle_row \<Rightarrow> instrument \<Rightarrow> totals \<Rightarrow> option_book option \<Rightarrow> ('z engine_scheme, bool) sm" where
  "watch_position w c i t book = bindS getS (\<lambda>s.
     let (stored_bid, stored_intrinsic, stored_exit) =
           (case metadata (''peaks:'' @ lc_id c) (rt_ledger s) of Some (MPeaks b n e) \<Rightarrow> (b, n, e) | _ \<Rightarrow> (0, 0, []));
         peak_bid = max (en_peak_bid s) stored_bid; peak_intrinsic = max (en_peak_intrinsic s) stored_intrinsic;
         latched = (if en_exit_reason s \<noteq> [] then en_exit_reason s else stored_exit);
         reason = standing_reason s c (cw_now w) (book \<noteq> None) latched
     in bindS (modifyS (\<lambda>s. s\<lparr>en_peak_bid := peak_bid, en_peak_intrinsic := peak_intrinsic\<rparr>)) (\<lambda>_.
        bindS (liftS (case (en_observations s, en_reference s, book) of
            (_ # _, Some ref, Some b) \<Rightarrow>
              observed_reason i b (fst (last (en_observations s))) (rf_value ref)
                (length (streak_of (security_id i) (en_streaks s))) (peak_intrinsic, peak_bid) reason
          | _ \<Rightarrow> Inr (reason, peak_intrinsic, peak_bid))) (\<lambda>(reason, peak_intrinsic, peak_bid).
        bindS (modifyS (\<lambda>s. s\<lparr>en_peak_bid := peak_bid, en_peak_intrinsic := peak_intrinsic\<rparr>)) (\<lambda>_.
        bindS (whenS (metadata (''peaks:'' @ lc_id c) (rt_ledger s) \<noteq> Some (MPeaks peak_bid peak_intrinsic reason))
          (put_meta (''peaks:'' @ lc_id c) (MPeaks peak_bid peak_intrinsic reason))) (\<lambda>_.
        if reason = [] then bindS (set_state ''POSITION_OPEN'') (\<lambda>_. retS False)
        else bindS (modifyS (\<lambda>s. s\<lparr>en_exit_reason := reason\<rparr>)) (\<lambda>_.
             bindS (set_reason reason) (\<lambda>_.
             let b = (case book of Some b \<Rightarrow> b
                   | None \<Rightarrow> \<lparr>instr = i, bids = [], asks = [],
                       bk_epoch = (case en_market_epoch s of Some e \<Rightarrow> if e \<noteq> [] then e else ''recovery'' | None \<Rightarrow> ''recovery''),
                       bk_received_ns = ns (cw_now w), bk_provider_ts = None, bk_statistics = None\<rparr>)
             in bindS (reduce w i (held t) b (lc_id c) (reason \<in> set emergency_reasons \<or> top_bid b = None)) (\<lambda>_.
                bindS (set_state ''EXIT_PENDING'') (\<lambda>_. retS True)))))))))"

section \<open>Entering a position\<close>

text \<open>A book's asks less what earlier orders already took from that very snapshot of it.\<close>

fun undebited :: "int \<Rightarrow> level list \<Rightarrow> level list" where
  "undebited used [] = []"
| "undebited used (l # ls) =
     (let taken = min used (lv_qty l)
      in (if taken < lv_qty l then [l\<lparr>lv_qty := lv_qty l - taken\<rparr>] else []) @ undebited (used - taken) ls)"

definition book_identity :: "option_book \<Rightarrow> string \<Rightarrow> string" where
  "book_identity b security = bk_epoch b @ '':'' @ security @ '':'' @ show_int (bk_received_ns b)"

definition debited :: "string \<Rightarrow> ledger \<Rightarrow> int" where
  "debited identity l = sum_by (\<lambda>(_, _, q). q) (filter (\<lambda>(k, _, _). k = identity) (lg_depth_debits l))"

definition final_entry :: "'z engine_scheme \<Rightarrow> bool" where
  "final_entry s = (en_final s \<noteq> None \<and> (case en_cas s of None \<Rightarrow> False | Some st \<Rightarrow> phase st = CAS_STOP))"

definition entry_choice ::
  "'z engine_scheme \<Rightarrow> instant \<Rightarrow> lifecycle_row option \<Rightarrow> bool \<Rightarrow> allocation \<Rightarrow> string \<Rightarrow> (opportunity \<times> string) option res" where
  "entry_choice s now active final a security = (case map_of (en_books s) security of
      None \<Rightarrow> Inr None
    | Some b \<Rightarrow>
        if expiry (instr b) \<noteq> ist_date now \<or> (case active of None \<Rightarrow> False | Some c \<Rightarrow> security \<noteq> lc_security c) then Inr None
        else let identity = book_identity b security;
                 b = b\<lparr>asks := undebited (debited identity (rt_ledger s)) (asks b)\<rparr>
             in bindR (case (final, en_final s, en_reference s) of
                    (True, Some f, _) \<Rightarrow> find_final_opportunity f [b] a
                  | (False, _, Some ref) \<Rightarrow> find_opportunity default_fees ref (streak_of security (en_streaks s)) [b] a
                  | _ \<Rightarrow> Inl TypeError) (\<lambda>(notes, found). Inr (map_option (\<lambda>x. (x, identity)) found)))"

definition best_choice :: "(opportunity \<times> string) list \<Rightarrow> (opportunity \<times> string) option res" where
  "best_choice xs =
     bindR (mapR (\<lambda>x. bindR (opportunity_key (fst x)) (\<lambda>k. Inr (k, x))) xs) (\<lambda>keyed. Inr (map_option snd (py_max_by fst keyed)))"

definition entry_window :: "'z engine_scheme \<Rightarrow> instant \<Rightarrow> bool \<Rightarrow> bool" where
  "entry_window s now final =
     (ist_date now = en_day s \<and> clock 15 20 \<le> ist_time now
      \<and> ist_time now < (if final then clock 15 38 + seconds 30 else clock 15 30))"

definition feed_ready :: "'z engine_scheme \<Rightarrow> instant \<Rightarrow> bool \<Rightarrow> bool" where
  "feed_ready s now final =
     (en_market_connected s \<and> (case en_cas s of None \<Rightarrow> False | Some st \<Rightarrow> st_trading_date st = ist_date now
        \<and> (final \<or> en_signal_connected s \<and> phase st \<in> {CAS_LM_START, CAS_M_STOP})))"

fun foreign_position :: "lifecycle_row option \<Rightarrow> jrow list \<Rightarrow> bool res" where
  "foreign_position active [] = Inr False"
| "foreign_position active (row # rows) =
     bindR (jint (jget_or ''netQty'' (jget_or ''netQuantity'' (JInt 0) row) row)) (\<lambda>q.
       if q \<noteq> 0 \<and> (case active of None \<Rightarrow> True | Some c \<Rightarrow> py_str (jget_or ''securityId'' JNull row) \<noteq> lc_security c)
       then Inr True else foreign_position active rows)"

text \<open>\<open>current_inputs\<close>, asked again under the order lock.\<close>

definition inputs_unchanged ::
  "bool \<Rightarrow> bool \<Rightarrow> cas_status option \<Rightarrow> final_value option \<Rightarrow> (decimal \<times> string) option \<Rightarrow> string \<Rightarrow> string \<Rightarrow> instant
   \<Rightarrow> 'z engine_scheme \<Rightarrow> bool" where
  "inputs_unchanged settlement_add final st f obs security identity now s =
     (entry_permitted settlement_add CAS s \<and> en_market_connected s \<and> en_cas s = st \<and> en_final s = f
      \<and> (final \<or> en_signal_connected s \<and> (case en_cas s of None \<Rightarrow> False | Some c \<Rightarrow> phase c \<in> {CAS_LM_START, CAS_M_STOP}))
      \<and> (if en_observations s = [] then None else Some (last (en_observations s))) = obs
      \<and> (case map_of (en_books s) security of None \<Rightarrow> False | Some b \<Rightarrow> book_identity b security = identity)
      \<and> ist_date now = en_day s \<and> ist_time now < (if final then clock 15 38 + seconds 30 else clock 15 30))"

text \<open>The lifecycle, the consumed book and the depth taken from it, in one transaction.\<close>

definition open_lifecycle ::
  "lifecycle_row option \<Rightarrow> lifecycle_row \<Rightarrow> string \<Rightarrow> string \<Rightarrow> int \<Rightarrow> ledger \<Rightarrow> (unit \<times> ledger) res" where
  "open_lifecycle active c identity intent_id quantity l =
     bindR (case active of Some _ \<Rightarrow> Inr (lg_lifecycles l) | None \<Rightarrow> insert_row lc_id c (lg_lifecycles l)) (\<lambda>cs.
     bindR (insert_row (\<lambda>(_, i, _). i) (identity, intent_id, quantity) (lg_depth_debits l)) (\<lambda>ds.
       Inr ((), l\<lparr>lg_lifecycles := cs, lg_consumed := insert_ignore fst (identity, lc_id c) (lg_consumed l), lg_depth_debits := ds\<rparr>)))"

text \<open>The directional engine, as the cycle uses it.\<close>

record 'z directional_ops =
  do_manage :: "lifecycle_row \<Rightarrow> snapshot \<Rightarrow> ('z, bool) sm"
  do_enter :: "snapshot \<Rightarrow> ('z, bool) sm"
  do_compare :: "opportunity \<Rightarrow> int \<Rightarrow> allocation \<Rightarrow> ('z, bool) sm"
  do_unblock :: "('z, unit) sm"
  do_blocked :: "'z \<Rightarrow> bool"

text \<open>Everything after the candidate has been chosen.\<close>

definition commit_entry ::
  "'z engine_scheme cycle_world \<Rightarrow> lifecycle_row option \<Rightarrow> bool \<Rightarrow> bool \<Rightarrow> allocation \<Rightarrow> opportunity \<Rightarrow> string \<Rightarrow> int
   \<Rightarrow> ('z engine_scheme, bool) sm" where
  "commit_entry w active settlement_add final a x identity quantity = bindS getS (\<lambda>s.
     let i = op_instrument x;
         lifecycle = (case active of Some c \<Rightarrow> lc_id c | None \<Rightarrow> CHR ''l'' # cw_uuid w);
         n = \<lparr>in_id = CHR ''i'' # cw_uuid w, in_side = BUY, in_instrument = i, in_quantity = quantity, in_limit_price = op_limit x,
           in_client_order_id = CHR ''e'' # take 28 (cw_uuid w), in_created_at = cw_now w, in_lifecycle_id = lifecycle\<rparr>;
         c = \<lparr>lc_id = lifecycle, lc_session = session_id s, lc_security = security_id i, lc_bankroll = bankroll a,
           lc_state = ''OPEN'', lc_strategy = CAS, lc_instrument = i, lc_signal_at = None, lc_exit_at = None,
           lc_details = [], lc_retain = None, lc_side = None, lc_shock = None\<rparr>
     in bindS (liftS (check_intent n)) (\<lambda>n.
        bindS (on_oms (onledger (observe (''decision:'' @ in_id n) ''ENTRY_DECISION''))) (\<lambda>_.
        bindS (on_oms (onledger (open_lifecycle active c identity (in_id n) quantity))) (\<lambda>_.
        bindS getS (\<lambda>s.
        bindS (liftS (worst_case_entry_cash default_fees quantity (op_limit x) 1)) (\<lambda>cash.
        bindS (submit_order w n (reserve_cash cash)
          (inputs_unchanged settlement_add final (en_cas s) (en_final s)
             (if en_observations s = [] then None else Some (last (en_observations s))) (security_id i) identity (cw_later w))) (\<lambda>_.
        bindS (set_status (\<lambda>t. t\<lparr>rs_state := ''ENTRY_PENDING'', rs_reason := op_reason x\<rparr>)) (\<lambda>_. retS True))))))))"

definition enter ::
  "'z engine_scheme cycle_world \<Rightarrow> 'z engine_scheme directional_ops option \<Rightarrow> snapshot \<Rightarrow> lifecycle_row option \<Rightarrow> bool
   \<Rightarrow> ('z engine_scheme, bool) sm" where
  "enter w dir snap active settlement_add = bindS getS (\<lambda>s.
     bindS (if sn_unresolved snap \<or> pending_intents (rt_ledger s) \<noteq> [] then retS False
            else permit_entry settlement_add CAS) (\<lambda>permitted.
     if \<not> permitted then retS False
     else bindS (liftS (foreign_position active (sn_positions snap))) (\<lambda>foreign.
     if foreign then bindS (set_reason ''UNMANAGED_ACCOUNT_POSITION'') (\<lambda>_. retS False)
     else let final = final_entry s in
     if \<not> entry_window s (cw_now w) final \<or> \<not> feed_ready s (cw_now w) final then retS False
     else bindS (liftS (cw_funds w)) (\<lambda>funds.
     bindS (modifyS (cw_funds_gap w)) (\<lambda>_.
     bindS getS (\<lambda>s'.
     bindS (if en_cas s' \<noteq> en_cas s \<or> en_final s' \<noteq> en_final s then retS False else permit_entry settlement_add CAS) (\<lambda>permitted.
     if \<not> permitted then retS False
     else bindS (set_status (\<lambda>t. t\<lparr>rs_funded := funded_by (rt_mandate s') funds\<rparr>)) (\<lambda>_.
     bindS (liftS (allocate (rt_mandate s') (session_id s') (rt_ledger s') funds active)) (\<lambda>a.
     bindS (liftS (mapR (entry_choice s' (cw_now w) active final a)
       (if final then map fst (en_books s') else map fst (en_streaks s')))) (\<lambda>found.
     bindS (liftS (best_choice (List.map_filter id found))) (\<lambda>best.
     case best of
       None \<Rightarrow> bindS (set_reason ''NO_EXECUTABLE_LAG_OR_REMAINING_ALLOWANCE'') (\<lambda>_. retS False)
     | Some (x, identity) \<Rightarrow>
         bindS (permit_entry settlement_add CAS) (\<lambda>permitted.
         if \<not> permitted then retS False
         else let quantity = min (op_quantity x) (whole_lots (op_instrument x)) in
         bindS (case (active, dir) of (None, Some d) \<Rightarrow> do_compare d x quantity a | _ \<Rightarrow> retS True) (\<lambda>preferred.
         if \<not> preferred then retS False
         else commit_entry w active settlement_add final a x identity quantity)))))))))))))"

section \<open>The cycle\<close>

definition close_lifecycle :: "lifecycle_row \<Rightarrow> decimal \<Rightarrow> ledger \<Rightarrow> (unit \<times> ledger) res" where
  "close_lifecycle c pnl l = Inr ((), l\<lparr>lg_postings := insert_ignore fst (lc_id c, pnl) (lg_postings l),
     lg_lifecycles := update_where (\<lambda>r. lc_id r = lc_id c) (\<lambda>r. r\<lparr>lc_state := ''CLOSED''\<rparr>) (lg_lifecycles l)\<rparr>)"

definition record_settlement :: "lifecycle_row \<Rightarrow> int \<Rightarrow> string \<times> decimal \<Rightarrow> ledger \<Rightarrow> (unit \<times> ledger) res" where
  "record_settlement c quantity receipt l = Inr ((), l\<lparr>lg_settlements := insert_ignore sl_receipt
     \<lparr>sl_receipt = fst receipt, sl_lifecycle = lc_id c, sl_quantity = quantity, sl_credit = snd receipt\<rparr> (lg_settlements l)\<rparr>)"

definition final_for :: "lifecycle_row \<Rightarrow> 'z engine_scheme \<Rightarrow> final_value option" where
  "final_for c s = (case en_final s of None \<Rightarrow> None
     | Some f \<Rightarrow> if map_option isoformat (fv_trading_date f) = Some (lc_session c) then Some f else None)"

text \<open>The totals after an expired position was looked up in the broker's statement.\<close>

definition settle_expired ::
  "'z engine_scheme cycle_world \<Rightarrow> lifecycle_row \<Rightarrow> instrument \<Rightarrow> totals \<Rightarrow> ('z engine_scheme, totals) sm" where
  "settle_expired w c i t =
     bindS (set_status (\<lambda>t. t\<lparr>rs_state := ''SETTLEMENT_PENDING'', rs_reason := ''SETTLEMENT_CASH_NOT_YET_MATCHED''\<rparr>)) (\<lambda>_.
     bindS getS (\<lambda>s. case (final_for c s, cw_statement w) of
         (Some f, Some rows) \<Rightarrow>
           bindS (liftS (match_settlement rows (md_account_id (rt_mandate s)) i f (held t))) (\<lambda>receipt.
             case receipt of
               None \<Rightarrow> retS t
             | Some r \<Rightarrow>
                 bindS (liftS (cw_funds w)) (\<lambda>_.
                 bindS (on_oms (onledger (record_settlement c (held t) r))) (\<lambda>_.
                 bindS getS (\<lambda>s. liftS (lifecycle_totals (lc_id c) (rt_ledger s))))))
       | _ \<Rightarrow> retS t))"

definition manage_final ::
  "'z engine_scheme cycle_world \<Rightarrow> 'z engine_scheme directional_ops option \<Rightarrow> snapshot \<Rightarrow> lifecycle_row \<Rightarrow> instrument \<Rightarrow> totals
   \<Rightarrow> option_book option \<Rightarrow> final_value \<Rightarrow> ('z engine_scheme, bool option) sm" where
  "manage_final w dir snap c i t book final =
     (let target = intrinsic (otype i) (strike i) (final_amount final);
          gross = target * of_int (held t)
      in bindS (liftS (supported_units i target (case book of None \<Rightarrow> [] | Some b \<Rightarrow> executable_sale_units b (held t)))) (\<lambda>units.
         bindS (liftS (fee_sell default_fees gross (children_of (whole_lots i) (held t)))) (\<lambda>fees.
         bindS getS (\<lambda>s.
         if 0 < gross - fees \<and> units = 0 \<and> en_exit_reason s = []
         then bindS (set_status (\<lambda>t. t\<lparr>rs_state := ''SETTLEMENT_PENDING'',
                       rs_reason := ''CONFIRMED_FINAL_EXERCISE_VALUE_EXCEEDS_FINITE_SALE''\<rparr>)) (\<lambda>_.
              bindS (put_meta (''settlement_pending:'' @ lc_id c) (MFinal final)) (\<lambda>_.
              bindS (enter w dir snap (Some c) True) (\<lambda>b. retS (Some b))))
         else (case book of
             Some b \<Rightarrow> if units \<noteq> 0 \<and> en_exit_reason s = []
                       then bindS (reduce w i (min units (held t)) b (lc_id c) False) (\<lambda>_.
                            bindS (set_state ''EXIT_PENDING'') (\<lambda>_. retS (Some True)))
                       else retS None
           | None \<Rightarrow> retS None)))))"

text \<open>
  The open auction position. \<open>None\<close> says that the lifecycle was closed, so that the
  cycle goes on to look for an entry, \<open>Some\<close> is the answer of the cycle.
\<close>

definition manage_auction ::
  "'z engine_scheme cycle_world \<Rightarrow> 'z engine_scheme directional_ops option \<Rightarrow> snapshot \<Rightarrow> lifecycle_row \<Rightarrow> ('z engine_scheme, bool option) sm" where
  "manage_auction w dir snap c = bindS getS (\<lambda>s.
     let i = lc_instrument c; now = cw_now w in
     bindS (liftS (lifecycle_totals (lc_id c) (rt_ledger s))) (\<lambda>t.
     bindS (liftS (held_by_broker (security_id i) (sn_positions snap))) (\<lambda>broker_qty.
     if sn_unresolved snap \<or> unresolved t \<or> pending_intents (rt_ledger s) \<noteq> []
     then bindS (set_state (if en_exit_reason s \<noteq> [] then ''EXIT_PENDING'' else ''ENTRY_PENDING'')) (\<lambda>_. retS (Some False))
     else let expired = expiry i < ist_date now \<or> ist_date now = expiry i \<and> clock 15 40 \<le> ist_time now in
     bindS (if broker_qty = 0 \<and> held t \<noteq> 0 \<and> expired then settle_expired w c i t else retS t) (\<lambda>t'.
     if broker_qty = 0 \<and> held t \<noteq> 0 \<and> expired \<and> held t' \<noteq> 0 then retS (Some False)
     else if broker_qty \<noteq> held t'
     then bindS (set_status (\<lambda>t. t\<lparr>rs_reason := ''POSITION_RECONCILIATION_MISMATCH'', rs_state := ''RECOVERING''\<rparr>)) (\<lambda>_. retS (Some False))
     else if expired \<and> held t' \<noteq> 0
     then bindS (set_status (\<lambda>t. t\<lparr>rs_state := ''SETTLEMENT_PENDING'', rs_reason := ''EXPIRED_POSITION_AWAITING_BROKER_CLEARING''\<rparr>)) (\<lambda>_. retS (Some False))
     else if held t' = 0
     then bindS (liftS (cw_funds w)) (\<lambda>_.
          bindS (on_oms (onledger (close_lifecycle c (sale_credit t' - entry_debit_total t')))) (\<lambda>_.
          bindS (modifyS (\<lambda>s. s\<lparr>en_exit_reason := [], en_peak_intrinsic := 0, en_peak_bid := 0\<rparr>)) (\<lambda>_.
          bindS (set_state ''ARMED_WAITING_SIGNAL'') (\<lambda>_. retS None))))
     else bindS getS (\<lambda>s.
          let book = map_of (en_books s) (security_id i) in
          bindS (case final_for c s of None \<Rightarrow> retS None | Some f \<Rightarrow> manage_final w dir snap c i t' book f) (\<lambda>answer.
          case answer of
            Some b \<Rightarrow> retS (Some b)
          | None \<Rightarrow> bindS (watch_position w c i t' book) (\<lambda>b.
              if b then retS (Some True) else bindS (enter w dir snap (Some c) False) (\<lambda>b. retS (Some b)))))))))"

text \<open>No position is open: the auction and the directional engine compete for the entry.\<close>

definition flat_entry ::
  "'z engine_scheme cycle_world \<Rightarrow> 'z engine_scheme directional_ops option \<Rightarrow> snapshot \<Rightarrow> ('z engine_scheme, bool) sm" where
  "flat_entry w dir snap = (case dir of
      None \<Rightarrow> enter w dir snap None False
    | Some d \<Rightarrow>
        bindS (do_unblock d) (\<lambda>_.
        bindS (permit_entry False CAS) (\<lambda>permitted.
        bindS getS (\<lambda>s.
        bindS (if permitted \<and> (en_final s \<noteq> None \<or> list_ex (\<lambda>(_, h). 2 \<le> length h) (en_streaks s))
               then enter w dir snap None False else retS False) (\<lambda>entered.
        if entered then retS True
        else bindS (do_enter d snap) (\<lambda>entered.
             if entered then retS True
             else bindS getS (\<lambda>s. if do_blocked d s then retS False else enter w dir snap None False)))))))"

text \<open>
  \<open>reconcile\<close> is the reconciliation the cycle runs first, \<open>None\<close> when it is asked to
  use the last one.
\<close>

definition cycle ::
  "'z engine_scheme cycle_world \<Rightarrow> 'z engine_scheme directional_ops option \<Rightarrow> (oms, snapshot) sm option \<Rightarrow> ('z engine_scheme, bool) sm" where
  "cycle w dir reconcile =
     bindS (case reconcile of
         None \<Rightarrow> retS ()
       | Some m \<Rightarrow> bindS (on_oms m) (\<lambda>r. modifyS (\<lambda>s. s\<lparr>rt_reconciled := Some r\<rparr>))) (\<lambda>_.
     bindS getS (\<lambda>s.
     if rt_refresh s = Some False
     then bindS (modifyS (\<lambda>s. s\<lparr>rt_requested := True\<rparr>)) (\<lambda>_.
          bindS (set_status (\<lambda>t. t\<lparr>rs_state := ''RECOVERING'', rs_reason := ''ACCOUNT_REFRESH_REQUIRED''\<rparr>)) (\<lambda>_. retS False))
     else case rt_reconciled s of
         None \<Rightarrow> retS False
       | Some snap \<Rightarrow>
           bindS get_active (\<lambda>active. case active of
               Some c \<Rightarrow>
                 if lc_strategy c \<noteq> CAS
                 then (case dir of
                     None \<Rightarrow> bindS (set_status (\<lambda>t. t\<lparr>rs_state := ''RECOVERING'', rs_reason := ''POSITION_STRATEGY_MANAGER_UNAVAILABLE''\<rparr>)) (\<lambda>_. retS False)
                   | Some d \<Rightarrow> do_manage d c snap)
                 else bindS (manage_auction w dir snap c) (\<lambda>answer. case answer of
                     Some b \<Rightarrow> retS b
                   | None \<Rightarrow> flat_entry w dir snap)
             | None \<Rightarrow> flat_entry w dir snap)))"

section \<open>Restoring a session\<close>

definition saved_reference :: "'z engine_scheme \<Rightarrow> reference option res" where
  "saved_reference s = (case map_of (lg_references (rt_ledger s)) (session_id s) of
      None \<Rightarrow> Inr None
    | Some r \<Rightarrow> if rf_value r \<le> 0 \<or> rf_epoch r = [] \<or> card (set (event_ids r)) \<noteq> 5 \<or> boundary_ms r \<le> 0
                   \<or> isoformat (ist_date (boundary_ms r * 1000)) \<noteq> session_id s
                then Inl (ContractError ''invalid saved reference'') else Inr (Some r))"

definition saved_final :: "'z engine_scheme \<Rightarrow> final_value option res" where
  "saved_final s =
     bindR (active_row (rt_ledger s)) (\<lambda>active.
       let session = (case active of Some c \<Rightarrow> lc_session c | None \<Rightarrow> session_id s)
       in case metadata (''final:'' @ session) (rt_ledger s) of
            None \<Rightarrow> Inr None
          | Some (MFinal f) \<Rightarrow> bindR (validate_final f) (\<lambda>_.
              if map_option isoformat (fv_trading_date f) = Some session then Inr (Some f)
              else Inl (ContractError ''saved final belongs to another session''))
          | Some _ \<Rightarrow> Inl TypeError)"

text \<open>The part of the constructor that reads the ledger; damaged evidence halts entries, not the position.\<close>

definition restore_session :: "('z engine_scheme, unit) sm" where
  "restore_session = bindS getS (\<lambda>s.
     case bindR (saved_reference s) (\<lambda>r. bindR (saved_final s) (\<lambda>f. Inr (r, f))) of
       Inr (r, f) \<Rightarrow>
         bindS (modifyS (\<lambda>s. s\<lparr>en_reference := r, en_final := f\<rparr>)) (\<lambda>_.
           set_status (\<lambda>t. t\<lparr>rs_final_verified := (rs_final_verified t \<or> f \<noteq> None)\<rparr>))
     | Inl e \<Rightarrow>
         bindS (modifyS (\<lambda>s. s\<lparr>en_saved_invalid := True, en_reference := None, en_final := None, en_exit_reason := ''SAVED_SIGNAL_INVALID''\<rparr>)) (\<lambda>_.
         bindS (set_status (\<lambda>t. t\<lparr>rs_final_verified := False\<rparr>)) (\<lambda>_.
         bindS disarm_new_entries (\<lambda>_.
           on_oms (onledger (incident (''saved-signal:'' @ session_id s) ''SAVED_SIGNAL_INVALID'' []))))))"

end
