(* ===== verification/EngineDemo.thy ===== *)
theory EngineDemo
  imports Engine
begin

text \<open>
  One entry of the session engine, run in the kernel: two index observations that a
  displayed quote lags, the opportunity they confirm, its cash under the real fee
  schedule and the order it leaves in the ledger. The witnesses of the engine's
  properties are evaluated on it.
\<close>

definition demo_alloc :: allocation where
  "demo_alloc = allocation_start 18000 18000 0 0 (Some 15000)"

lemma demo_entry_cash: "worst_case_entry_cash default_fees 75 100 1 = Inr (376389 / 50)"
  by (simp add: price_rules ceiling_div ceiling_inverse)
lemma demo_sale_cash: "conditional_sale_cash default_fees 75 150 1 = Inr (280116 / 25)"
  by (simp add: price_rules ceiling_div ceiling_inverse)
lemma demo_entry_reserve: "reserve_cash (376389 / 50) = 376389 / 50"
  by (simp add: price_rules ceiling_div ceiling_inverse)
lemma demo_entry_permits: "permits demo_alloc (376389 / 50)"
  by (simp add: permits_def demo_alloc_def allocation_start_def lifecycle_ceiling_def Let_def)
lemma demo_thin_sizes: "whole_lots demo_instrument = 1800" "children_of 1800 75 = 1" "lot_size demo_instrument = 75" "instr thin_book = demo_instrument"
   "cash_units demo_alloc 100 75 = 75" "ladder_capacity thin_book 100 = Inr 75" "candidate_sizes demo_instrument 75 = [75]"
  by (code_simp, code_simp, code_simp, simp add: thin_book_def, code_simp, code_simp, code_simp)

definition demo_opportunity :: opportunity where
  "demo_opportunity = \<lparr>op_instrument = demo_instrument, op_quantity = 75, op_limit = 100, op_edge = 183843 / 50,
     op_score = (ddiv (183843 / 50) (376389 / 50), 183843 / 50, 75), op_reason = ''CAS_LAG_V1''\<rparr>"

lemma demo_thin_sized: "size_opportunity default_fees demo_alloc demo_instrument 100 150 75 = Inr ([], [demo_opportunity])"
  by (simp add: size_opportunity_def demo_entry_cash demo_sale_cash demo_entry_reserve demo_entry_permits demo_thin_sizes demo_opportunity_def Let_def)

lemma demo_thin_lot: "lots_permitted default_fees demo_alloc demo_instrument 100 1 = Inr True"
  by (simp add: lots_permitted_def demo_entry_cash demo_entry_reserve demo_entry_permits demo_thin_sizes Let_def)

lemma demo_thin_lots: "search_lots (lots_permitted default_fees demo_alloc demo_instrument 100) 0 1 = Inr 1"
  by (simp add: search_lots.simps demo_thin_lot Let_def)

lemma demo_thin_limit: "limit_opportunities default_fees demo_alloc thin_book 150 100 = Inr ([], [demo_opportunity])"
  by (simp add: limit_opportunities_def gather_def demo_thin_sizes demo_thin_sized demo_thin_lots Let_def)

lemma demo_thin_limits: "limits_below thin_book (\<lambda>l. lv_price l < 150 \<and> 0 < lv_qty l \<and> permitted_limit demo_instrument (lv_price l)) = [100]"
  by code_simp

lemma demo_thin_target: "book_target CE demo_instrument [24160, 24150] = 150" "otype demo_instrument = CE" "tick_size demo_instrument = 1 / 20"
  "top_ask thin_book = Some \<lparr>lv_price = 100, lv_qty = 75\<rparr>" "top_bid thin_book = Some \<lparr>lv_price = 100, lv_qty = 150\<rparr>"
  by code_simp+

lemma demo_thin_opportunity: "book_opportunities default_fees demo_alloc CE [24160, 24150] thin_book = Inr ([], [demo_opportunity])"
  by (simp add: book_opportunities_def demo_thin_sizes demo_thin_limit demo_thin_limits demo_thin_target gather_def Let_def)

lemma demo_thin_best: "best_opportunity [demo_opportunity] = Inr (Some demo_opportunity)"
proof -
  have "parse_int ''1'' = Some 1" "security_id demo_instrument = ''1''" by code_simp+
  then show ?thesis by (simp add: best_opportunity_def opportunity_key_def demo_opportunity_def)
qed

lemma demo_thin_found: "find_opportunity default_fees demo_reference [(24150, ''1''), (24160, ''2'')] [thin_book] demo_alloc = Inr ([], Some demo_opportunity)"
  by (simp add: find_opportunity_def demo_reference_def same_direction_def gather_def demo_thin_opportunity demo_thin_best Let_def)

definition demo_mandate :: mandate where
  "demo_mandate = \<lparr>md_account_id = ''A'', md_strategy_id = ''CAS_LAG_V1'', allocated_capital = 20000,
     cumulative_entry_debit_cap = Some 15000, debit_cap_scope = ''mandate'', reinvest_realized_profit = False,
     equity_ceiling = None, probe_max_attempts_per_session = 1, probe_entry_debit_cap_per_session = 100,
     probe_spending_cap_per_mandate = 100, live_order_authority = True\<rparr>"

definition demo_funds :: funds_snapshot where
  "demo_funds = \<lparr>observed_at = 0, spendable_cash = 18000, strategy_equity = 18000, withdrawable_cash = 18000,
     collateral = 0, broker_account = ''A''\<rparr>"

definition demo_engine :: engine where
  "demo_engine = \<lparr>rt_oms = \<lparr>om_ledger = empty_ledger, om_revision = 0\<rparr>,
     rt_status = \<lparr>rs_software_verified = True, rs_funded = True, rs_route_verified = True, rs_cas_seen = True,
       rs_final_verified = False, rs_armed = True, rs_state = ''ARMED_WAITING_SIGNAL'', rs_reason = []\<rparr>,
     rt_mandate = demo_mandate, rt_enabled = [CAS], rt_refresh = None, rt_requested = False, rt_reconciled = None,
     en_books = [(''1'', thin_book)], en_reference = Some demo_reference,
     en_cas = Some \<lparr>phase = CAS_LM_START, updated_time_ms = 0, st_trading_date = 20000, st_epoch = ''e''\<rparr>,
     en_observations = [], en_reference_observations = [], en_streaks = [], en_identities = [],
     en_signal_epoch = Some ''e'', en_market_epoch = Some ''e'', en_signal_connected = True, en_market_connected = True,
     en_exit_reason = [], en_peak_intrinsic = 0, en_peak_bid = 0, en_final = None, en_last_signal = -1,
     en_day = 20000, en_saved_invalid = False\<rparr>"

definition demo_iep :: "decimal \<Rightarrow> int \<Rightarrow> index_observation" where
  "demo_iep v t = \<lparr>ob_value = v, provider_ts_ms = t, ob_received_ns = 1, ob_epoch = ''e'', receiver_seq = 1,
     frame_kind = ''live_feed'', raw_identity = show_int t, wrapper_present = True\<rparr>"

definition demo_lag :: engine where
  "demo_lag = snd (observe_iep (demo_iep 24160 2) [] (snd (observe_iep (demo_iep 24150 1) [] demo_engine)))"

definition demo_world :: "engine cycle_world" where
  "demo_world = \<lparr>cw_now = ist_at 20000 (clock 15 25), cw_later = ist_at 20000 (clock 15 25), cw_uuid = ''u'',
     cw_timestamp = 1 / 2, cw_attempt = ''a'', cw_reply = Replied None, cw_sale_positions = Inr [], cw_funds = Inr demo_funds,
     cw_statement = None, cw_funds_gap = (\<lambda>s. s), cw_dispatch_gap = (\<lambda>s. s)\<rparr>"

definition demo_snapshot :: snapshot where
  "demo_snapshot = \<lparr>sn_revision = 0, sn_positions = [], sn_unresolved = False\<rparr>"






lemma demo_lag_feeds: "en_books demo_lag = [(''1'', thin_book)]" "en_streaks demo_lag = [(''1'', [(24150, ''1''), (24160, ''2'')])]"
  "en_reference demo_lag = Some demo_reference" "en_final demo_lag = None" "final_entry demo_lag = False"
  "foreign_position None (sn_positions demo_snapshot) = Inr False"
  by code_simp+

lemma demo_lag_book: "book_identity thin_book ''1'' = ''e:1:1''" "debited ''e:1:1'' (rt_ledger demo_lag) = 0"
  "undebited 0 (asks thin_book) = asks thin_book" "expiry demo_instrument = 20000" "ist_date (cw_now demo_world) = 20000"
  by code_simp+

lemma demo_lag_choice: "entry_choice demo_lag (cw_now demo_world) None False demo_alloc ''1'' = Inr (Some (demo_opportunity, ''e:1:1''))"
  by (simp add: entry_choice_def demo_lag_feeds demo_lag_book demo_thin_sizes demo_thin_found streak_of_def Let_def)

lemma demo_lag_best: "best_choice [(demo_opportunity, ''e:1:1'')] = Inr (Some (demo_opportunity, ''e:1:1''))"
proof -
  have "parse_int ''1'' = Some 1" "security_id demo_instrument = ''1''" by code_simp+
  then show ?thesis by (simp add: best_choice_def opportunity_key_def demo_opportunity_def)
qed

lemma demo_lag_inputs: "sn_unresolved demo_snapshot = False" "pending_intents (rt_ledger demo_lag) = []"
  "entry_window demo_lag (cw_now demo_world) False" "feed_ready demo_lag (cw_now demo_world) False"
  "cw_funds demo_world = Inr demo_funds" "cw_funds_gap demo_world = (\<lambda>s. s)" "rt_mandate demo_lag = demo_mandate"
  "op_quantity demo_opportunity = 75"  "op_instrument demo_opportunity = demo_instrument"
  by (code_simp, code_simp, code_simp, code_simp, simp add: demo_world_def, simp add: demo_world_def, code_simp, simp_all add: demo_opportunity_def)

lemma demo_lag_allocation: "allocate demo_mandate (session_id demo_lag) (rt_ledger demo_lag) demo_funds None = Inr demo_alloc"
  by code_simp

lemma demo_cas_strategy: "CAS \<in> set STRATEGIES"
  by (simp add: STRATEGIES_def)

definition demo_order_intent :: intent where
  "demo_order_intent = \<lparr>in_id = ''iu'', in_side = BUY, in_instrument = demo_instrument, in_quantity = 75, in_limit_price = 100,
     in_client_order_id = ''eu'', in_created_at = ist_at 20000 (clock 15 25), in_lifecycle_id = ''lu''\<rparr>"

definition demo_row :: lifecycle_row where
  "demo_row = \<lparr>lc_id = ''lu'', lc_session = session_id demo_lag, lc_security = ''1'', lc_bankroll = bankroll demo_alloc,
     lc_state = ''OPEN'', lc_strategy = CAS, lc_instrument = demo_instrument, lc_signal_at = None, lc_exit_at = None,
     lc_details = [], lc_retain = None, lc_side = None, lc_shock = None\<rparr>"

definition demo_decided :: ledger where
  "demo_decided = snd (projr (observe ''decision:iu'' ''ENTRY_DECISION'' (rt_ledger demo_lag)))"

definition demo_opened :: ledger where
  "demo_opened = snd (projr (open_lifecycle None demo_row ''e:1:1'' ''iu'' 75 demo_decided))"

lemma demo_lag_permitted: "entry_permitted False CAS demo_lag"
  by (simp add: entry_permitted_def demo_cas_strategy) code_simp

lemma lag_permit: "permit_entry False CAS demo_lag = (Inr True, demo_lag)"
proof -
  have "rt_refresh demo_lag = None" by code_simp
  then show ?thesis by (simp add: permit_entry_def demo_lag_permitted)
qed

lemma demo_lag_funded: "demo_lag\<lparr>rt_status := (rt_status demo_lag)\<lparr>rs_funded := funded_by demo_mandate demo_funds\<rparr>\<rparr> = demo_lag"
  by code_simp

lemma demo_lag_enters: "enter demo_world None demo_snapshot None False demo_lag
   = commit_entry demo_world None False False demo_alloc demo_opportunity ''e:1:1'' 75 demo_lag"
  by (simp add: enter_def bindS_run demo_lag_feeds demo_lag_inputs demo_lag_allocation lag_permit demo_lag_funded demo_lag_choice demo_lag_best Let_def demo_thin_sizes map_filter_def)

definition demo_after :: engine where
  "demo_after = demo_lag\<lparr>rt_oms := (rt_oms demo_lag)\<lparr>om_ledger := demo_opened\<rparr>\<rparr>"

lemma demo_lag_fields: "rt_status demo_lag = rt_status demo_engine" "rt_mandate demo_lag = demo_mandate" "rt_enabled demo_lag = [CAS]" "rt_refresh demo_lag = None"
  "en_cas demo_lag = en_cas demo_engine" "en_observations demo_lag = [(24150, ''1''), (24160, ''2'')]" "en_market_connected demo_lag"
  "en_signal_connected demo_lag" "en_day demo_lag = 20000"
  by code_simp+

lemma demo_opened_fields: "metadata_flag ''disarmed'' demo_opened = False" "rt_status demo_engine = rt_status demo_after" "ist_date (cw_later demo_world) = 20000"
  "ist_time (cw_later demo_world) < clock 15 30"
  by code_simp+

lemma demo_opened_permitted: "entry_permitted False CAS demo_after"
  using demo_lag_permitted demo_opened_fields(1) by (simp add: entry_permitted_def demo_after_def Let_def)

lemma demo_opened_inputs: "inputs_unchanged False False (en_cas demo_lag) (en_final demo_lag) (Some (24160, ''2'')) ''1'' ''e:1:1'' (cw_later demo_world) demo_after"
  using demo_opened_permitted demo_lag_fields demo_opened_fields demo_lag_feeds demo_lag_book by (simp add: inputs_unchanged_def demo_after_def) (simp add: demo_engine_def)

lemma demo_opened_submit: "(\<lambda>(r, u). (r, lg_intents (om_ledger u) = []))
     (submit ''A'' (cw_now demo_world) (1 / 2) ''a'' demo_order_intent (376389 / 50) True (Inr []) (Replied None) (rt_oms demo_after))
   = (Inl (ContractError ''broker response is ambiguous; reconciliation required''), False)"
  by code_simp

lemma demo_order_checked: "check_intent demo_order_intent = Inr demo_order_intent"
  by code_simp

lemma demo_opened_run: "observe ''decision:iu'' ''ENTRY_DECISION'' (rt_ledger demo_lag) = Inr ((), demo_decided)"
  "open_lifecycle None demo_row ''e:1:1'' ''iu'' 75 demo_decided = Inr ((), demo_opened)"
  by code_simp+

lemma demo_world_fields: "md_account_id (rt_mandate demo_after) = ''A''" "cw_dispatch_gap demo_world = (\<lambda>s. s)" "cw_timestamp demo_world = 1 / 2"
    "cw_attempt demo_world = ''a''" "cw_sale_positions demo_world = Inr []" "cw_reply demo_world = Replied None"
  by (code_simp, simp_all add: demo_world_def)

lemma demo_opened_order: "\<exists>e u. submit_order demo_world demo_order_intent (376389 / 50) (inputs_unchanged False False (en_cas demo_lag) (en_final demo_lag)
     (Some (24160, ''2'')) ''1'' ''e:1:1'' (cw_later demo_world)) demo_after = (Inl e, u) \<and> lg_intents (rt_ledger u) \<noteq> []"
proof -
  obtain r u where "submit ''A'' (cw_now demo_world) (1 / 2) ''a'' demo_order_intent (376389 / 50) True (Inr []) (Replied None) (rt_oms demo_after) = (r, u)" by force
  then show ?thesis using demo_opened_inputs demo_opened_submit by (simp add: submit_order_def bindS_run demo_order_checked demo_world_fields on_oms_def)
qed

lemma demo_order_fields: "op_limit demo_opportunity = 100" "cw_uuid demo_world = ''u''" "cw_now demo_world = ist_at 20000 (clock 15 25)"
    "security_id demo_instrument = ''1''" "in_id demo_order_intent = ''iu''"
  by (simp_all add: demo_opportunity_def demo_world_def demo_instrument_def demo_order_intent_def)

lemma demo_opened_state: "demo_lag\<lparr>rt_oms := (rt_oms demo_lag)\<lparr>om_ledger := demo_opened\<rparr>\<rparr> = demo_after"
  by (simp add: demo_after_def)

lemma demo_opened_feeds: "en_cas demo_after = en_cas demo_lag" "en_final demo_after = en_final demo_lag" "en_observations demo_after = en_observations demo_lag"
  by (simp_all add: demo_after_def)

lemma demo_lag_commits: "lg_intents (rt_ledger (snd (commit_entry demo_world None False False demo_alloc demo_opportunity ''e:1:1'' 75 demo_lag))) \<noteq> []"
proof -
  from demo_opened_order obtain e u where "submit_order demo_world demo_order_intent (376389 / 50) (inputs_unchanged False False (en_cas demo_lag) (en_final demo_lag)
     (Some (24160, ''2'')) ''1'' ''e:1:1'' (cw_later demo_world)) demo_after = (Inl e, u)" "lg_intents (rt_ledger u) \<noteq> []" by blast
  then show ?thesis
    by (simp add: commit_entry_def bindS_run Let_def demo_lag_inputs(9) demo_order_fields demo_order_checked demo_order_intent_def [symmetric] demo_row_def [symmetric] on_oms_def onledger_def transactionS_run demo_opened_run
     demo_opened_state demo_opened_feeds demo_entry_cash demo_entry_reserve demo_lag_fields(6))
qed

end
