(* ===== verification/AccountRefresh.thy ===== *)
theory AccountRefresh
  imports EngineDemo
begin

text \<open>
  The background account reader of \<open>dhan_cas_bot/account_refresh.py\<close>: websocket events
  invalidate the account view, a pass of reads makes it current again. A pass awaits the
  broker in four places; what other callbacks do meanwhile is a function on the state.
\<close>

section \<open>State\<close>

text \<open>
  \<open>rt_requested\<close> of the runtime is the event \<open>requested\<close>; readings of the monotonic clock
  are floating-point seconds.
\<close>

record account_view = runtime +
  av_seen :: "(string \<times> string) list"
  av_observed :: "rat option"
  av_revision :: "int option"
  av_healthy :: bool
  av_funds :: "funds_snapshot option"
  av_woken :: bool

definition max_age :: rat where "max_age = 5"

definition view_fresh :: "rat \<Rightarrow> 'z account_view_scheme \<Rightarrow> bool" where
  "view_fresh reading s = (av_healthy s \<and> (case av_observed s of None \<Rightarrow> False | Some t \<Rightarrow> 0 \<le> dbl (reading - t) \<and> dbl (reading - t) \<le> max_age)
     \<and> av_revision s = Some (om_revision (rt_oms s)))"

text \<open>What \<open>permit_entry\<close> and the cycle read of the component: its answer at this clock reading.\<close>

definition certified :: "rat \<Rightarrow> 'z account_view_scheme \<Rightarrow> 'z account_view_scheme" where
  "certified reading s = s\<lparr>rt_refresh := Some (view_fresh reading s)\<rparr>"

section \<open>Events\<close>

definition view_changed :: "'z account_view_scheme \<Rightarrow> 'z account_view_scheme" where
  "view_changed s = s\<lparr>rt_oms := (rt_oms s)\<lparr>om_revision := om_revision (rt_oms s) + 1\<rparr>, rt_requested := True\<rparr>"

definition invalidate_view :: "'z account_view_scheme \<Rightarrow> 'z account_view_scheme" where
  "invalidate_view s = (view_changed (s\<lparr>av_healthy := False, av_funds := None\<rparr>))\<lparr>av_woken := True\<rparr>"

text \<open>\<open>digest\<close> is the SHA-256 of the event's sorted JSON text.\<close>

definition order_event :: "string \<Rightarrow> string \<Rightarrow> 'z account_view_scheme \<Rightarrow> 'z account_view_scheme" where
  "order_event epoch digest s =
     (if (epoch, digest) \<in> set (av_seen s) then s
      else let seen = av_seen s @ [(epoch, digest)]
           in invalidate_view (s\<lparr>av_seen := (if 2048 < length seen then drop 1 seen else seen)\<rparr>))"

section \<open>One pass\<close>

text \<open>The answers one reconciliation reads, or the exception of a read.\<close>

record account_reads =
  ad_now :: instant
  ad_rows :: "intent_row list"
  ad_resolved :: "string \<Rightarrow> jrow option"
  ad_trades :: "jrow list"
  ad_historical :: "jrow list"
  ad_positions :: "jrow list"

text \<open>
  The clock before the first reads, after the cash and before the second reads; whether the
  cash answers before the reads; and what happens during the four awaits: the first reads,
  the cash, the second reads and the final one.
\<close>

record 's view_world =
  vw_started :: rat
  vw_checked :: rat
  vw_again :: rat
  vw_first :: "account_reads res"
  vw_second :: "account_reads res"
  vw_cash :: "funds_snapshot option"
  vw_cash_early :: bool
  vw_reads_gap :: "'s \<Rightarrow> 's"
  vw_cash_gap :: "'s \<Rightarrow> 's"
  vw_again_gap :: "'s \<Rightarrow> 's"
  vw_last_gap :: "'s \<Rightarrow> 's"

definition reconcile_view :: "account_reads res \<Rightarrow> int \<Rightarrow> ('z account_view_scheme, snapshot) sm" where
  "reconcile_view reads revision = bindS (liftS reads) (\<lambda>d. bindS getS (\<lambda>s.
     on_oms (reconcile_commit (ad_now d) (md_account_id (rt_mandate s)) revision (ad_rows d) (ad_resolved d) (ad_trades d)
       (ad_historical d) (ad_positions d))))"

text \<open>\<open>read_cash\<close>: what it returns; a failed, empty or foreign observation blocks entries at once.\<close>

definition cash_seen :: "mandate \<Rightarrow> funds_snapshot option \<Rightarrow> funds_snapshot option" where
  "cash_seen m cash = (case cash of None \<Rightarrow> None
     | Some f \<Rightarrow> if funded_by m f then Some f else if broker_account f = md_account_id m then Some f else None)"

definition cash_blocks :: "funds_snapshot option \<Rightarrow> 'z account_view_scheme \<Rightarrow> 'z account_view_scheme" where
  "cash_blocks cash s = (case cash of
     Some f \<Rightarrow> if funded_by (rt_mandate s) f then s else s\<lparr>rt_status := (rt_status s)\<lparr>rs_funded := False\<rparr>\<rparr>
   | None \<Rightarrow> s\<lparr>rt_status := (rt_status s)\<lparr>rs_funded := False\<rparr>\<rparr>)"

definition adopt_view :: "snapshot \<Rightarrow> rat \<Rightarrow> 'z account_view_scheme \<Rightarrow> 'z account_view_scheme" where
  "adopt_view snap reading s = s\<lparr>rt_reconciled := Some snap, av_revision := Some (sn_revision snap), av_observed := Some reading\<rparr>"

definition same_revision :: "string \<Rightarrow> ('z account_view_scheme, unit) sm" where
  "same_revision why = bindS getS (\<lambda>s. guardS (av_revision s = Some (om_revision (rt_oms s))) (ReconciliationChanged why))"

text \<open>The body of the \<open>try\<close>: positions first, then the cash, and the positions again when the cash was slow.\<close>

definition view_reads :: "'z account_view_scheme view_world \<Rightarrow> ('z account_view_scheme, snapshot) sm" where
  "view_reads w = bindS getS (\<lambda>s. let revision = om_revision (rt_oms s) in
     bindS (modifyS (vw_reads_gap w)) (\<lambda>_.
     bindS (whenS (vw_cash_early w) (modifyS (cash_blocks (vw_cash w)))) (\<lambda>_.
     bindS (reconcile_view (vw_first w) revision) (\<lambda>snap.
     bindS (modifyS (\<lambda>s. (adopt_view snap (vw_started w) s)\<lparr>av_healthy := True, av_woken := True\<rparr>)) (\<lambda>_.
     bindS (modifyS (vw_cash_gap w)) (\<lambda>_.
     bindS (whenS (\<not> vw_cash_early w) (modifyS (cash_blocks (vw_cash w)))) (\<lambda>_.
     bindS (same_revision ''account changed during cash read'') (\<lambda>_.
     if max_age < dbl (vw_checked w - vw_started w)
     then bindS (modifyS (vw_again_gap w)) (\<lambda>_.
          bindS (reconcile_view (vw_second w) (sn_revision snap)) (\<lambda>snap.
          bindS (modifyS (adopt_view snap (vw_again w))) (\<lambda>_. retS snap)))
     else retS snap))))))))"

definition cash_reason :: "funds_snapshot option \<Rightarrow> string \<Rightarrow> string" where
  "cash_reason funds reason = (case funds of None \<Rightarrow> ''ACCOUNT_FUNDS_UNAVAILABLE''
     | Some f \<Rightarrow> if prefix ''ACCOUNT_FUNDS_UNAVAILABLE'' reason \<or> reason \<in> {''RECOVERY_REQUIRED:ACCOUNT_READ_FAILED'', ''ACCOUNT_REFRESH_REQUIRED''}
                then [] else reason)"

definition publish_view :: "funds_snapshot option \<Rightarrow> snapshot \<Rightarrow> 'z account_view_scheme \<Rightarrow> 'z account_view_scheme" where
  "publish_view funds snap s = (let t = rt_status s in s\<lparr>av_funds := funds, av_woken := True, rt_status := t\<lparr>
     rs_funded := (case funds of None \<Rightarrow> False | Some f \<Rightarrow> 0 < spendable_cash f),
     rs_reason := cash_reason funds (rs_reason t),
     rs_state := (if rs_state t = ''RECOVERING'' \<and> \<not> sn_unresolved snap then ''ARMED_WAITING_SIGNAL'' else rs_state t)\<rparr>\<rparr>)"

text \<open>\<open>finally\<close>: its await happens whether the body returned or raised.\<close>

definition finallyS :: "('s, 'a) sm \<Rightarrow> ('s \<Rightarrow> 's) \<Rightarrow> ('s, 'a) sm" where
  "finallyS m f = (\<lambda>s. case m s of (r, t) \<Rightarrow> (r, f t))"

definition refresh_view :: "'z account_view_scheme view_world \<Rightarrow> ('z account_view_scheme, unit) sm" where
  "refresh_view w = bindS (finallyS (view_reads w) (vw_last_gap w)) (\<lambda>snap.
     bindS (same_revision ''account changed before publishing observations'') (\<lambda>_.
     bindS getS (\<lambda>s. modifyS (publish_view (cash_seen (rt_mandate s) (vw_cash w)) snap))))"

text \<open>One turn of \<open>run\<close>, up to its wait.\<close>

definition refresh_pass :: "'z account_view_scheme view_world \<Rightarrow> 'z account_view_scheme \<Rightarrow> 'z account_view_scheme" where
  "refresh_pass w s = (case refresh_view w (s\<lparr>rt_requested := False\<rparr>) of
     (Inr _, t) \<Rightarrow> t
   | (Inl (ReconciliationChanged _), t) \<Rightarrow> t\<lparr>av_healthy := False, rt_requested := True\<rparr>
   | (Inl _, t) \<Rightarrow> t\<lparr>av_healthy := False, av_woken := True,
       rt_status := (rt_status t)\<lparr>rs_funded := False, rs_reason := ''RECOVERY_REQUIRED:ACCOUNT_READ_FAILED''\<rparr>\<rparr>)"

definition refresh_interval :: "bool \<Rightarrow> rat \<Rightarrow> 'z account_view_scheme \<Rightarrow> rat" where
  "refresh_interval busy reading s = (case (av_healthy s, av_observed s) of
     (True, Some t) \<Rightarrow> let left = dbl (dbl (max_age - dbl (reading - t)) - 1 / 2)
       in min (if busy then dbl (4 / 10) else 2) (max (dbl (1 / 10)) left)
   | _ \<Rightarrow> if busy then dbl (4 / 10) else 5)"


section \<open>What callbacks may do during an await\<close>

text \<open>
  The account may change, but only with its revision; the view may be invalidated but not
  made healthy; its snapshot, its clock and the mandate are left alone.
\<close>

definition aside :: "'z account_view_scheme \<Rightarrow> 'z account_view_scheme \<Rightarrow> bool" where
  "aside s t = (om_revision (rt_oms s) \<le> om_revision (rt_oms t) \<and> (av_healthy t \<longrightarrow> av_healthy s) \<and> av_observed t = av_observed s
     \<and> av_revision t = av_revision s \<and> rt_reconciled t = rt_reconciled s \<and> rt_mandate t = rt_mandate s)"

interpretation aside: step_closed aside
  by unfold_locales (auto simp: aside_def)

lemma aside_event: "aside s (order_event e d s)" and aside_invalidate: "aside s (invalidate_view s)"
  by (auto simp: aside_def order_event_def invalidate_view_def view_changed_def Let_def)

lemma aside_submission: "always aside (on_oms (submit account now ts a n reserved ready positions answer))"
  by (auto simp: always_def aside_def on_oms_def revision_grows_def split: prod.splits dest!: alwaysD [OF rev_submit])

lemma aside_status: "always aside (set_status f)" and aside_funds: "always aside (refresh_account funds)"
  by (auto simp: always_def aside_def refresh_account_def bindS_run split: sum.splits)

definition gaps_aside :: "'z account_view_scheme view_world \<Rightarrow> bool" where
  "gaps_aside w = (\<forall>s. aside s (vw_reads_gap w s) \<and> aside s (vw_cash_gap w s) \<and> aside s (vw_again_gap w s) \<and> aside s (vw_last_gap w s))"

section \<open>A certified view\<close>

definition revision_same :: "oms \<Rightarrow> oms \<Rightarrow> bool" where
  "revision_same s t = (om_revision t = om_revision s)"

interpretation rev_same: step_closed revision_same
  by unfold_locales (auto simp: revision_same_def)

lemma same_onledger: "always revision_same (onledger f)"
  by (auto simp: always_def onledger_run revision_same_def split: sum.splits)

lemmas same_intros = rev_same.always_rules same_onledger

lemma same_apply_intent: "always revision_same (apply_intent now account trades historical resolved row)"
  unfolding apply_intent_def apply_order_def apply_trade_def confirm_historical_def settle_intent_def Let_def
  by (cases "resolved (ir_id row)") (auto simp del: if_split intro!: same_intros)

lemma reconcile_commit_Inr:
  assumes "reconcile_commit now account revision rows resolved trades historical positions s = (Inr snap, t)"
  shows "om_revision s = revision \<and> om_revision t = revision + 1 \<and> sn_revision snap = revision + 1
    \<and> sn_unresolved snap = (pending_intents (om_ledger t) \<noteq> []) \<and> sn_positions snap = positions"
proof -
  have m: "always revision_same (iterS (apply_intent now account trades historical resolved) rows)"
    by (intro same_intros same_apply_intent)
  have r: "om_revision s = revision"
    using assms by (cases "revision = om_revision s") (simp_all add: reconcile_commit_def bindS_run)
  obtain x u where run: "iterS (apply_intent now account trades historical resolved) rows (s\<lparr>om_revision := om_revision s + 1\<rparr>) = (x, u)"
    by force
  have snap: "t = u \<and> snap = \<lparr>sn_revision = om_revision u, sn_positions = positions, sn_unresolved = (pending_intents (om_ledger u) \<noteq> [])\<rparr>"
    using assms r run by (cases x) (simp_all add: reconcile_commit_def bindS_run account_changed_def, blast)
  from alwaysD [OF m run] r snap show ?thesis by (simp add: revision_same_def)
qed

lemma reconcile_view_Inr:
  assumes "reconcile_view reads revision s = (Inr snap, t)"
  obtains d o' where "reads = Inr d" "t = s\<lparr>rt_oms := o'\<rparr>" "om_revision (rt_oms s) = revision" "om_revision o' = revision + 1"
    "sn_revision snap = revision + 1" "sn_unresolved snap = (pending_intents (om_ledger o') \<noteq> [])" "sn_positions snap = ad_positions d"
proof -
  from assms obtain d o' where d: "reads = Inr d" and t: "t = s\<lparr>rt_oms := o'\<rparr>"
    and run: "reconcile_commit (ad_now d) (md_account_id (rt_mandate s)) revision (ad_rows d) (ad_resolved d) (ad_trades d)
      (ad_historical d) (ad_positions d) (rt_oms s) = (Inr snap, o')"
    by (auto simp: reconcile_view_def bindS_run on_oms_def split: prod.splits sum.splits)
  from reconcile_commit_Inr [OF run] show thesis by (intro that [OF d t]) simp_all
qed

definition slow_cash :: "'s view_world \<Rightarrow> bool" where
  "slow_cash w = (max_age < dbl (vw_checked w - vw_started w))"

text \<open>The view a successful body leaves: nothing but its own reconciliations changed the account.\<close>

definition adopted :: "'z account_view_scheme view_world \<Rightarrow> 'z account_view_scheme \<Rightarrow> snapshot \<Rightarrow> 'z account_view_scheme \<Rightarrow> bool" where
  "adopted w s snap t = (sn_revision snap = om_revision (rt_oms s) + (if slow_cash w then 2 else 1)
     \<and> om_revision (rt_oms t) = sn_revision snap \<and> av_revision t = Some (sn_revision snap) \<and> rt_reconciled t = Some snap
     \<and> av_observed t = Some (if slow_cash w then vw_again w else vw_started w) \<and> rt_mandate t = rt_mandate s
     \<and> (\<exists>d. (if slow_cash w then vw_second w else vw_first w) = Inr d \<and> sn_positions snap = ad_positions d))"

lemma cash_blocks_fields [simp]:
  "rt_oms (cash_blocks c s) = rt_oms s" "av_observed (cash_blocks c s) = av_observed s" "av_revision (cash_blocks c s) = av_revision s"
  "rt_reconciled (cash_blocks c s) = rt_reconciled s" "rt_mandate (cash_blocks c s) = rt_mandate s" "av_healthy (cash_blocks c s) = av_healthy s"
  by (auto simp: cash_blocks_def split: option.splits)

lemma when_modify: "whenS b (modifyS f) s = (Inr (), if b then f s else s)"
  by (simp add: whenS_def)

lemma view_reads_Inr:
  assumes g: "gaps_aside w" and run: "view_reads w s = (Inr snap, t)"
  shows "adopted w s snap t"
proof -
  let ?a = "\<lambda>b s. if b then cash_blocks (vw_cash w) s else s"
  let ?s1 = "?a (vw_cash_early w) (vw_reads_gap w s)"
  obtain snap1 s2 where r1: "reconcile_view (vw_first w) (om_revision (rt_oms s)) ?s1 = (Inr snap1, s2)"
    using run by (auto simp: view_reads_def bindS_run when_modify split: prod.splits sum.splits)
  define s3 where "s3 = ?a (\<not> vw_cash_early w) (vw_cash_gap w ((adopt_view snap1 (vw_started w) s2)\<lparr>av_healthy := True, av_woken := True\<rparr>))"
  have rest: "av_revision s3 = Some (om_revision (rt_oms s3))"
    "(if slow_cash w then bindS (modifyS (vw_again_gap w)) (\<lambda>_. bindS (reconcile_view (vw_second w) (sn_revision snap1)) (\<lambda>snap.
        bindS (modifyS (adopt_view snap (vw_again w))) (\<lambda>_. retS snap))) else retS snap1) s3 = (Inr snap, t)"
    using run r1 by (auto simp: view_reads_def bindS_run when_modify s3_def same_revision_def guardR_def slow_cash_def Let_def
        split: prod.splits sum.splits if_splits)
  have g1: "aside s (vw_reads_gap w s)" and g3: "aside ((adopt_view snap1 (vw_started w) s2)\<lparr>av_healthy := True, av_woken := True\<rparr>) (vw_cash_gap w ((adopt_view snap1 (vw_started w) s2)\<lparr>av_healthy := True, av_woken := True\<rparr>))"
    and g4: "aside s3 (vw_again_gap w s3)" using g by (simp_all add: gaps_aside_def)
  from r1 obtain d o1 where d: "vw_first w = Inr d" "s2 = ?s1\<lparr>rt_oms := o1\<rparr>" "om_revision (rt_oms ?s1) = om_revision (rt_oms s)"
    "om_revision o1 = om_revision (rt_oms s) + 1" "sn_revision snap1 = om_revision (rt_oms s) + 1" "sn_positions snap1 = ad_positions d"
    by (rule reconcile_view_Inr) blast
  have s3: "om_revision (rt_oms s3) = sn_revision snap1" "av_revision s3 = Some (sn_revision snap1)" "rt_reconciled s3 = Some snap1"
    "av_observed s3 = Some (vw_started w)" "rt_mandate s3 = rt_mandate s"
    using g1 g3 rest(1) d by (auto simp: s3_def aside_def adopt_view_def split: if_splits)
  show ?thesis
  proof (cases "slow_cash w")
    case False
    with rest(2) s3 d show ?thesis by (simp add: adopted_def)
  next
    case True
    with rest(2) obtain u where r2: "reconcile_view (vw_second w) (sn_revision snap1) (vw_again_gap w s3) = (Inr snap, u)"
      and t: "t = adopt_view snap (vw_again w) u"
      by (auto simp: bindS_run split: prod.splits sum.splits)
    from r2 obtain e o2 where e: "vw_second w = Inr e" "u = (vw_again_gap w s3)\<lparr>rt_oms := o2\<rparr>" "om_revision o2 = sn_revision snap1 + 1"
      "sn_revision snap = sn_revision snap1 + 1" "sn_positions snap = ad_positions e"
      by (rule reconcile_view_Inr) blast
    with True t g4 s3 d show ?thesis by (auto simp: adopted_def adopt_view_def aside_def)
  qed
qed


lemma adopted_pass:
  assumes g: "gaps_aside w" and h: "av_healthy (refresh_pass w s)"
  shows "\<exists>snap. adopted w s snap (refresh_pass w s)
    \<and> rs_funded (rt_status (refresh_pass w s)) = (\<exists>f. vw_cash w = Some f \<and> funded_by (rt_mandate s) f)
    \<and> (rs_state (rt_status (refresh_pass w s)) = ''RECOVERING'' \<longrightarrow> sn_unresolved snap)"
proof -
  let ?s = "s\<lparr>rt_requested := False\<rparr>"
  obtain r t where run: "refresh_view w ?s = (r, t)" by force
  show ?thesis
  proof (cases r)
    case (Inl e)
    with run h show ?thesis by (cases e) (simp_all add: refresh_pass_def)
  next
    case (Inr x)
    with run obtain snap u where reads: "view_reads w ?s = (Inr snap, u)"
      and same: "av_revision (vw_last_gap w u) = Some (om_revision (rt_oms (vw_last_gap w u)))"
      and t: "t = publish_view (cash_seen (rt_mandate (vw_last_gap w u)) (vw_cash w)) snap (vw_last_gap w u)"
      by (auto simp: refresh_view_def finallyS_def bindS_run same_revision_def guardR_def split: prod.splits sum.splits if_splits)
    from view_reads_Inr [OF g reads] have a: "adopted w ?s snap u" .
    have l: "aside u (vw_last_gap w u)" using g by (simp add: gaps_aside_def)
    have p: "refresh_pass w s = t" using run Inr by (simp add: refresh_pass_def)
    have "adopted w s snap t" using a l same t by (auto simp: adopted_def aside_def publish_view_def Let_def)
    moreover have "rt_mandate (vw_last_gap w u) = rt_mandate s" using a l by (simp add: adopted_def aside_def)
    ultimately show ?thesis unfolding p using t
      by (auto simp: publish_view_def cash_seen_def funded_by_def Let_def split: option.splits)
  qed
qed

text \<open>
  C29: An entry is permitted only on a current account view. Whatever the callbacks do while a
  pass of the account reader waits (the account may change with its revision, the view may be
  invalidated), if afterwards the entry gate lets a strategy through at some clock reading,
  then that reading is at most five seconds after the start of the reads of the adopted
  positions, nothing but the pass itself changed the account during the pass, the adopted
  snapshot is of the account's current revision and holds the positions those reads
  answered, and the cash read of this pass named the mandate's account with money to spend.
\<close>

theorem entries_on_a_current_view:
  assumes "gaps_aside w" "entry_permitted add strategy (certified reading (refresh_pass w s))"
  shows "(\<exists>snap d. rt_reconciled (refresh_pass w s) = Some snap \<and> sn_revision snap = om_revision (rt_oms (refresh_pass w s))
      \<and> (if slow_cash w then vw_second w else vw_first w) = Inr d \<and> sn_positions snap = ad_positions d)
    \<and> om_revision (rt_oms (refresh_pass w s)) = om_revision (rt_oms s) + (if slow_cash w then 2 else 1)
    \<and> (let t = (if slow_cash w then vw_again w else vw_started w) in 0 \<le> dbl (reading - t) \<and> dbl (reading - t) \<le> 5)
    \<and> (\<exists>f. vw_cash w = Some f \<and> funded_by (rt_mandate s) f)"
proof -
  have f: "view_fresh reading (refresh_pass w s)" "rs_funded (rt_status (refresh_pass w s))"
    using assms(2) by (auto simp: entry_permitted_def certified_def Let_def)
  from f(1) have h: "av_healthy (refresh_pass w s)" by (simp add: view_fresh_def)
  from adopted_pass [OF assms(1) h] f show ?thesis
    by (auto simp: adopted_def view_fresh_def max_age_def)
qed

definition demo_view :: account_view where
  "demo_view = \<lparr>rt_oms = \<lparr>om_ledger = empty_ledger, om_revision = 3\<rparr>, rt_status = (rt_status demo_engine)\<lparr>rs_funded := False, rs_state := ''RECOVERING''\<rparr>,
     rt_mandate = demo_mandate, rt_enabled = [CAS], rt_refresh = None, rt_requested = True, rt_reconciled = None,
     av_seen = [], av_observed = None, av_revision = None, av_healthy = False, av_funds = None, av_woken = False\<rparr>"

definition demo_reads :: account_reads where
  "demo_reads = \<lparr>ad_now = 0, ad_rows = [], ad_resolved = (\<lambda>i. None), ad_trades = [], ad_historical = [], ad_positions = []\<rparr>"

definition demo_view_world :: "account_view view_world" where
  "demo_view_world = \<lparr>vw_started = 100, vw_checked = 106, vw_again = 106, vw_first = Inr demo_reads, vw_second = Inr demo_reads,
     vw_cash = Some demo_funds, vw_cash_early = False, vw_reads_gap = (\<lambda>s. s), vw_cash_gap = (\<lambda>s. s), vw_again_gap = (\<lambda>s. s),
     vw_last_gap = (\<lambda>s. s)\<rparr>"

lemma demo_view_pass: "refresh_pass demo_view_world demo_view = demo_view\<lparr>rt_oms := \<lparr>om_ledger = empty_ledger, om_revision = 5\<rparr>,
    rt_requested := False, rt_reconciled := Some \<lparr>sn_revision = 5, sn_positions = [], sn_unresolved = False\<rparr>, av_revision := Some 5,
    av_observed := Some 106, av_healthy := True, av_funds := Some demo_funds, av_woken := True,
    rt_status := (rt_status demo_engine)\<lparr>rs_state := ''ARMED_WAITING_SIGNAL''\<rparr>\<rparr>"
proof -
  have "dbl 6 = 6" "pending_intents empty_ledger = []" by code_simp+
  then show ?thesis
    by (simp add: refresh_pass_def refresh_view_def view_reads_def finallyS_def bindS_run when_modify same_revision_def reconcile_view_def
        on_oms_def reconcile_commit_def account_changed_def adopt_view_def cash_blocks_def cash_seen_def publish_view_def funded_by_def
        cash_reason_def max_age_def demo_view_def demo_view_world_def demo_reads_def demo_funds_def demo_mandate_def demo_engine_def Let_def)
qed

lemma demo_view_permits: "entry_permitted False CAS (certified reading (refresh_pass demo_view_world demo_view))
    = (0 \<le> dbl (reading - 106) \<and> dbl (reading - 106) \<le> 5)"
proof -
  have "CAS \<in> set STRATEGIES" "\<not> metadata_flag ''disarmed'' empty_ledger" by (simp add: STRATEGIES_def, code_simp)
  then show ?thesis unfolding demo_view_pass
    by (simp add: entry_permitted_def certified_def view_fresh_def demo_view_def demo_engine_def demo_mandate_def max_age_def Let_def)
qed

theorem entries_on_a_current_view_witness:
  "entry_permitted False CAS (certified 110 (refresh_pass demo_view_world demo_view))
   \<and> \<not> entry_permitted False CAS (certified 112 (refresh_pass demo_view_world demo_view))
   \<and> om_revision (rt_oms (refresh_pass demo_view_world demo_view)) = 5"
proof -
  have "gaps_aside demo_view_world" by (simp add: gaps_aside_def demo_view_world_def aside.refl)
  moreover have "dbl 4 = 4" "dbl 6 = 6" by code_simp+
  moreover from this have "entry_permitted False CAS (certified 110 (refresh_pass demo_view_world demo_view))"
    "\<not> entry_permitted False CAS (certified 112 (refresh_pass demo_view_world demo_view))" by (simp_all add: demo_view_permits)
  moreover have "slow_cash demo_view_world" using \<open>dbl 6 = 6\<close> by (simp add: slow_cash_def max_age_def demo_view_world_def)
  moreover have "om_revision (rt_oms demo_view) = 3" by (simp add: demo_view_def)
  ultimately show ?thesis using entries_on_a_current_view [of demo_view_world False CAS 110 demo_view] by simp
qed

section \<open>Events\<close>

text \<open>A new order event closes the gate, and nothing but a later pass opens it again; a repeated one changes nothing.\<close>

lemma order_event_closes:
  assumes "(e, d) \<notin> set (av_seen s)" "aside (order_event e d s) t"
  shows "\<not> entry_permitted add strategy (certified reading t)"
  using assms by (auto simp: aside_def order_event_def invalidate_view_def view_changed_def certified_def entry_permitted_def view_fresh_def Let_def)

lemma order_event_twice: "order_event e d (order_event e d s) = order_event e d s"
  by (auto simp: order_event_def invalidate_view_def view_changed_def Let_def last_conv_nth nth_append)

lemma order_events_bounded:
  assumes "length (av_seen s) \<le> 2048" "distinct (av_seen s)"
  shows "length (av_seen (order_event e d s)) \<le> 2048 \<and> distinct (av_seen (order_event e d s))"
  using assms by (auto simp: order_event_def invalidate_view_def view_changed_def Let_def dest: in_set_dropD)

text \<open>A pass during which the account changed leaves the view unhealthy and asks for another.\<close>

lemma changed_pass_unhealthy:
  assumes "gaps_aside w" "om_revision (rt_oms (refresh_pass w s)) \<noteq> om_revision (rt_oms s) + (if slow_cash w then 2 else 1)"
  shows "\<not> av_healthy (refresh_pass w s)"
  using adopted_pass [OF assms(1), of s] assms(2) by (auto simp: adopted_def)

text \<open>The reader waits at most five seconds, and a healthy view is read again before it is too old.\<close>

lemma refresh_interval_bounds: "dbl (1 / 10) \<le> refresh_interval busy reading s \<and> refresh_interval busy reading s \<le> 5"
proof -
  have f: "dbl (1 / 10) \<le> dbl (4 / 10)" "dbl (4 / 10) \<le> 2" by code_simp+
  have "a \<le> min c (max a x) \<and> min c (max a x) \<le> 5" if "a \<le> c" "c \<le> 5" for a c x :: rat using that by simp
  with f show ?thesis
    unfolding refresh_interval_def Let_def by (cases busy; cases "av_healthy s"; cases "av_observed s") simp_all
qed

end
