(* ===== verification/Feeds.thy ===== *)
theory Feeds
  imports Domain PyText "HOL-Library.Word"
begin

text \<open>
  The market feed of \<open>dhan_cas_bot/dhan_feed.py\<close> and \<open>dhan_cas_bot/feeds.py\<close>: the packets of
  a web socket message, the binary FULL packet with its little-endian fields and its
  32-bit floating-point prices, the connection epochs that discard repeated messages and
  the batches in which subscriptions are sent.
\<close>

type_synonym bytes = "8 word list"

section \<open>Little-endian fields\<close>

fun le :: "bytes \<Rightarrow> int" where
  "le [] = 0"
| "le (b # bs) = uint b + 256 * le bs"

text \<open>\<open>struct.unpack_from\<close> of an unsigned field of \<open>n\<close> bytes at an offset.\<close>

definition field :: "nat \<Rightarrow> nat \<Rightarrow> bytes \<Rightarrow> int" where
  "field off n payload = le (take n (drop off payload))"

text \<open>The value of an IEEE 754 binary32 pattern.\<close>

datatype float32 = Finite32 rat | Infinite32 | NaN32

definition float32_of :: "int \<Rightarrow> float32" where
  "float32_of n =
     (let sign = (if n div 2 ^ 31 mod 2 = 1 then - 1 else 1); e = n div 2 ^ 23 mod 256; m = n mod 2 ^ 23
      in if e = 255 then (if m = 0 then Infinite32 else NaN32)
         else if e = 0 then Finite32 (sign * (of_int m * pow_int 2 (- 149)))
         else Finite32 (sign * (of_int (2 ^ 23 + m) * pow_int 2 (e - 150))))"

definition float_field :: "nat \<Rightarrow> bytes \<Rightarrow> float32" where
  "float_field off payload = float32_of (field off 4 payload)"

text \<open>
  \<open>Decimal(str(x))\<close>: the shortest decimal, of at most 17 digits, that reads back as the double.
\<close>

definition repr_decimal :: "rat \<Rightarrow> decimal" where
  "repr_decimal x = (case find (\<lambda>p. dbl (fround 10 p x) = x) [1..<17] of
      Some p \<Rightarrow> fround 10 p x | None \<Rightarrow> fround 10 17 x)"

section \<open>The FULL packet\<close>

record dhan_packet =
  pk_code :: int
  pk_length :: int
  pk_segment :: segment
  pk_security :: string
  pk_bids :: "level list"
  pk_asks :: "level list"
  pk_provider_ts :: "int option"
  pk_statistics :: "market_statistics option"

definition depth_price :: "decimal \<Rightarrow> float32 \<Rightarrow> decimal res" where
  "depth_price tk raw = (case raw of
      Finite32 x \<Rightarrow>
        if x \<le> 0 then Inl (ContractError ''non-finite or negative Dhan depth price'')
        else let value = repr_decimal x;
                 rounded = dmul (of_int (round_half_even (ddiv value tk))) tk
             in if max (1 / 1000000) (dmul \<bar>value\<bar> (2 / 10000000)) < \<bar>dsub rounded value\<bar>
                then Inl (ContractError ''Dhan depth price is not tick aligned'') else Inr rounded
    | _ \<Rightarrow> Inl (ContractError ''non-finite or negative Dhan depth price''))"

definition statistic_price :: "decimal \<Rightarrow> bytes \<Rightarrow> nat \<Rightarrow> bool \<Rightarrow> decimal res" where
  "statistic_price tk payload off traded = (case float_field off payload of
      Finite32 x \<Rightarrow>
        if x < 0 then Inl (ContractError ''invalid Dhan statistic price'')
        else if traded \<and> x \<noteq> 0 then depth_price tk (Finite32 x) else Inr (repr_decimal x)
    | _ \<Rightarrow> Inl (ContractError ''invalid Dhan statistic price''))"

definition decode_statistics :: "decimal \<Rightarrow> bytes \<Rightarrow> market_statistics res" where
  "decode_statistics tk payload =
     bindR (statistic_price tk payload 8 True) (\<lambda>last.
     bindR (statistic_price tk payload 18 False) (\<lambda>average.
     bindR (statistic_price tk payload 46 True) (\<lambda>op.
     bindR (statistic_price tk payload 50 True) (\<lambda>close.
     bindR (statistic_price tk payload 54 True) (\<lambda>high.
     bindR (statistic_price tk payload 58 True) (\<lambda>low.
       check_statistics \<lparr>last_price = last, last_quantity = field 12 2 payload, average_price = average,
         volume = field 22 4 payload, total_sell_quantity = field 26 4 payload, total_buy_quantity = field 30 4 payload,
         open_interest = field 34 4 payload, oi_day_high = field 38 4 payload, oi_day_low = field 42 4 payload,
         day_open = op, day_close = (if close = 0 then None else Some close), day_high = high, day_low = low\<rparr>))))))"

definition positive32 :: "float32 \<Rightarrow> bool" where
  "positive32 f = (case f of Finite32 x \<Rightarrow> 0 < x | Infinite32 \<Rightarrow> True | NaN32 \<Rightarrow> False)"

text \<open>
  One side of one of the five rows. An infinity is positive or negative; only a positive one
  reaches the price and is refused there, so the sign bit decides.
\<close>

definition depth_side :: "decimal \<Rightarrow> bytes \<Rightarrow> nat \<Rightarrow> nat \<Rightarrow> level list res" where
  "depth_side tk payload quantity_off price_off =
     (let quantity = field quantity_off 4 payload; raw = float_field price_off payload
      in if quantity \<noteq> 0 \<and> positive32 raw \<and> \<not> (raw = Infinite32 \<and> 2 ^ 31 \<le> field price_off 4 payload)
         then bindR (depth_price tk raw) (\<lambda>p. bindR (check_level \<lparr>lv_price = p, lv_qty = quantity\<rparr>) (\<lambda>l. Inr [l]))
         else Inr [])"

definition depth_row :: "decimal \<Rightarrow> bytes \<Rightarrow> nat \<Rightarrow> level list \<times> level list \<Rightarrow> (level list \<times> level list) res" where
  "depth_row tk payload off sides =
     bindR (depth_side tk payload off (off + 12)) (\<lambda>bid.
     bindR (depth_side tk payload (off + 4) (off + 16)) (\<lambda>ask.
       Inr (fst sides @ bid, snd sides @ ask)))"

definition DEPTH_OFFSETS :: "nat list" where
  "DEPTH_OFFSETS = [62, 82, 102, 122, 142]"

text \<open>Only the contract's segment, identifier and tick are read.\<close>

definition decode_full :: "segment \<Rightarrow> string \<Rightarrow> decimal \<Rightarrow> bytes \<Rightarrow> dhan_packet res" where
  "decode_full segment security tk payload =
     (if length payload \<noteq> 162 then Inl (ContractError ''short Dhan Full packet'')
      else if field 0 1 payload \<noteq> 8 \<or> field 1 2 payload \<noteq> 162 \<or> field 3 1 payload \<noteq> 2
         \<or> security = [] \<or> \<not> list_all is_digit security \<or> field 4 4 payload \<noteq> digits_val security
      then Inl (ContractError ''invalid Dhan Full packet header'')
      else case float_field 8 payload of
          Finite32 ltp \<Rightarrow>
            if ltp < 0 then Inl (ContractError ''invalid Dhan Full LTP'')
            else bindR (decode_statistics tk payload) (\<lambda>stats.
                 bindR (foldR (depth_row tk payload) DEPTH_OFFSETS ([], [])) (\<lambda>(bids, asks).
                   Inr \<lparr>pk_code = 8, pk_length = 162, pk_segment = segment, pk_security = security, pk_bids = bids, pk_asks = asks,
                     pk_provider_ts = Some (field 14 4 payload * 1000), pk_statistics = Some stats\<rparr>))
        | _ \<Rightarrow> Inl (ContractError ''invalid Dhan Full LTP''))"

definition decode_full_binary :: "bytes \<Rightarrow> instrument \<Rightarrow> dhan_packet res" where
  "decode_full_binary payload i = decode_full (seg i) (security_id i) (tick_size i) payload"

definition book_from_packet :: "dhan_packet \<Rightarrow> instrument \<Rightarrow> string \<Rightarrow> int \<Rightarrow> option_book res" where
  "book_from_packet p i epoch received =
     (if pk_security p \<noteq> security_id i \<or> pk_segment p \<noteq> seg i
      then Inl (ContractError ''packet does not match subscription'')
      else check_book \<lparr>instr = i, bids = pk_bids p, asks = pk_asks p, bk_epoch = epoch, bk_received_ns = received,
             bk_provider_ts = pk_provider_ts p, bk_statistics = pk_statistics p\<rparr>)"

section \<open>The packets of a message\<close>

text \<open>The observed empty startup snapshot: one contract, a wrong declared length, no depth.\<close>

definition startup_snapshot :: "bytes \<Rightarrow> bool" where
  "startup_snapshot payload =
     (length payload = 162 \<and> field 0 1 payload = 8 \<and> field 1 2 payload = 70 \<and> field 3 1 payload = 2
      \<and> 0 < field 4 4 payload \<and> list_all (\<lambda>b. b = 0) (drop 62 payload))"

text \<open>The packets yielded, with the exception that ends the generator.\<close>

function split_packets :: "bytes \<Rightarrow> bytes list \<times> py_error option" where
  "split_packets payload =
     (let n = nat (field 1 2 payload) in
      if payload = [] then ([], None)
      else if length payload < 8 then ([], Some (InvalidFrame ''truncated Dhan packet header''))
      else if n < 8 \<or> length payload < n then ([], Some (InvalidFrame ''invalid Dhan packet length''))
      else if field 0 1 payload = 50
      then ([], Some (FeedDisconnect (if 10 \<le> n then Some (field 8 2 payload) else None)))
      else let (ps, e) = split_packets (drop n payload) in (take n payload # ps, e))"
  by pat_completeness auto
termination
  by (relation "measure length") auto

declare split_packets.simps [simp del]

definition packets :: "bytes \<Rightarrow> bytes list \<times> py_error option" where
  "packets payload = (if startup_snapshot payload then ([payload], None) else split_packets payload)"

section \<open>Connection epochs\<close>

record feed_epoch =
  fe_name :: string
  fe_number :: int
  fe_connected :: bool
  fe_seen :: "string list"
  fe_process :: string

definition epoch_reconnect :: "feed_epoch \<Rightarrow> feed_epoch" where
  "epoch_reconnect e = e\<lparr>fe_number := fe_number e + 1, fe_connected := True, fe_seen := []\<rparr>"

definition epoch_disconnect :: "feed_epoch \<Rightarrow> feed_epoch" where
  "epoch_disconnect e = e\<lparr>fe_connected := False, fe_seen := []\<rparr>"

definition epoch_id :: "feed_epoch \<Rightarrow> string" where
  "epoch_id e = fe_name e @ '':'' @ fe_process e @ '':'' @ show_int (fe_number e)"

definition epoch_accept :: "string \<Rightarrow> feed_epoch \<Rightarrow> bool \<times> feed_epoch" where
  "epoch_accept identity e =
     (if \<not> fe_connected e \<or> identity = [] \<or> identity \<in> set (fe_seen e) then (False, e)
      else (True, e\<lparr>fe_seen := identity # fe_seen e\<rparr>))"

definition on_connect :: "feed_epoch \<Rightarrow> string \<times> feed_epoch" where
  "on_connect e = (let e' = epoch_reconnect e in (epoch_id e', e'))"

definition accept_order_event :: "string \<Rightarrow> string \<Rightarrow> string \<Rightarrow> feed_epoch \<Rightarrow> (bool \<times> feed_epoch) res" where
  "accept_order_event account expected identity e =
     (if account \<noteq> expected then Inl (ContractError ''foreign-account order event'') else Inr (epoch_accept identity e))"

text \<open>
  Whether a signal frame may establish a live value: the first one of an epoch is a snapshot.
  The state is the epoch of the last snapshot.
\<close>

definition accept_live_nifty :: "bool \<Rightarrow> int \<Rightarrow> feed_epoch \<Rightarrow> string option \<Rightarrow> bool \<times> string option" where
  "accept_live_nifty has_nifty frame_type e snapshot =
     (if \<not> has_nifty then (False, snapshot)
      else if snapshot \<noteq> Some (epoch_id e) then (False, Some (epoch_id e))
      else (frame_type = 1 \<and> fe_connected e, snapshot))"

section \<open>Subscription batches\<close>

definition py_dedupe :: "'a list \<Rightarrow> 'a list" where
  "py_dedupe xs = rev (remdups (rev xs))"

function batches :: "nat \<Rightarrow> 'a list \<Rightarrow> 'a list list" where
  "batches n xs = (if xs = [] \<or> n = 0 then [] else take n xs # batches n (drop n xs))"
  by pat_completeness auto
termination
  by (relation "measure (\<lambda>(n, xs). length xs)") auto

declare batches.simps [simp del]

definition chunked :: "int \<Rightarrow> string list \<Rightarrow> string list list res" where
  "chunked n values =
     (if n \<le> 0 then Inl (ContractError ''subscription batch size must be positive'')
      else Inr (batches (nat n) (py_dedupe values)))"

record dhan_request =
  rq_code :: int
  rq_count :: int
  rq_securities :: "string list"

definition dhan_subscription :: "string list \<Rightarrow> dhan_request list res" where
  "dhan_subscription ids =
     bindR (chunked 100 ids) (\<lambda>bs. Inr (map (\<lambda>b. \<lparr>rq_code = 21, rq_count = int (length b), rq_securities = b\<rparr>) bs))"

section \<open>Packets are lossless\<close>

definition framed :: "bytes \<Rightarrow> bool" where
  "framed p = (8 \<le> length p \<and> field 1 2 p = int (length p) \<and> field 0 1 p \<noteq> 50)"

lemma field_append: "off + n \<le> length p \<Longrightarrow> field off n (p @ q) = field off n p"
  by (simp add: field_def)

lemma split_framed:
  assumes "framed p"
  shows "split_packets (p @ q) = (let (ps, e) = split_packets q in (p # ps, e))"
proof -
  from assms have "field 1 2 (p @ q) = int (length p)" "field 0 1 (p @ q) \<noteq> 50" "8 \<le> length p" "p \<noteq> []"
    by (auto simp: framed_def field_append)
  then show ?thesis by (subst split_packets.simps) (auto simp: Let_def split: prod.splits)
qed

lemma split_concat: "\<forall>p \<in> set ps. framed p \<Longrightarrow> split_packets (concat ps) = (ps, None)"
  by (induction ps) (auto simp: split_framed, simp add: split_packets.simps)

lemma split_sound:
  "split_packets payload = (ps, e) \<Longrightarrow> prefix (concat ps) payload \<and> (e = None \<longrightarrow> concat ps = payload) \<and> (\<forall>p \<in> set ps. framed p)"
proof (induction payload arbitrary: ps e rule: split_packets.induct)
  case (1 payload)
  let ?n = "nat (field 1 2 payload)"
  show ?case
  proof (cases "payload = [] \<or> length payload < 8 \<or> ?n < 8 \<or> length payload < ?n \<or> field 0 1 payload = 50")
    case True
    with 1(2) show ?thesis by (auto simp: split_packets.simps [of payload] Let_def split: if_splits)
  next
    case False
    obtain qs e' where q: "split_packets (drop ?n payload) = (qs, e')" by force
    with False 1(2) have ps: "ps = take ?n payload # qs" "e = e'"
      by (auto simp: split_packets.simps [of payload] Let_def)
    have ih: "prefix (concat qs) (drop ?n payload) \<and> (e' = None \<longrightarrow> concat qs = drop ?n payload) \<and> (\<forall>p \<in> set qs. framed p)"
      using False q by (intro 1(1) [OF refl]) auto
    have "field 1 2 (take ?n payload) = field 1 2 payload" "field 0 1 (take ?n payload) = field 0 1 payload"
      using False field_append [of 1 2 "take ?n payload" "drop ?n payload"] field_append [of 0 1 "take ?n payload" "drop ?n payload"]
      by simp_all
    moreover have "0 \<le> field 1 2 payload" using False by linarith
    ultimately have "framed (take ?n payload)" using False by (simp add: framed_def)
    moreover have "prefix (take ?n payload @ concat qs) payload"
      using ih by (metis append_take_drop_id same_prefix_prefix)
    ultimately show ?thesis using ih ps by (auto intro: append_take_drop_id)
  qed
qed

lemma startup_not_framed:
  assumes "startup_snapshot (concat ps)" "\<forall>p \<in> set ps. framed p"
  shows False
proof -
  from assms(1) have len: "length (concat ps) = 162" and d: "field 1 2 (concat ps) = 70"
    and z: "list_all (\<lambda>b. b = 0) (drop 62 (concat ps))" by (auto simp: startup_snapshot_def)
  from len obtain p qs where ps: "ps = p # qs" by (cases ps) auto
  with assms(2) have p: "framed p" by simp
  then have "field 1 2 (concat ps) = field 1 2 p" by (simp add: ps framed_def field_append)
  with p d have lp: "length p = 70" by (simp add: framed_def)
  with len ps have "length (concat qs) = 92" by simp
  then have "concat qs \<noteq> []" by (metis list.size(3) zero_neq_numeral)
  then obtain q rs where q: "concat qs = q @ rs" "framed q"
    using assms(2) ps by (cases qs) auto
  then have lq: "8 \<le> length q" and fq: "field 1 2 q = int (length q)" by (auto simp: framed_def)
  have "\<forall>b \<in> set (concat qs). b = 0" using z lp ps by (auto simp: list_all_iff dest!: in_set_dropD)
  then have "\<forall>b \<in> set q. b = 0" by (simp add: q)
  then have zz: "\<forall>b \<in> set (take 2 (drop 1 q)). b = 0" by (meson in_set_dropD in_set_takeD)
  have "le xs = 0" if "\<forall>b \<in> set xs. b = 0" for xs using that by (induction xs) auto
  then have "field 1 2 q = 0" using zz by (simp add: field_def)
  with fq lq show False by simp
qed

text \<open>
  C30: Packets. A message is cut at the declared lengths and nowhere else: concatenated packets with
  correct headers come back one by one; whatever the message, the packets yielded are its leading
  bytes, all of it when no exception ends the generator, and each of them declares its own length.
\<close>

theorem packets_roundtrip:
  "((\<forall>p \<in> set ps. framed p) \<longrightarrow> packets (concat ps) = (ps, None))
   \<and> (packets payload = (qs, e) \<longrightarrow> prefix (concat qs) payload \<and> (e = None \<longrightarrow> concat qs = payload)
        \<and> (\<forall>q \<in> set qs. framed q \<or> q = payload \<and> startup_snapshot payload))"
  using startup_not_framed [of ps] split_sound [of payload qs e]
  by (auto simp: packets_def split_concat split: if_splits)

theorem packets_roundtrip_witness:
  "packets ([8, 10, 0, 2, 1, 0, 0, 0, 7, 7] @ [21, 8, 0, 2, 1, 0, 0, 0])
   = ([[8, 10, 0, 2, 1, 0, 0, 0, 7, 7], [21, 8, 0, 2, 1, 0, 0, 0]], None)"
proof -
  let ?ps = "[[8, 10, 0, 2, 1, 0, 0, 0, 7, 7], [21, 8, 0, 2, 1, 0, 0, 0]] :: bytes list"
  have "\<forall>p \<in> set ?ps. framed p" by (simp add: framed_def field_def)
  then show ?thesis using packets_roundtrip [of ?ps] by simp
qed

section \<open>Prices survive the wire\<close>

lemma ctx28_error: "\<bar>ctx28 z - z\<bar> \<le> \<bar>z\<bar> / (2 * 10 ^ 27)"
proof (cases "0 \<le> z")
  case True then show ?thesis using fround_error [of 10 28 z] by (simp add: ctx28_def)
next
  case False
  then have "\<bar>ctx28 (- z) - (- z)\<bar> \<le> - z / (2 * 10 ^ 27)" using fround_error [of 10 28 "- z"] by (simp add: ctx28_def)
  then show ?thesis using False by (simp add: ctx28_def fround_minus)
qed

lemma repr_decimal_error:
  assumes "0 \<le> x"
  shows "0 \<le> repr_decimal x \<and> \<bar>repr_decimal x - x\<bar> \<le> x / 2 ^ 52"
proof (cases "find (\<lambda>p. dbl (fround 10 p x) = x) [1..<17]")
  case None
  then have "repr_decimal x = fround 10 17 x" by (simp add: repr_decimal_def)
  moreover have "x / (2 * 10 ^ 16) \<le> x / 2 ^ 52" using assms by (simp add: divide_left_mono)
  ultimately show ?thesis using fround_error [of 10 17 x] assms by (auto simp: fround_nonneg)
next
  case (Some p)
  let ?v = "fround 10 p x"
  from Some have v: "repr_decimal x = ?v" "dbl ?v = x" using find_SomeD [OF Some] by (simp_all add: repr_decimal_def)
  have n: "0 \<le> ?v" using assms by (simp add: fround_nonneg)
  have "\<bar>x - ?v\<bar> \<le> ?v / 2 ^ 53" using fround_error [of 2 53 ?v] n v(2) by (simp add: dbl_def)
  from abs_le_D1 [OF this] abs_le_D2 [OF this] n have "?v - x \<le> x / 2 ^ 52" "x - ?v \<le> x / 2 ^ 52" by simp_all
  then have "\<bar>?v - x\<bar> \<le> x / 2 ^ 52" by (intro abs_leI) simp_all
  with n v show ?thesis by simp
qed

lemma round_half_even_near:
  assumes "\<bar>y - of_int k\<bar> < 1 / 2"
  shows "round_half_even y = k"
proof -
  have "\<bar>of_int (round_half_even y) - (of_int k :: rat)\<bar> < 1" using assms round_half_even_error [of y] by linarith
  then have "\<bar>of_int (round_half_even y - k) :: rat\<bar> < of_int 1" by simp
  then have "\<bar>round_half_even y - k\<bar> < 1" by (metis of_int_abs of_int_less_iff)
  then show ?thesis by simp
qed

text \<open>
  C31: Prices. Every price on the grid of 0.05 up to 100000 survives the wire: the nearest 32-bit float is
  decoded back to exactly that price, through the shortest decimal of the double, the 28-digit quotient and
  the tolerance test.
\<close>

theorem wire_price_roundtrip:
  assumes "0 < k" "k \<le> 2000000"
  shows "depth_price (1 / 20) (Finite32 (fround 2 24 (of_int k / 20))) = Inr (of_int k / 20)"
proof -
  define p x v where "p = (of_int k / 20 :: rat)" and "x = fround 2 24 p" and "v = repr_decimal x"
  have p: "0 < p" "p \<le> 100000" using assms by (simp_all add: p_def)
  have x: "\<bar>x - p\<bar> \<le> p / 2 ^ 24" using fround_error [of 2 24 p] p by (simp add: x_def)
  note xs = abs_le_D1 [OF x] abs_le_D2 [OF x]
  then have x0: "0 < x" using p by simp
  then have v: "0 \<le> v" "\<bar>v - x\<bar> \<le> x / 2 ^ 52" using repr_decimal_error [of x] by (simp_all add: v_def)
  note vs = abs_le_D1 [OF v(2)] abs_le_D2 [OF v(2)]
  have vp: "v - p \<le> p / 16000000" "p - v \<le> p / 16000000" using xs vs p by simp_all
  define y where "y = ddiv v (1 / 20)"
  have y: "\<bar>y - 20 * v\<bar> \<le> 20 * v / (2 * 10 ^ 27)" using ctx28_error [of "v * 20"] v(1) by (simp add: y_def ddiv_def mult.commute)
  have kp: "of_int k = 20 * p" by (simp add: p_def)
  have "y - of_int k < 1 / 2" "of_int k - y < 1 / 2"
    using abs_le_D1 [OF y] abs_le_D2 [OF y] vp p kp by simp_all
  then have "\<bar>y - of_int k\<bar> < 1 / 2" by (simp add: abs_if)
  then have k: "round_half_even y = k" by (rule round_half_even_near)
  have "ctx28 (of_int (5 * k) * pow_int 10 (- 2)) = of_int (5 * k) * pow_int 10 (- 2)" using assms by (intro ctx28_exact) simp
  then have r: "dmul (of_int k) (1 / 20) = p" by (simp add: dmul_def pow_int_def p_def)
  have c: "\<bar>dsub p v - (p - v)\<bar> \<le> \<bar>p - v\<bar> / (2 * 10 ^ 27)" using ctx28_error [of "p - v"] by (simp add: dsub_def)
  have "\<bar>p - v\<bar> \<le> p / 16000000" using vp by (intro abs_leI) simp_all
  then have d: "dsub p v \<le> p / 8000000" "- dsub p v \<le> p / 8000000"
    using abs_le_D1 [OF c] abs_le_D2 [OF c] vp by simp_all
  have m: "\<bar>dmul v (2 / 10000000) - v * (2 / 10000000)\<bar> \<le> v * (2 / 10000000) / (2 * 10 ^ 27)"
    using ctx28_error [of "v * (2 / 10000000)"] v(1) by (simp add: dmul_def)
  have "p / 8000000 \<le> dmul v (2 / 10000000)" using abs_le_D2 [OF m] vp p by simp
  then have "\<bar>dsub p v\<bar> \<le> dmul v (2 / 10000000)" using d by (intro abs_leI) simp_all
  then have "\<not> max (1 / 1000000) (dmul \<bar>v\<bar> (2 / 10000000)) < \<bar>dsub p v\<bar>" using v(1) by (simp add: max_def)
  then show ?thesis
    using x0 k r by (simp add: depth_price_def Let_def flip: p_def x_def v_def y_def)
qed


theorem wire_price_roundtrip_witness:
  "depth_price (1 / 20) (Finite32 (fround 2 24 (2001 / 20))) = Inr (2001 / 20)"
  using wire_price_roundtrip [of 2001] by simp

section \<open>What an accepted packet says\<close>

lemma le_bounds: "0 \<le> le bs \<and> le bs < 256 ^ length bs"
proof (induction bs)
  case (Cons b bs)
  have "0 \<le> uint b" "uint b < 256" using unsigned_less [of b, where 'a = int] by simp_all
  with Cons show ?case by simp
qed simp

lemma field_bounds: "0 \<le> field off n p" "field off n p < 256 ^ n"
proof -
  note b = le_bounds [of "take n (drop off p)"]
  have "(256::int) ^ length (take n (drop off p)) \<le> 256 ^ n" by (intro power_increasing) simp_all
  with b show "field off n p < 256 ^ n" "0 \<le> field off n p" unfolding field_def by linarith+
qed

definition sound_level :: "decimal \<Rightarrow> level \<Rightarrow> bool" where
  "sound_level tk l = (0 < lv_price l \<and> 0 < lv_qty l \<and> lv_qty l < 2 ^ 32 \<and> (\<exists>k. lv_price l = dmul (of_int k) tk))"

lemma depth_side_sound:
  assumes "depth_side tk p a b = Inr ls"
  shows "length ls \<le> 1 \<and> (\<forall>l \<in> set ls. sound_level tk l)"
  using assms field_bounds [of a 4 p]
  by (auto simp: depth_side_def depth_price_def sound_level_def check_level_def bindR_Inr_iff Let_def not_less split: if_splits float32.splits)

lemma depth_rows_sound:
  assumes "foldR (depth_row tk p) offs sides = Inr (bs, as)"
    and "\<forall>l \<in> set (fst sides) \<union> set (snd sides). sound_level tk l"
  shows "length bs \<le> length (fst sides) + length offs \<and> length as \<le> length (snd sides) + length offs
    \<and> (\<forall>l \<in> set bs \<union> set as. sound_level tk l)"
  using assms
proof (induction offs arbitrary: sides)
  case (Cons off offs)
  then obtain mid where m: "depth_row tk p off sides = Inr mid" and r: "foldR (depth_row tk p) offs mid = Inr (bs, as)"
    by (auto simp: bindR_Inr_iff)
  from m obtain bid ask where b: "depth_side tk p off (off + 12) = Inr bid" and a: "depth_side tk p (off + 4) (off + 16) = Inr ask"
    and mid: "mid = (fst sides @ bid, snd sides @ ask)"
    by (auto simp: depth_row_def bindR_Inr_iff)
  note f = r [unfolded mid]
  note sb = depth_side_sound [OF b] and sa = depth_side_sound [OF a]
  from Cons.prems(2) sa sb have "\<forall>l \<in> set (fst sides @ bid) \<union> set (snd sides @ ask). sound_level tk l" by auto
  with Cons.IH [OF f] sa sb show ?case by simp
qed auto

text \<open>
  C32: The FULL packet. An accepted frame has the declared length and names the expected contract; both sides
  have at most five levels, each with a positive price on the tick grid and a positive 32-bit quantity, and
  every such packet makes a valid book.
\<close>

theorem full_packet_sound:
  assumes "decode_full_binary payload i = Inr pk"
  shows "length payload = 162 \<and> field 1 2 payload = 162 \<and> field 4 4 payload = digits_val (security_id i)
    \<and> length (pk_bids pk) \<le> 5 \<and> length (pk_asks pk) \<le> 5 \<and> (\<forall>l \<in> set (pk_bids pk) \<union> set (pk_asks pk). sound_level (tick_size i) l)
    \<and> (\<forall>epoch received. epoch \<noteq> [] \<longrightarrow> 0 < received \<longrightarrow> ok (book_from_packet pk i epoch received))"
proof -
  from assms have
    rows: "foldR (depth_row (tick_size i) payload) DEPTH_OFFSETS ([], []) = Inr (pk_bids pk, pk_asks pk)"
    and pk: "pk_security pk = security_id i" "pk_segment pk = seg i" "length payload = 162" "field 1 2 payload = 162"
      "field 4 4 payload = digits_val (security_id i)"
    by (auto simp: decode_full_binary_def decode_full_def bindR_Inr_iff split: if_splits float32.splits)
  from depth_rows_sound [OF rows] have "length (pk_bids pk) \<le> 5 \<and> length (pk_asks pk) \<le> 5
      \<and> (\<forall>l \<in> set (pk_bids pk) \<union> set (pk_asks pk). sound_level (tick_size i) l)"
    by (simp add: DEPTH_OFFSETS_def)
  with pk show ?thesis by (auto simp: book_from_packet_def check_book_def)
qed

definition demo_full :: bytes where
  "demo_full = [8, 162, 0, 2, 1, 0, 0, 0] @ replicate 54 0 @ [75, 0, 0, 0, 0, 0, 0, 0, 1, 0, 0, 0, 0, 0, 200, 66, 0, 0, 0, 0]
     @ replicate 80 0"

theorem full_packet_sound_witness:
  "\<exists>pk. decode_full_binary demo_full demo_instrument = Inr pk \<and> length (pk_bids pk) \<le> 5"
proof -
  have "ok (decode_full_binary demo_full demo_instrument)" by code_simp
  then obtain pk where "decode_full_binary demo_full demo_instrument = Inr pk"
    by (cases "decode_full_binary demo_full demo_instrument") auto
  with full_packet_sound [OF this] show ?thesis by blast
qed

section \<open>Batches and epochs\<close>

lemma batches_Nil [simp]: "batches n [] = []"
  by (subst batches.simps) simp

lemma batches_sound:
  "0 < n \<Longrightarrow> concat (batches n xs) = xs \<and> (\<forall>b \<in> set (batches n xs). b \<noteq> [] \<and> length b \<le> n)
     \<and> (\<forall>b \<in> set (butlast (batches n xs)). length b = n)"
proof (induction n xs rule: batches.induct)
  case (1 n xs)
  show ?case
  proof (cases "xs = []")
    case False
    have "\<not> (xs = [] \<or> n = 0)" using False 1(2) by simp
    from 1(1) [OF this 1(2)] have ih: "concat (batches n (drop n xs)) = drop n xs" "\<forall>b \<in> set (batches n (drop n xs)). b \<noteq> [] \<and> length b \<le> n"
      "\<forall>b \<in> set (butlast (batches n (drop n xs))). length b = n" by blast+
    have e: "batches n xs = take n xs # batches n (drop n xs)" using False 1(2) by (simp add: batches.simps [of n xs])
    have full: "length (take n xs) = n" if "batches n (drop n xs) \<noteq> []"
      using that by (cases "n \<le> length xs") simp_all
    have "concat (batches n xs) = xs" by (simp only: e concat.simps ih(1) append_take_drop_id)
    moreover have "\<forall>b \<in> set (batches n xs). b \<noteq> [] \<and> length b \<le> n"
      using ih(2) False 1(2) by (simp add: e)
    moreover have "\<forall>b \<in> set (butlast (batches n xs)). length b = n"
      using ih(3) full by (cases "batches n (drop n xs) = []") (simp_all add: e del: length_take)
    ultimately show ?thesis by blast
  qed simp
qed

lemma py_dedupe_props: "set (py_dedupe xs) = set xs" "distinct (py_dedupe xs)"
  by (simp_all add: py_dedupe_def)

text \<open>
  Subscriptions. The batches partition the requested identifiers in order, each identifier once; all of
  them but the last are full.
\<close>

theorem chunked_partition:
  assumes "chunked n values = Inr bs"
  shows "concat bs = py_dedupe values \<and> distinct (concat bs) \<and> set (concat bs) = set values
    \<and> (\<forall>b \<in> set bs. b \<noteq> [] \<and> int (length b) \<le> n) \<and> (\<forall>b \<in> set (butlast bs). int (length b) = n)"
proof -
  from assms have n: "0 < n" and bs: "bs = batches (nat n) (py_dedupe values)" by (auto simp: chunked_def split: if_splits)
  from batches_sound [of "nat n" "py_dedupe values"] n have b: "concat bs = py_dedupe values"
    "\<forall>b \<in> set bs. b \<noteq> [] \<and> length b \<le> nat n" "\<forall>b \<in> set (butlast bs). length b = nat n" by (simp_all add: bs)
  with n show ?thesis by (auto simp: py_dedupe_props zle_int [symmetric])
qed

theorem chunked_partition_witness:
  "chunked 2 [''11'', ''12'', ''11'', ''13''] = Inr [[''11'', ''12''], [''13'']] \<and> distinct (concat [[''11'', ''12''], [''13'']])"
proof -
  have "chunked 2 [''11'', ''12'', ''11'', ''13''] = Inr [[''11'', ''12''], [''13'']]"
    by (simp add: chunked_def py_dedupe_def batches.simps)
  from conjunct1 [OF conjunct2 [OF chunked_partition [OF this]]] this show ?thesis by blast
qed

text \<open>The identities of a sequence of messages that an epoch accepts.\<close>

fun accepted :: "string list \<Rightarrow> feed_epoch \<Rightarrow> string list" where
  "accepted [] e = []"
| "accepted (x # xs) e = (let (yes, e') = epoch_accept x e in (if yes then [x] else []) @ accepted xs e')"

lemma py_dedupe_Cons: "py_dedupe (x # xs) = x # filter (\<lambda>y. y \<noteq> x) (py_dedupe xs)"
proof -
  have "remdups (ys @ [x]) = filter (\<lambda>y. y \<noteq> x) (remdups ys) @ [x]" for ys :: "'a list" by (induction ys) auto
  then show ?thesis by (simp add: py_dedupe_def rev_filter)
qed

lemma accepted_seen:
  "fe_connected e \<Longrightarrow> accepted xs e = filter (\<lambda>x. x \<noteq> [] \<and> x \<notin> set (fe_seen e)) (py_dedupe xs)"
proof (induction xs arbitrary: e)
  case (Cons x xs)
  then show ?case by (auto simp: epoch_accept_def py_dedupe_Cons intro!: filter_cong)
qed (simp add: py_dedupe_def)

text \<open>
  Epochs. Between a connection and the next, a feed accepts exactly the first occurrence of every
  non-empty identity, and nothing while disconnected.
\<close>

theorem epoch_accepts_once:
  "accepted messages (epoch_reconnect e) = filter (\<lambda>x. x \<noteq> []) (py_dedupe messages)
   \<and> accepted messages (epoch_disconnect e) = []"
proof -
  have "accepted xs s = []" if "\<not> fe_connected s" for xs s using that by (induction xs) (auto simp: epoch_accept_def)
  then show ?thesis using accepted_seen [of "epoch_reconnect e"] by (simp add: epoch_reconnect_def epoch_disconnect_def)
qed

end
