(* ===== verification/Arbiter.thy ===== *)
theory Arbiter
  imports Ledger Expanded "HOL-Library.List_Lexorder" "HOL-Library.Char_ord"
begin

text \<open>
  The arbiter of \<open>dhan_cas_bot/strategy_arbiter.py\<close>: what the closed live executions say of
  each strategy, the cash utility of an executable candidate, the choice between
  candidates and the order in which signals are tried.

  The two columns the ledger model leaves out are arguments: when the charges of an order
  were observed, and the entry decision recorded for an intent (when it was received and,
  if its payload can be read, the best bid and the limit it was taken at). The figures
  that are only displayed (sessions, standard error, counts of opportunities) are left out.
\<close>

record columns =
  charge_seen :: "string \<Rightarrow> instant"
  decision_of :: "string \<Rightarrow> (instant \<times> (decimal \<times> decimal) option) option"

text \<open>\<open>sum(xs, D(0))\<close> and the mean of quotients, rounded by the context at every step.\<close>

definition dsum :: "decimal list \<Rightarrow> decimal" where
  "dsum xs = foldl dadd 0 xs"

definition dmean :: "decimal list \<Rightarrow> decimal" where
  "dmean xs = ddiv (dsum xs) (of_nat (length xs))"

definition minutes_between :: "instant \<Rightarrow> instant \<Rightarrow> decimal" where
  "minutes_between a b = ddiv (of_int (b - a) / 1000000) 60"

definition second_minute :: decimal where
  "second_minute = ddiv 1 60"

section \<open>One closed lifecycle\<close>

record outcome =
  oc_net :: decimal
  oc_gross :: decimal
  oc_minutes :: decimal
  oc_buys :: int
  oc_sells :: int
  oc_friction :: "decimal option"
  oc_cost :: decimal
  oc_dispatch :: decimal

definition closed_rows :: "ledger \<Rightarrow> lifecycle_row list" where
  "closed_rows l = take 256 (rev (filter (\<lambda>c. lc_state c = ''CLOSED'') (lg_lifecycles l)))"

definition sent_entries :: "ledger \<Rightarrow> string \<Rightarrow> intent_row list" where
  "sent_entries l lifecycle = filter (\<lambda>i. ir_lifecycle i = lifecycle \<and> ir_side i = BUY
      \<and> ir_state i \<in> {''FILLED'', ''CANCELLED'', ''REJECTED'', ''EXPIRED''}
      \<and> list_ex (\<lambda>a. at_intent a = ir_id i) (lg_attempts l)) (lg_intents l)"

definition dispatch_stamps :: "ledger \<Rightarrow> string \<Rightarrow> instant list" where
  "dispatch_stamps l lifecycle = map at_sent (filter (\<lambda>a.
      list_ex (\<lambda>i. ir_id i = at_intent a \<and> ir_lifecycle i = lifecycle) (lg_intents l)) (lg_attempts l))"

definition fills_on :: "side \<Rightarrow> ledger \<Rightarrow> string \<Rightarrow> fill_row list" where
  "fills_on sd l lifecycle = filter (\<lambda>f.
      list_ex (\<lambda>i. ir_id i = fr_intent f \<and> ir_lifecycle i = lifecycle \<and> ir_side i = sd) (lg_intents l)) (lg_fills l)"

text \<open>The orders of one side that were filled, each charged once.\<close>

definition filled_orders :: "fill_row list \<Rightarrow> (string \<times> string) list" where
  "filled_orders fs = remdups (map (\<lambda>f. (fr_order f, fr_intent f)) fs)"

definition order_charge :: "columns \<Rightarrow> ledger \<Rightarrow> instant \<Rightarrow> side \<Rightarrow> fill_row list \<Rightarrow> string \<times> string \<Rightarrow> decimal res" where
  "order_charge col l now sd fs key =
     (let group = filter (\<lambda>f. (fr_order f, fr_intent f) = key) fs;
          reported = sum_by fr_fees group;
          reported = (case find (\<lambda>c. (ch_order c, ch_intent c) = key) (lg_charges l) of
              None \<Rightarrow> reported
            | Some c \<Rightarrow> if charge_seen col (ch_order c) \<le> now then max reported (ch_fees c) else reported)
      in bindR ((if sd = BUY then fee_buy else fee_sell) default_fees (turnover_of group) 1) (\<lambda>modeled.
           Inr (max reported (ceil_paise modeled))))"

definition paid_on :: "columns \<Rightarrow> ledger \<Rightarrow> instant \<Rightarrow> side \<Rightarrow> fill_row list \<Rightarrow> decimal res" where
  "paid_on col l now sd fs = bindR (mapR (order_charge col l now sd fs) (filled_orders fs)) (\<lambda>xs. Inr (sum_list xs))"

definition entry_frictions :: "columns \<Rightarrow> instant \<Rightarrow> fill_row list \<Rightarrow> intent_row list \<Rightarrow> decimal list" where
  "entry_frictions col now buys entries = List.map_filter (\<lambda>i.
     if \<not> list_ex (\<lambda>f. fr_intent f = ir_id i) buys then None
     else case decision_of col (ir_id i) of
        Some (received, Some (bid, limit)) \<Rightarrow>
          if received \<le> now \<and> 0 < limit \<and> 0 < bid \<and> bid \<le> limit then Some (ddiv (limit - bid) limit) else None
      | _ \<Rightarrow> None) entries"

text \<open>Whether a closed lifecycle is reconciled and wholly in the past.\<close>

definition settled_by :: "ledger \<Rightarrow> instant \<Rightarrow> string \<Rightarrow> totals \<Rightarrow> bool" where
  "settled_by l now lifecycle t = (\<not> unresolved t \<and> held t = 0
     \<and> list_all (\<lambda>x. x \<le> now) (dispatch_stamps l lifecycle)
     \<and> list_all (\<lambda>f. fr_occurred f \<le> now) (fills_on BUY l lifecycle @ fills_on SELL l lifecycle))"

text \<open>The fill fraction of the entries a lifecycle sent, when it sent any.\<close>

definition entry_fraction :: "ledger \<Rightarrow> string \<Rightarrow> decimal option" where
  "entry_fraction l lifecycle =
     (let entries = sent_entries l lifecycle;
          quantity = sum_by (\<lambda>i. filled_quantity (ir_id i) l) entries; requested = sum_by ir_quantity entries
      in if entries \<noteq> [] \<and> 0 \<le> quantity \<and> quantity \<le> requested \<and> 0 < requested
         then Some (ddiv (of_int quantity) (of_int requested)) else None)"

definition outcome_of :: "columns \<Rightarrow> ledger \<Rightarrow> instant \<Rightarrow> string \<Rightarrow> totals \<Rightarrow> outcome option res" where
  "outcome_of col l now lifecycle t =
     (let buys = fills_on BUY l lifecycle; sells = fills_on SELL l lifecycle;
          cost = turnover_of buys; proceeds = turnover_of sells;
          stamps = dispatch_stamps l lifecycle
      in if entry_debit_total t \<le> 0 \<or> buys = [] \<or> sells = [] \<or> cost \<le> 0 then Inr None
         else bindR (paid_on col l now BUY buys) (\<lambda>paid_buy.
              bindR (paid_on col l now SELL sells) (\<lambda>paid_sell.
                let last = Max (fr_occurred ` set (buys @ sells)); first = Min (fr_occurred ` set buys);
                    started = (if stamps = [] then first else Min (set stamps));
                    frictions = entry_frictions col now buys (sent_entries l lifecycle);
                    minutes = max second_minute (minutes_between first last)
                in Inr (Some \<lparr>oc_net = ddiv (proceeds - paid_sell - cost - paid_buy) (cost + paid_buy),
                      oc_gross = ddiv (proceeds - cost) cost, oc_minutes = minutes,
                      oc_buys = int (length (filled_orders buys)), oc_sells = int (length (filled_orders sells)),
                      oc_friction = (if frictions = [] then None else Some (dmean frictions)),
                      oc_cost = ddiv (paid_buy + paid_sell) cost, oc_dispatch = max minutes (minutes_between started last)\<rparr>))))"

section \<open>What the executions say of a strategy\<close>

text \<open>The receipts of a strategy: fill fractions and outcomes, the thirty most recent of each.\<close>

type_synonym receipts = "(string \<times> decimal list) list \<times> (string \<times> outcome list) list"

definition owned :: "string \<Rightarrow> (string \<times> 'a list) list \<Rightarrow> 'a list" where
  "owned k m = (case map_of m k of None \<Rightarrow> [] | Some xs \<Rightarrow> xs)"

definition add_receipt :: "string \<Rightarrow> 'a option \<Rightarrow> (string \<times> 'a list) list \<Rightarrow> (string \<times> 'a list) list" where
  "add_receipt k x m = (case x of None \<Rightarrow> m
     | Some y \<Rightarrow> if length (owned k m) < 30 then AList.update k (owned k m @ [y]) m else m)"

definition collect_receipt :: "columns \<Rightarrow> ledger \<Rightarrow> instant \<Rightarrow> lifecycle_row \<Rightarrow> receipts \<Rightarrow> receipts res" where
  "collect_receipt col l now c acc =
     bindR (lifecycle_totals (lc_id c) l) (\<lambda>t.
       if \<not> settled_by l now (lc_id c) t then Inr acc
       else bindR (outcome_of col l now (lc_id c) t) (\<lambda>x.
              Inr (add_receipt (lc_strategy c) (entry_fraction l (lc_id c)) (fst acc), add_receipt (lc_strategy c) x (snd acc))))"

definition receipts_of :: "columns \<Rightarrow> ledger \<Rightarrow> instant \<Rightarrow> receipts res" where
  "receipts_of col l now = foldR (collect_receipt col l now) (closed_rows l) ([], [])"

record history =
  hi_filled_closed :: int
  hi_available :: bool
  hi_net :: "decimal option"
  hi_gross :: "decimal option"
  hi_minutes :: "decimal option"
  hi_dispatch :: "decimal option"
  hi_buys :: "decimal option"
  hi_sells :: "decimal option"
  hi_friction :: "decimal option"
  hi_cost :: "decimal option"
  hi_fraction :: "decimal option"

definition no_history :: history where
  "no_history = \<lparr>hi_filled_closed = 0, hi_available = False, hi_net = None, hi_gross = None, hi_minutes = None,
     hi_dispatch = None, hi_buys = None, hi_sells = None, hi_friction = None, hi_cost = None, hi_fraction = None\<rparr>"

definition measured_history :: "outcome list \<Rightarrow> history" where
  "measured_history rows = (if rows = [] then no_history
     else \<lparr>hi_filled_closed = int (length rows), hi_available = (3 \<le> length rows),
       hi_net = Some (dmean (map oc_net rows)), hi_gross = Some (dmean (map oc_gross rows)),
       hi_minutes = Some (dmean (map oc_minutes rows)), hi_dispatch = Some (dmean (map oc_dispatch rows)),
       hi_buys = Some (dmean (map (\<lambda>r. of_int (oc_buys r)) rows)), hi_sells = Some (dmean (map (\<lambda>r. of_int (oc_sells r)) rows)),
       hi_friction = (if list_all (\<lambda>r. oc_friction r \<noteq> None) rows then Some (dmean (List.map_filter oc_friction rows)) else None),
       hi_cost = Some (dmean (map oc_cost rows)), hi_fraction = None\<rparr>)"

type_synonym ranking = "(string \<times> history) list"

definition scores :: "columns \<Rightarrow> ledger \<Rightarrow> instant \<Rightarrow> ranking res" where
  "scores col l now =
     bindR (receipts_of col l now) (\<lambda>(fractions, outcomes).
       Inr (map (\<lambda>k. (k, (measured_history (owned k outcomes))\<lparr>hi_fraction :=
                  (if owned k fractions = [] then None else Some (dmean (owned k fractions)))\<rparr>))
              (remdups (map fst outcomes @ map fst fractions))))"

definition history_of :: "ranking \<Rightarrow> string \<Rightarrow> history" where
  "history_of ranking strategy = (case map_of ranking strategy of None \<Rightarrow> no_history | Some h \<Rightarrow> h)"

section \<open>The utility of a candidate\<close>

record score_row =
  sr_strategy :: string
  sr_side :: "option_type option"
  sr_security :: string
  sr_quantity :: int
  sr_limit :: decimal
  sr_friction :: decimal
  sr_expected :: "decimal option"
  sr_rate :: "decimal option"
  sr_holding :: decimal
  sr_fraction :: decimal

type_synonym candidate = "instrument \<times> int \<times> decimal \<times> option_book"

text \<open>Expected cash and its rate, for a strategy with measured outcomes.\<close>

definition measured_rate :: "history \<Rightarrow> instrument \<Rightarrow> int \<Rightarrow> decimal \<Rightarrow> decimal \<Rightarrow> decimal \<Rightarrow> decimal
    \<Rightarrow> (decimal \<times> decimal option) res" where
  "measured_rate h i quantity exposure friction gross duration =
     (let minimum = (quantity + freeze_qty i - 1) div freeze_qty i;
          (buy_children, sell_children, incremental) = (case (hi_buys h, hi_sells h) of
              (Some b, Some s) \<Rightarrow> (max minimum \<lceil>b\<rceil>, max minimum \<lceil>s\<rceil>,
                 (case hi_friction h of None \<Rightarrow> friction | Some base \<Rightarrow> max 0 (dsub friction (dmul exposure base))))
            | _ \<Rightarrow> (1, 3, friction));
          sale = dmul exposure (max 0 (dadd 1 gross));
          comparison = (case hi_dispatch h of None \<Rightarrow> duration | Some d \<Rightarrow> d);
          span = max (max second_minute duration) comparison
      in bindR (fee_buy default_fees exposure buy_children) (\<lambda>buy.
         bindR (fee_sell default_fees sale sell_children) (\<lambda>sell.
           let costs = (case hi_cost h of None \<Rightarrow> buy + sell | Some c \<Rightarrow> max (buy + sell) (dmul exposure c));
               expected = dsub (dsub (dmul exposure gross) costs) incremental
           in Inr (expected, (case hi_fraction h of
                Some f \<Rightarrow> if 0 \<le> f \<and> f \<le> 1 then Some (ddiv (dmul expected f) span)
                          else if expected \<le> 0 then Some (ddiv expected span) else None
              | None \<Rightarrow> if expected \<le> 0 then Some (ddiv expected span) else None)))))"

definition execution_score :: "evaluation \<Rightarrow> candidate \<Rightarrow> ranking \<Rightarrow> instant \<Rightarrow> score_row res" where
  "execution_score signal cand ranking now =
     (case cand of (i, quantity, limit, book) \<Rightarrow>
        case (top_bid book, ev_exit_at signal) of
          (Some bid, Some exit_at) \<Rightarrow>
            let exposure = of_int quantity * limit;
                friction = of_int quantity * max 0 (limit - lv_price bid);
                h = history_of ranking (ev_strategy signal)
            in if exposure = 0 then Inl InvalidOperation
               else bindR (case (hi_available h, hi_gross h, hi_minutes h) of
                     (True, Some gross, Some duration) \<Rightarrow>
                       bindR (measured_rate h i quantity exposure friction gross duration) (\<lambda>(e, r). Inr (Some e, r))
                   | _ \<Rightarrow> Inr (None, None)) (\<lambda>(expected, rate).
                 Inr \<lparr>sr_strategy = ev_strategy signal, sr_side = ev_side signal, sr_security = security_id i, sr_quantity = quantity,
                   sr_limit = limit, sr_friction = friction, sr_expected = expected, sr_rate = rate,
                   sr_holding = (case hi_minutes h of Some d \<Rightarrow> d | None \<Rightarrow> max second_minute (minutes_between now exit_at)),
                   sr_fraction = ddiv friction exposure\<rparr>)
        | _ \<Rightarrow> Inl TypeError)"

section \<open>The choice\<close>

definition rate_known :: "score_row \<Rightarrow> bool" where
  "rate_known r = (sr_rate r \<noteq> None)"

definition rate_value :: "score_row \<Rightarrow> decimal" where
  "rate_value r = (case sr_rate r of None \<Rightarrow> 0 | Some x \<Rightarrow> x)"

definition select_executable :: "score_row list \<Rightarrow> score_row option \<times> string \<times> string" where
  "select_executable rows =
     (let positive = filter (\<lambda>r. rate_known r \<and> 0 < rate_value r) rows;
          unknown = filter (\<lambda>r. \<not> rate_known r) rows
      in if positive \<noteq> []
         then (py_max_by (\<lambda>r. (rate_value r, - sr_fraction r)) positive, ''MEASURED_CASH_PER_MINUTE'', ''SELECTED'')
         else if 1 < card (set (map sr_side unknown))
         then (None, ''EXPERIMENTAL_EXECUTION_QUALITY'', ''CONFLICTING_UNRANKED_SIGNALS'')
         else if unknown \<noteq> []
         then (py_min_by (\<lambda>r. (sr_fraction r, sr_holding r)) unknown, ''EXPERIMENTAL_EXECUTION_QUALITY'', ''SELECTED'')
         else (None, ''MEASURED_CASH_PER_MINUTE'', ''NO_POSITIVE_ESTIMATED_EDGE''))"

definition signal_key_order :: "ranking \<Rightarrow> evaluation \<Rightarrow> int \<times> decimal \<times> instant \<times> string" where
  "signal_key_order ranking x =
     (let h = history_of ranking (ev_strategy x);
          value = (case (hi_available h, hi_net h) of (True, Some v) \<Rightarrow> v | _ \<Rightarrow> 0);
          priority = (if hi_available h \<and> 0 < value then 2 else if hi_available h then 0 else 1)
      in (- priority, - value, ev_at x, ev_strategy x))"

definition rank_signals :: "evaluation list \<Rightarrow> ranking \<Rightarrow> evaluation list" where
  "rank_signals xs ranking = sort_key (signal_key_order ranking) xs"

section \<open>Properties\<close>

lemma card_one_same: "finite A \<Longrightarrow> card A \<le> 1 \<Longrightarrow> a \<in> A \<Longrightarrow> b \<in> A \<Longrightarrow> a = b"
  using card_le_Suc0_iff_eq [of A] by simp

text \<open>
  C35: The arbiter's choice. A chosen candidate is one of the rows. When its rate is known it is positive
  and no known rate is larger; when it is unknown no row has a positive rate, all unmeasured rows are on
  its side and none has a smaller friction. Nothing is chosen exactly when no row has a positive rate and
  the unmeasured rows are missing or disagree on the side.
\<close>

theorem select_executable_sound:
  assumes "select_executable rows = (chosen, mode, reason)"
  shows "(case chosen of
      Some r \<Rightarrow> r \<in> set rows
        \<and> (case sr_rate r of
             Some x \<Rightarrow> 0 < x \<and> (\<forall>q \<in> set rows. \<forall>y. sr_rate q = Some y \<longrightarrow> y \<le> x)
           | None \<Rightarrow> (\<forall>q \<in> set rows. \<forall>y. sr_rate q = Some y \<longrightarrow> y \<le> 0)
               \<and> (\<forall>q \<in> set rows. sr_rate q = None \<longrightarrow> sr_side q = sr_side r \<and> sr_fraction r \<le> sr_fraction q))
    | None \<Rightarrow> (\<forall>q \<in> set rows. \<forall>y. sr_rate q = Some y \<longrightarrow> y \<le> 0)
        \<and> ((\<forall>q \<in> set rows. sr_rate q \<noteq> None)
           \<or> (\<exists>q \<in> set rows. \<exists>q' \<in> set rows. sr_rate q = None \<and> sr_rate q' = None \<and> sr_side q \<noteq> sr_side q')))"
proof -
  let ?pos = "filter (\<lambda>r. rate_known r \<and> 0 < rate_value r) rows" and ?unk = "filter (\<lambda>r. \<not> rate_known r) rows"
  have none: "\<forall>q \<in> set rows. \<forall>y. sr_rate q = Some y \<longrightarrow> y \<le> 0" if "?pos = []"
    using that by (auto simp: filter_empty_conv rate_known_def rate_value_def not_less)
  consider (pos) "?pos \<noteq> []" | (conflict) "?pos = []" "1 < card (set (map sr_side ?unk))"
    | (unk) "?pos = []" "\<not> 1 < card (set (map sr_side ?unk))" "?unk \<noteq> []" | (no) "?pos = []" "?unk = []" by (cases "?unk = []") auto
  then show ?thesis
  proof cases
    case pos
    with assms have c: "chosen = py_max_by (\<lambda>r. (rate_value r, - sr_fraction r)) ?pos" by (simp add: select_executable_def)
    from pos obtain r where m: "py_max_by (\<lambda>r. (rate_value r, - sr_fraction r)) ?pos = Some r"
      using py_max_by_None by (metis not_None_eq)
    with c have r: "chosen = Some r" by simp
    have "r \<in> set ?pos" using py_max_by_in [OF m] .
    moreover have "rate_value q \<le> rate_value r" if "q \<in> set ?pos" for q
      using py_max_by_ge [OF m that] by (auto simp: less_eq_prod_def intro: less_imp_le)
    ultimately obtain x where x: "r \<in> set rows" "sr_rate r = Some x" "0 < x"
      and le: "\<And>q. q \<in> set ?pos \<Longrightarrow> rate_value q \<le> x"
      by (auto simp: rate_known_def rate_value_def)
    have "y \<le> x" if "q \<in> set rows" "sr_rate q = Some y" for q y
    proof (cases "0 < y")
      case True
      with that le [of q] show ?thesis by (simp add: rate_known_def rate_value_def)
    qed (use x(3) in simp)
    with r x show ?thesis by simp
  next
    case conflict
    with assms have "chosen = None" by (simp add: select_executable_def)
    moreover have "\<exists>q \<in> set ?unk. \<exists>q' \<in> set ?unk. sr_side q \<noteq> sr_side q'"
    proof (rule ccontr)
      assume "\<not> ?thesis"
      then have "card (sr_side ` set ?unk) \<le> Suc 0" by (subst card_le_Suc0_iff_eq) auto
      with conflict show False by simp
    qed
    ultimately show ?thesis using none [OF conflict(1)] by (auto simp: rate_known_def)
  next
    case unk
    with assms have c: "chosen = py_min_by (\<lambda>r. (sr_fraction r, sr_holding r)) ?unk" by (simp add: select_executable_def)
    from unk(3) obtain r where m: "py_min_by (\<lambda>r. (sr_fraction r, sr_holding r)) ?unk = Some r"
      using py_min_by_None by (metis not_None_eq)
    with c have r: "chosen = Some r" by simp
    have in_unk: "r \<in> set ?unk" using py_min_by_in [OF m] .
    have frac: "sr_fraction r \<le> sr_fraction q" if "q \<in> set ?unk" for q
    proof -
      from py_min_by_le [OF m that] show ?thesis by (auto simp: less_eq_prod_def)
    qed
    have side: "sr_side q = sr_side r" if "q \<in> set ?unk" for q
      by (rule card_one_same [of "sr_side ` set ?unk"]) (use unk(2) that in_unk in \<open>simp_all only: set_map finite_imageI finite_set not_less imageI\<close>)
    from in_unk have mem: "r \<in> set rows" and rate: "sr_rate r = None" by (simp_all add: rate_known_def)
    have same: "sr_side q = sr_side r \<and> sr_fraction r \<le> sr_fraction q" if "q \<in> set rows" "sr_rate q = None" for q
    proof -
      from that have "q \<in> set ?unk" by (simp add: rate_known_def)
      then show ?thesis using side frac by blast
    qed
    show ?thesis unfolding r option.case rate using mem none [OF unk(1)] same by blast
  next
    case no
    with assms have "chosen = None" by (simp add: select_executable_def)
    with none [OF no(1)] no(2) show ?thesis by (auto simp: rate_known_def filter_empty_conv)
  qed
qed

definition demo_score :: "string \<Rightarrow> decimal option \<Rightarrow> decimal \<Rightarrow> score_row" where
  "demo_score strategy rate fraction = \<lparr>sr_strategy = strategy, sr_side = Some CE, sr_security = ''1'', sr_quantity = 75, sr_limit = 100,
     sr_friction = 0, sr_expected = rate, sr_rate = rate, sr_holding = 5, sr_fraction = fraction\<rparr>"

theorem select_executable_sound_witness:
  "let rows = [demo_score ''a'' (Some 3) 0, demo_score ''b'' (Some 7) 0, demo_score ''c'' None 0]
   in select_executable rows = (Some (demo_score ''b'' (Some 7) 0), ''MEASURED_CASH_PER_MINUTE'', ''SELECTED'')
      \<and> (\<forall>q \<in> set rows. \<forall>y. sr_rate q = Some y \<longrightarrow> y \<le> 7)"
proof -
  let ?rows = "[demo_score ''a'' (Some 3) 0, demo_score ''b'' (Some 7) 0, demo_score ''c'' None 0]"
  have run: "select_executable ?rows = (Some (demo_score ''b'' (Some 7) 0), ''MEASURED_CASH_PER_MINUTE'', ''SELECTED'')" by code_simp
  have "sr_rate (demo_score ''b'' (Some 7) 0) = Some 7" by (simp add: demo_score_def)
  with select_executable_sound [OF run] have "\<forall>q \<in> set ?rows. \<forall>y. sr_rate q = Some y \<longrightarrow> y \<le> 7"
    by (simp only: option.case) blast
  with run show ?thesis by (simp only: Let_def simp_thms)
qed

end
