(* ===== verification/Seconds.thy ===== *)
theory Seconds
  imports Arbiter Settlement
begin

text \<open>
  The quote-driven rules of \<open>dhan_cas_bot/seconds_strategies.py\<close>: the assessment of an entry
  with its price search, the tape of futures and option quotes, and the evaluation of the
  five rules on it.

  The tape's index of the futures stamps is a cache of the tape itself and is left out; the
  cached responses and curves, which outlive the rows they were fitted on, are state. A
  failing event record is one with no readable time or source. The hash of an episode's
  text is a parameter.
\<close>

section \<open>Quotes\<close>

definition future_quote_mid :: "level list \<Rightarrow> level list \<Rightarrow> decimal res" where
  "future_quote_mid buys sells = (case (buys, sells) of
     (bid # _, ask # _) \<Rightarrow>
       if lv_price bid \<le> 0 \<or> lv_price ask < lv_price bid \<or> lv_qty bid \<le> 0 \<or> lv_qty ask \<le> 0
           \<or> 1 / 1000 < ddiv (lv_price ask - lv_price bid) (lv_price bid)
       then Inl (ContractError ''future book unusable'')
       else Inr (ddiv (lv_price bid + lv_price ask) 2)
   | _ \<Rightarrow> Inl (ContractError ''future book unavailable''))"

definition bid_price :: "option_book \<Rightarrow> decimal" where
  "bid_price b = (case top_bid b of Some l \<Rightarrow> lv_price l | None \<Rightarrow> 0)"

definition ask_price :: "option_book \<Rightarrow> decimal" where
  "ask_price b = (case top_ask b of Some l \<Rightarrow> lv_price l | None \<Rightarrow> 0)"

definition bid_quantity :: "option_book \<Rightarrow> int" where
  "bid_quantity b = (case top_bid b of Some l \<Rightarrow> lv_qty l | None \<Rightarrow> 0)"

definition ask_quantity :: "option_book \<Rightarrow> int" where
  "ask_quantity b = (case top_ask b of Some l \<Rightarrow> lv_qty l | None \<Rightarrow> 0)"

text \<open>\<open>current(book, at)\<close> with its default age; the clock's instants are UTC.\<close>

definition current :: "option_book \<Rightarrow> instant \<Rightarrow> bool" where
  "current b now = (top_bid b \<noteq> None \<and> top_ask b \<noteq> None
     \<and> 0 \<le> ns now - bk_received_ns b \<and> ns now - bk_received_ns b \<le> 1500000000
     \<and> bid_price b \<le> ask_price b \<and> now div DAY_US \<le> expiry (instr b))"

definition midpoint :: "option_book \<Rightarrow> decimal" where
  "midpoint b = ddiv (bid_price b + ask_price b) 2"

definition plain_evaluation :: "string \<Rightarrow> string \<Rightarrow> string \<Rightarrow> instant \<Rightarrow> details \<Rightarrow> evaluation" where
  "plain_evaluation name state reason now d = \<lparr>ev_strategy = name, ev_state = state, ev_reason = reason, ev_at = now,
     ev_side = None, ev_spot = None, ev_minimum_expiry = None, ev_exit_at = None, ev_details = d,
     ev_conditions = [], ev_next_check = None\<rparr>"

definition seconds_opportunity :: "string \<Rightarrow> instant \<Rightarrow> option_book \<Rightarrow> decimal \<Rightarrow> decimal \<Rightarrow> string \<Rightarrow> evaluation" where
  "seconds_opportunity name now b target und episode =
     (plain_evaluation name ''SIGNAL'' ''SECONDS_SETUP_DETECTED'' now
        [(''security_id'', DText (security_id (instr b))), (''target_price'', DDec target), (''episode'', DText episode),
         (''exit_target'', DNone), (''exit_stop'', DDec (95 / 100)), (''exit_trail'', DBool False),
         (''seconds_policy'', DText ''SECONDS_V1''), (''anchor_future'', DDec und),
         (''direction'', DInt (if otype (instr b) = CE then 1 else - 1))])
      \<lparr>ev_side := Some (otype (instr b)), ev_spot := Some und, ev_minimum_expiry := Some (expiry (instr b)),
       ev_exit_at := Some (now + seconds 60)\<rparr>"

text \<open>\<open>{**old, **new}\<close>\<close>

definition dmerge :: "details \<Rightarrow> details \<Rightarrow> details" where
  "dmerge old new = foldl (\<lambda>m (k, v). AList.update k v m) old new"

text \<open>\<open>D(value)\<close> of a detail: \<open>None\<close> when it is missing, of a wrong type or not finite.\<close>

definition detail_decimal :: "string \<Rightarrow> details \<Rightarrow> decimal option res" where
  "detail_decimal k d = (case map_of d k of
     Some (DDec x) \<Rightarrow> Inr (Some x)
   | Some (DInt n) \<Rightarrow> Inr (Some (of_int n))
   | Some (DBool b) \<Rightarrow> Inr (Some (if b then 1 else 0))
   | Some (DText t) \<Rightarrow> (case parse_decimal t of
        None \<Rightarrow> Inl InvalidOperation | Some (Finite x) \<Rightarrow> Inr (Some x) | Some NonFinite \<Rightarrow> Inr None)
   | _ \<Rightarrow> Inr None)"

section \<open>The assessment of an entry\<close>

record entry_check =
  ec_candidate :: "candidate option"
  ec_reason :: string
  ec_details :: details

definition reject :: "string \<Rightarrow> details \<Rightarrow> entry_check" where
  "reject reason d = \<lparr>ec_candidate = None, ec_reason = reason, ec_details = d\<rparr>"

text \<open>The cash facts of one limit price and the verdict on them.\<close>

definition assess_price :: "int \<Rightarrow> decimal \<Rightarrow> decimal \<Rightarrow> decimal \<Rightarrow> decimal \<Rightarrow> (string \<times> details) res" where
  "assess_price q target exit_fees budget price =
     bindR (worst_case_entry_cash default_fees q price 1) (\<lambda>debit.
     bindR (fee_buy default_fees (of_int q * price) 1) (\<lambda>entry_fees.
       let net = dsub (dsub (dmul (of_int q) target) exit_fees) debit;
           minimum = max 50 (entry_fees + exit_fees);
           facts = [(''entry_cash'', DDec debit), (''exit_fee_reserve'', DDec exit_fees), (''cash_budget'', DDec budget),
             (''entry_limit_policy'', DText ''SPREAD_BOUNDED_IOC''), (''limit_price'', DDec price),
             (''net_at_target'', DDec net), (''minimum_net_edge'', DDec minimum)]
       in Inr (if budget \<le> 0 \<or> budget < debit + exit_fees then (''SECONDS_UNAFFORDABLE'', facts)
               else if net < minimum then (''SECONDS_NET_EDGE_TOO_SMALL'', facts)
               else (''READY'', facts))))"

definition minimum_limit :: "option_book \<Rightarrow> decimal" where
  "minimum_limit b = ask_price b + 2 * tick_size (instr b)"

text \<open>The price ceiling: one spread, or two ticks, above the ask, within the upper band.\<close>

definition limit_ceiling :: "option_book \<Rightarrow> decimal" where
  "limit_ceiling b =
     (let i = instr b; allowance = max (2 * tick_size i) (ask_price b - bid_price b);
          ceil = ask_price b + of_int \<lceil>ddiv allowance (tick_size i)\<rceil> * tick_size i
      in case upper_limit i of
           Some u \<Rightarrow> if u = 0 then ceil else min ceil (of_int \<lfloor>ddiv u (tick_size i)\<rfloor> * tick_size i)
         | None \<Rightarrow> ceil)"

definition below_band :: "instrument \<Rightarrow> decimal \<Rightarrow> bool" where
  "below_band i price = (case lower_limit i of Some l \<Rightarrow> l \<noteq> 0 \<and> price < l | None \<Rightarrow> False)"

definition price_at :: "option_book \<Rightarrow> int \<Rightarrow> decimal" where
  "price_at b n = minimum_limit b + of_int n * tick_size (instr b)"

text \<open>The search of the highest tick at which the entry is still affordable and worth it.\<close>

definition search_price :: "option_book \<Rightarrow> int \<Rightarrow> decimal \<Rightarrow> decimal \<Rightarrow> decimal \<Rightarrow> entry_check res" where
  "search_price b q target exit_fees budget =
     bindR (assess_price q target exit_fees budget (minimum_limit b)) (\<lambda>(reason, facts).
       if reason \<noteq> ''READY'' then Inr (reject reason facts)
       else bindR (search_steps (\<lambda>n. bindR (assess_price q target exit_fees budget (price_at b n)) (\<lambda>(why, _). Inr (why = ''READY'')))
                    0 0 (trunc (ddiv (limit_ceiling b - minimum_limit b) (tick_size (instr b))))) (\<lambda>n.
            bindR (assess_price q target exit_fees budget (price_at b n)) (\<lambda>(_, detail).
              Inr \<lparr>ec_candidate = Some (instr b, q, price_at b n, b), ec_reason = ''READY'', ec_details = detail\<rparr>)))"

definition entry_assessment :: "evaluation \<Rightarrow> (string \<times> option_book) list \<Rightarrow> decimal \<Rightarrow> instant \<Rightarrow> entry_check res" where
  "entry_assessment sample books budget now =
     (if ev_strategy sample \<notin> set SECONDS_NAMES \<or> ev_state sample \<noteq> ''SIGNAL'' then Inr (reject ''SECONDS_SIGNAL_CHANGED'' [])
      else if \<not> (0 \<le> now - ev_at sample \<and> now - ev_at sample < seconds 5) then Inr (reject ''SECONDS_SIGNAL_EXPIRED'' [])
      else case (case dget ''security_id'' (ev_details sample) of DText k \<Rightarrow> map_of books k | _ \<Rightarrow> None) of
        None \<Rightarrow> Inr (reject ''OPTIONS_FEED_UNAVAILABLE'' [])
      | Some b \<Rightarrow>
        if \<not> current b now then Inr (reject ''OPTIONS_FEED_UNAVAILABLE'' [])
        else if Some (otype (instr b)) \<noteq> ev_side sample
            \<or> DText (security_id (instr b)) \<noteq> dget ''security_id'' (ev_details sample)
            \<or> Some (expiry (instr b)) \<noteq> ev_minimum_expiry sample
        then Inr (reject ''SECONDS_OPTION_IDENTITY_MISMATCH'' [])
        else let i = instr b; q = lot_size i; spread = ddiv (ask_price b - bid_price b) (midpoint b)
        in if 1 / 100 < spread then Inr (reject ''SECONDS_SPREAD_TOO_WIDE'' [(''spread_ratio'', DDec spread)])
        else if min (bid_quantity b) (ask_quantity b) < q * 2
        then Inr (reject ''SECONDS_DEPTH_TOO_THIN''
               [(''bid_quantity'', DInt (bid_quantity b)), (''ask_quantity'', DInt (ask_quantity b)), (''required_depth'', DInt (q * 2))])
        else if limit_ceiling b < minimum_limit b \<or> below_band i (minimum_limit b)
        then Inr (reject ''SECONDS_ENTRY_OUTSIDE_BAND'' [])
        else bindR (detail_decimal ''target_price'' (ev_details sample)) (\<lambda>target. case target of
            None \<Rightarrow> Inr (reject ''SECONDS_TARGET_UNAVAILABLE'' [])
          | Some target \<Rightarrow>
            if target \<le> 0 then Inr (reject ''SECONDS_TARGET_UNAVAILABLE'' [])
            else bindR (fee_sell default_fees (dmul (of_int q) target) 3) (\<lambda>exit_fees.
                 search_price b q target exit_fees budget)))"

definition entry_candidate :: "evaluation \<Rightarrow> (string \<times> option_book) list \<Rightarrow> decimal \<Rightarrow> instant \<Rightarrow> candidate option res" where
  "entry_candidate sample books budget now = bindR (entry_assessment sample books budget now) (\<lambda>x. Inr (ec_candidate x))"

section \<open>The tape\<close>

record quote_row =
  qr_stamp :: int
  qr_mid :: decimal
  qr_volume :: "int option"
  qr_bid :: int
  qr_ask :: int

record tape =
  tp_future :: "(int \<times> decimal) list"
  tp_options :: "(string \<times> quote_row list) list"
  tp_selected :: "string list"
  tp_epoch :: "string option"
  tp_usable :: bool
  tp_beta :: "(string \<times> (int \<times> decimal)) list"
  tp_curve :: "((string \<times> string \<times> string) \<times> (int \<times> decimal)) list"

definition tape_reset :: tape where
  "tape_reset = \<lparr>tp_future = [], tp_options = [], tp_selected = [], tp_epoch = None, tp_usable = False, tp_beta = [], tp_curve = []\<rparr>"

definition invalidate_future :: "tape \<Rightarrow> tape" where
  "invalidate_future t = t\<lparr>tp_usable := False\<rparr>"

definition future_current :: "tape \<Rightarrow> instant \<Rightarrow> bool" where
  "future_current t now = (tp_usable t \<and> tp_future t \<noteq> []
     \<and> 0 \<le> ns now - fst (last (tp_future t)) \<and> ns now - fst (last (tp_future t)) \<le> 1500000000)"

text \<open>A futures observation; \<open>None\<close> as price stands for a value that is no finite decimal.\<close>

definition future_tick :: "decimal option \<Rightarrow> int \<Rightarrow> string \<Rightarrow> tape \<Rightarrow> tape" where
  "future_tick price received epoch t =
     (case price of None \<Rightarrow> t | Some p \<Rightarrow>
        if p \<le> 0 then t
        else if (case tp_epoch t of None \<Rightarrow> False | Some e \<Rightarrow> e \<noteq> [] \<and> e \<noteq> epoch) then t
        else let t = t\<lparr>tp_epoch := Some epoch\<rparr>
        in if tp_future t \<noteq> [] \<and> received \<le> fst (last (tp_future t)) then t
           else let t = t\<lparr>tp_usable := True\<rparr>
           in if tp_future t \<noteq> [] \<and> received - fst (last (tp_future t)) < 100000000 then t
              else t\<lparr>tp_future := last_n 1200 (tp_future t @ [(received, p)])\<rparr>)"

definition book_row :: "option_book \<Rightarrow> quote_row" where
  "book_row b = \<lparr>qr_stamp = bk_received_ns b, qr_mid = midpoint b, qr_volume = map_option volume (bk_statistics b),
     qr_bid = bid_quantity b, qr_ask = ask_quantity b\<rparr>"

definition add_row :: "option_book \<Rightarrow> quote_row list \<Rightarrow> quote_row list" where
  "add_row b rows = (if rows \<noteq> [] \<and> bk_received_ns b - qr_stamp (last rows) < 200000000 then rows
     else last_n 600 (rows @ [book_row b]))"

text \<open>The contracts nearest to the anchor, of the nearest expiry.\<close>

definition nearest :: "decimal \<Rightarrow> option_book list \<Rightarrow> option_book list" where
  "nearest anchor xs =
     sort_key (\<lambda>b. (\<bar>strike (instr b) - anchor\<bar>, security_id (instr b)))
       (filter (\<lambda>b. expiry (instr b) = Min (set (map (\<lambda>x. expiry (instr x)) xs))) xs)"

definition tracked :: "int \<Rightarrow> (string \<times> quote_row list) list \<Rightarrow> (string \<times> quote_row list) list" where
  "tracked cutoff m = filter (\<lambda>(k, v). v \<noteq> [] \<and> cutoff \<le> qr_stamp (last v)) m"

definition recent_keys :: "string list \<Rightarrow> (string \<times> quote_row list) list \<Rightarrow> string list" where
  "recent_keys chosen m = take (96 - length chosen)
     (map fst (sort_key (\<lambda>(k, v). - qr_stamp (last v)) (filter (\<lambda>(k, v). k \<notin> set chosen) m)))"

definition take_rows :: "option_book list \<Rightarrow> (string \<times> quote_row list) list \<Rightarrow> (string \<times> quote_row list) list" where
  "take_rows bs m = foldl (\<lambda>m b. let k = security_id (instr b) in AList.update k (add_row b (owned k m)) m) m bs"

definition ingest :: "(string \<times> option_book) list \<Rightarrow> instant \<Rightarrow> tape \<Rightarrow> tape" where
  "ingest books now t =
     (let t = t\<lparr>tp_selected := [], tp_options := tracked (ns now - 90000000000) (tp_options t)\<rparr>
      in if tp_future t = [] then t
         else let anchor = snd (last (tp_future t));
                  eligible = filter (\<lambda>b. current b now \<and> Some (bk_epoch b) = tp_epoch t) (map snd books)
         in if eligible = [] then t
            else let eligible = take 24 (nearest anchor eligible);
                     chosen = remdups (map (\<lambda>b. security_id (instr b)) eligible);
                     keep = chosen @ recent_keys chosen (tp_options t);
                     options = filter (\<lambda>(k, v). k \<in> set keep) (tp_options t)
                 in t\<lparr>tp_selected := chosen, tp_beta := filter (\<lambda>(k, v). k \<in> set keep) (tp_beta t),
                      tp_options := take_rows eligible options\<rparr>)"

text \<open>\<open>bisect_right(stamps, stamp) - 1\<close> on increasing stamps.\<close>

definition last_at :: "('a \<Rightarrow> int) \<Rightarrow> int \<Rightarrow> int \<Rightarrow> 'a list \<Rightarrow> 'a option" where
  "last_at f age stamp xs = (case rev (takeWhile (\<lambda>x. f x \<le> stamp) xs) of
     [] \<Rightarrow> None | x # _ \<Rightarrow> if stamp - f x \<le> age then Some x else None)"

definition future_at :: "tape \<Rightarrow> int \<Rightarrow> decimal option" where
  "future_at t stamp = map_option snd (last_at fst 2000000000 stamp (tp_future t))"

text \<open>The fitted response of an option to the future, remembered for five seconds.\<close>

definition beta_pairs :: "string \<Rightarrow> int \<Rightarrow> tape \<Rightarrow> (decimal \<times> decimal) list" where
  "beta_pairs security now_ns t = List.map_filter (\<lambda>r.
     if now_ns - 60000000000 \<le> qr_stamp r \<and> qr_stamp r \<le> now_ns - 5000000000
     then map_option (\<lambda>f. (f, qr_mid r)) (future_at t (qr_stamp r)) else None) (owned security (tp_options t))"

definition fitted_beta :: "(decimal \<times> decimal) list \<Rightarrow> decimal option" where
  "fitted_beta pairs =
     (if length pairs < 20 then None
      else let n = of_nat (length pairs); x = ddiv (dsum (map fst pairs)) n; y = ddiv (dsum (map snd pairs)) n;
               xx = dsum (map (\<lambda>(f, p). dmul (dsub f x) (dsub f x)) pairs);
               yy = dsum (map (\<lambda>(f, p). dmul (dsub p y) (dsub p y)) pairs)
           in if xx \<le> 0 \<or> yy \<le> 0 then None
              else let xy = dsum (map (\<lambda>(f, p). dmul (dsub f x) (dsub p y)) pairs); slope = ddiv xy xx
                   in if \<not> (1 / 10 \<le> \<bar>slope\<bar> \<and> \<bar>slope\<bar> \<le> 9 / 10) \<or> ddiv (dmul xy xy) (dmul xx yy) < 4 / 10 then None
                      else Some slope)"

definition remembered :: "'k \<Rightarrow> int \<Rightarrow> ('k \<times> (int \<times> decimal)) list \<Rightarrow> decimal option" where
  "remembered k now_ns m = (case map_of m k of
     Some (stamp, x) \<Rightarrow> if 0 \<le> now_ns - stamp \<and> now_ns - stamp < 5000000000 then Some x else None | None \<Rightarrow> None)"

definition beta :: "string \<Rightarrow> int \<Rightarrow> tape \<Rightarrow> decimal option \<times> tape" where
  "beta security now_ns t = (case remembered security now_ns (tp_beta t) of
     Some x \<Rightarrow> (Some x, t)
   | None \<Rightarrow> (case fitted_beta (beta_pairs security now_ns t) of
       None \<Rightarrow> (None, t)
     | Some x \<Rightarrow> (Some x, t\<lparr>tp_beta := AList.update security (now_ns, x) (tp_beta t)\<rparr>)))"

section \<open>The evaluation\<close>

record event_receipt =
  evt_received :: iso_time
  evt_published :: iso_time
  evt_source :: "string option"
  evt_underlying :: "string option"

definition OFFICIAL_SOURCES :: "string list" where
  "OFFICIAL_SOURCES = [''https://nsearchives.nseindia.com/'', ''https://www.nseindia.com/'', ''https://www.rbi.org.in/'',
     ''https://www.federalreserve.gov/'']"

text \<open>When an official event was received, if it may start an impulse now.\<close>

definition event_time :: "event_receipt option \<Rightarrow> instant \<Rightarrow> instant option" where
  "event_time event now = (case event of None \<Rightarrow> None | Some e \<Rightarrow>
     (case (evt_received e, evt_published e, evt_source e) of
        (AwareTime received, AwareTime pub, Some source) \<Rightarrow>
          if list_ex (\<lambda>p. prefix p source) OFFICIAL_SOURCES \<and> evt_underlying e = Some ''NIFTY''
             \<and> pub \<le> received \<and> received \<le> now
             \<and> seconds 2 \<le> now - received \<and> now - received \<le> seconds 60
          then Some received else None
      | _ \<Rightarrow> None))"

text \<open>What the rules read at one evaluation, and what they change.\<close>

record moment =
  mo_at :: instant
  mo_stamp :: int
  mo_books :: "(string \<times> option_book) list"
  mo_eligible :: "option_book list"
  mo_budget :: decimal
  mo_closes :: instant
  mo_future :: decimal
  mo_move :: decimal
  mo_previous :: "decimal list"
  mo_breakout :: int
  mo_event :: "instant option"

record scan =
  sc_tape :: tape
  sc_result :: "(string \<times> evaluation) list"
  sc_fitted :: int
  sc_flow :: int
  sc_curve :: int

definition result_of :: "scan \<Rightarrow> string \<Rightarrow> evaluation" where
  "result_of sc name = the (map_of (sc_result sc) name)"

definition put_result :: "string \<Rightarrow> evaluation \<Rightarrow> scan \<Rightarrow> scan" where
  "put_result name x sc = sc\<lparr>sc_result := AList.update name x (sc_result sc)\<rparr>"

definition headroom :: "evaluation \<Rightarrow> decimal" where
  "headroom x = (case dget ''qualified_net_headroom'' (ev_details x) of DDec v \<Rightarrow> v | _ \<Rightarrow> 0)"

definition episode_text :: "tape \<Rightarrow> string \<Rightarrow> string \<Rightarrow> int \<Rightarrow> string" where
  "episode_text t name security stamp =
     (case tp_epoch t of Some e \<Rightarrow> e | None \<Rightarrow> ''None'') @ '':'' @ name @ '':'' @ security @ '':'' @ show_int (stamp div 30000000000)"

definition seconds_setup :: "(string \<Rightarrow> string) \<Rightarrow> moment \<Rightarrow> tape \<Rightarrow> string \<Rightarrow> option_book \<Rightarrow> decimal \<Rightarrow> details \<Rightarrow> evaluation" where
  "seconds_setup episode_hash mo t name b target extra =
     (let sample = seconds_opportunity name (mo_at mo) b target (mo_future mo)
            (episode_hash (episode_text t name (security_id (instr b)) (mo_stamp mo)))
      in sample\<lparr>ev_details := dmerge (ev_details sample) extra,
           ev_exit_at := Some (min (mo_at mo + seconds 60) (mo_closes mo - seconds 30))\<rparr>)"

definition emit :: "(string \<Rightarrow> string) \<Rightarrow> moment \<Rightarrow> string \<Rightarrow> option_book \<Rightarrow> decimal \<Rightarrow> details \<Rightarrow> scan \<Rightarrow> scan res" where
  "emit episode_hash mo name b target extra sc =
     (let sample = seconds_setup episode_hash mo (sc_tape sc) name b target extra; previous = result_of sc name
      in bindR (entry_assessment sample (mo_books mo) (mo_budget mo) (mo_at mo)) (\<lambda>found.
        if ec_candidate found = None
        then Inr (if ev_state previous = ''SIGNAL'' then sc
          else put_result name (previous\<lparr>
                 ev_state := (if ec_reason found = ''OPTIONS_FEED_UNAVAILABLE'' then ''UNKNOWN'' else ''NO_SIGNAL''),
                 ev_reason := ec_reason found,
                 ev_details := dmerge (ec_details found) [(''raw_setup_detected'', DBool True)]\<rparr>) sc)
        else let sample = sample\<lparr>ev_details := dmerge (ev_details sample)
                   [(''contract_selection'', DText ''MAX_QUALIFIED_NET_HEADROOM''),
                    (''qualified_net_headroom'', dget ''net_at_target'' (ec_details found)),
                    (''entry_limit_policy'', dget ''entry_limit_policy'' (ec_details found))]\<rparr>
        in Inr (if ev_state previous \<noteq> ''SIGNAL'' \<or> headroom previous < headroom sample
                then put_result name sample sc else sc)))"

definition NAME_CATCHUP :: string where "NAME_CATCHUP = ''SECONDS_FUTURES_CATCHUP''"
definition NAME_BREAKOUT :: string where "NAME_BREAKOUT = ''SECONDS_FAILED_BREAKOUT''"
definition NAME_FLOW :: string where "NAME_FLOW = ''SECONDS_FLOW_CONTINUATION''"
definition NAME_STRIKE :: string where "NAME_STRIKE = ''SECONDS_STRIKE_CATCHUP''"
definition NAME_EVENT :: string where "NAME_EVENT = ''SECONDS_EVENT_IMPULSE''"

text \<open>The side of an option as a sign, and its rows' last one at least two seconds old.\<close>

definition side_of :: "option_book \<Rightarrow> decimal" where
  "side_of b = (if otype (instr b) = CE then 1 else - 1)"

definition anchor_row :: "int \<Rightarrow> quote_row list \<Rightarrow> quote_row option" where
  "anchor_row stamp rows = find (\<lambda>r. qr_stamp r \<le> stamp - 2000000000) (rev rows)"

definition whenR :: "bool \<Rightarrow> ('a \<Rightarrow> 'a res) \<Rightarrow> 'a \<Rightarrow> 'a res" where
  "whenR b f x = (if b then f x else Inr x)"

definition range_middle :: "decimal list \<Rightarrow> decimal" where
  "range_middle xs = (if xs = [] then 0 else ddiv (Max (set xs) + Min (set xs)) 2)"

text \<open>The three rules that rest on the fitted response.\<close>

definition fitted_rules :: "(string \<Rightarrow> string) \<Rightarrow> moment \<Rightarrow> option_book \<Rightarrow> decimal \<Rightarrow> quote_row \<Rightarrow> scan \<Rightarrow> scan res" where
  "fitted_rules h mo b slope a sc =
     (let s = side_of b; future = mo_future mo; t = sc_tape sc; extra = [(''response_beta'', DDec slope)]
      in bindR (case future_at t (qr_stamp a) of
             Some f0 \<Rightarrow> whenR (f0 \<noteq> 0 \<and> future * (2 / 10000) \<le> s * mo_move mo)
               (emit h mo NAME_CATCHUP b (dadd (qr_mid a) (dmul slope (dsub future f0))) extra) sc
           | None \<Rightarrow> Inr sc) (\<lambda>sc.
         bindR (let goal = range_middle (mo_previous mo)
                in whenR (of_int (mo_breakout mo) = s \<and> mo_previous mo \<noteq> [] \<and> 0 < s * (goal - future))
                     (emit h mo NAME_BREAKOUT b (dadd (midpoint b) (dmul slope (goal - future))) extra) sc) (\<lambda>sc.
         case mo_event mo of None \<Rightarrow> Inr sc | Some received \<Rightarrow>
           (case future_at t (ns received) of
              Some start \<Rightarrow> whenR (start \<noteq> 0 \<and> future * (3 / 10000) \<le> s * (future - start) \<and> 0 < s * mo_move mo)
                (emit h mo NAME_EVENT b (dadd (midpoint b) \<bar>dmul slope (mo_move mo)\<bar>) extra) sc
            | None \<Rightarrow> Inr sc))))"

definition scan_fitted :: "(string \<Rightarrow> string) \<Rightarrow> moment \<Rightarrow> option_book \<Rightarrow> scan \<Rightarrow> scan res" where
  "scan_fitted h mo b sc =
     (let security = security_id (instr b);
          anchor = anchor_row (mo_stamp mo) (owned security (tp_options (sc_tape sc)));
          (slope, t) = beta security (mo_stamp mo) (sc_tape sc); sc = sc\<lparr>sc_tape := t\<rparr>
      in case slope of None \<Rightarrow> Inr sc | Some slope \<Rightarrow>
         if \<not> 0 < side_of b * slope then Inr sc
         else let sc = sc\<lparr>sc_fitted := sc_fitted sc + 1\<rparr>
         in case anchor of None \<Rightarrow> Inr sc
          | Some a \<Rightarrow> if mo_stamp mo - qr_stamp a \<le> 4000000000 then fitted_rules h mo b slope a sc else Inr sc)"

text \<open>Persistent pressure, growing volume and rising premium.\<close>

definition pressure :: "quote_row \<Rightarrow> decimal" where
  "pressure r = ddiv (of_int (qr_bid r - qr_ask r)) (of_int (max 1 (qr_bid r + qr_ask r)))"

definition flow_ready :: "moment \<Rightarrow> option_book \<Rightarrow> quote_row list \<Rightarrow> quote_row option \<Rightarrow> bool" where
  "flow_ready mo b rows anchor = (case (anchor, last_n 3 rows) of
     (Some a, [x, y, z]) \<Rightarrow> (case (qr_volume a, qr_volume x, qr_volume y, qr_volume z) of
        (Some v0, Some _, Some _, Some v) \<Rightarrow> v0 + lot_size (instr b) * 10 \<le> v
          \<and> qr_mid x < qr_mid y \<and> qr_mid y < qr_mid z
          \<and> list_all (\<lambda>r. 6 / 10 \<le> pressure r) [x, y, z] \<and> 0 < side_of b * mo_move mo
      | _ \<Rightarrow> False)
   | _ \<Rightarrow> False)"

definition scan_flow :: "(string \<Rightarrow> string) \<Rightarrow> moment \<Rightarrow> option_book \<Rightarrow> scan \<Rightarrow> scan res" where
  "scan_flow h mo b sc =
     (let rows = owned (security_id (instr b)) (tp_options (sc_tape sc)); anchor = anchor_row (mo_stamp mo) rows
      in case anchor of None \<Rightarrow> Inr sc | Some a \<Rightarrow>
         if \<not> flow_ready mo b rows anchor then Inr sc
         else emit h mo NAME_FLOW b (dadd (midpoint b) (max 0 (dsub (midpoint b) (qr_mid a)))) [] (sc\<lparr>sc_flow := sc_flow sc + 1\<rparr>))"

text \<open>The neighbours of a strike, its curve and the rule that rests on them.\<close>

definition peers_of :: "option_book list \<Rightarrow> option_book \<Rightarrow> option_book list" where
  "peers_of xs b = sort_key (\<lambda>x. strike (instr x))
     (filter (\<lambda>x. otype (instr x) = otype (instr b) \<and> expiry (instr x) = expiry (instr b)) xs)"

fun neighbours_in :: "string \<Rightarrow> option_book list \<Rightarrow> (option_book \<times> option_book) option" where
  "neighbours_in k (l # b # r # xs) =
     (if security_id (instr l) = k then None
      else if security_id (instr b) = k then Some (l, r) else neighbours_in k (b # r # xs))"
| "neighbours_in k xs = None"

definition median_decimal :: "decimal list \<Rightarrow> decimal" where
  "median_decimal xs = (let ys = sort xs; n = length ys
     in if odd n then ys ! (n div 2) else ddiv (dadd (ys ! (n div 2 - 1)) (ys ! (n div 2))) 2)"

definition peer_mid :: "tape \<Rightarrow> int \<Rightarrow> option_book \<Rightarrow> decimal option" where
  "peer_mid t stamp peer =
     map_option qr_mid (last_at qr_stamp 500000000 stamp (owned (security_id (instr peer)) (tp_options t)))"

definition curve_offsets :: "tape \<Rightarrow> int \<Rightarrow> option_book \<Rightarrow> option_book \<Rightarrow> quote_row list \<Rightarrow> decimal list" where
  "curve_offsets t stamp left right rows = List.map_filter (\<lambda>r.
     if stamp - 60000000000 \<le> qr_stamp r \<and> qr_stamp r \<le> stamp - 5000000000
     then (case (peer_mid t (qr_stamp r) left, peer_mid t (qr_stamp r) right) of
        (Some x, Some y) \<Rightarrow> Some (dsub (ddiv (dadd x y) 2) (qr_mid r)) | _ \<Rightarrow> None)
     else None) rows"

definition synchronised :: "option_book \<Rightarrow> option_book \<Rightarrow> option_book \<Rightarrow> bool" where
  "synchronised left b right =
     (strike (instr right) - strike (instr b) = strike (instr b) - strike (instr left)
      \<and> Max (set (map bk_received_ns [left, b, right])) - Min (set (map bk_received_ns [left, b, right])) \<le> 500000000)"

definition scan_curve :: "(string \<Rightarrow> string) \<Rightarrow> moment \<Rightarrow> option_book \<Rightarrow> scan \<Rightarrow> scan res" where
  "scan_curve h mo b sc = (case neighbours_in (security_id (instr b)) (peers_of (mo_eligible mo) b) of
     None \<Rightarrow> Inr sc
   | Some (left, right) \<Rightarrow>
     if \<not> synchronised left b right then Inr sc
     else let t = sc_tape sc; key = (security_id (instr left), security_id (instr b), security_id (instr right));
              counted = sc\<lparr>sc_curve := sc_curve sc + 1\<rparr>; middle = ddiv (dadd (midpoint left) (midpoint right)) 2
     in case remembered key (mo_stamp mo) (tp_curve t) of
          Some curve \<Rightarrow> emit h mo NAME_STRIKE b (dsub middle curve) [] counted
        | None \<Rightarrow>
          let offsets = curve_offsets t (mo_stamp mo) left right (owned (security_id (instr b)) (tp_options t))
          in if length offsets < 20 then Inr sc
             else let curve = median_decimal offsets
             in emit h mo NAME_STRIKE b (dsub middle curve) []
                  (counted\<lparr>sc_tape := t\<lparr>tp_curve := AList.update key (mo_stamp mo, curve) (tp_curve t)\<rparr>\<rparr>))"

definition scan_book :: "(string \<Rightarrow> string) \<Rightarrow> moment \<Rightarrow> option_book \<Rightarrow> scan \<Rightarrow> scan res" where
  "scan_book h mo b sc =
     bindR (scan_fitted h mo b sc) (\<lambda>sc. bindR (scan_flow h mo b sc) (\<lambda>sc. scan_curve h mo b sc))"

definition breakout_side :: "decimal \<Rightarrow> decimal list \<Rightarrow> decimal list \<Rightarrow> int" where
  "breakout_side future earlier recent =
     (if earlier = [] \<or> length recent < 3 then 0
      else let hi = Max (set earlier); lo = Min (set earlier); final = last recent; prior = last (butlast recent)
           in if hi + future * (1 / 10000) < Max (set recent) \<and> future < hi \<and> final < prior then - 1
              else if Min (set recent) < lo - future * (1 / 10000) \<and> lo < future \<and> prior < final then 1
              else 0)"

definition prices_between :: "int \<Rightarrow> int \<Rightarrow> (int \<times> decimal) list \<Rightarrow> decimal list" where
  "prices_between from_ns below xs = map snd (filter (\<lambda>(stamp, p). from_ns \<le> stamp \<and> stamp < below) xs)"

text \<open>What one evaluation reads from the tape after it has taken the current books in.\<close>

definition make_moment :: "instant \<Rightarrow> (string \<times> option_book) list \<Rightarrow> instant \<Rightarrow> decimal option \<Rightarrow> event_receipt option \<Rightarrow> decimal \<Rightarrow> tape \<Rightarrow> moment" where
  "make_moment now books closes budget event old t =
     (let stamp = ns now; future = snd (last (tp_future t));
          earlier = prices_between (stamp - 65000000000) (stamp - 5000000000) (tp_future t)
      in \<lparr>mo_at = now, mo_stamp = stamp, mo_books = books,
          mo_eligible = sort_key (\<lambda>b. (\<bar>strike (instr b) - future\<bar>, security_id (instr b)))
            (filter (\<lambda>b. current b now \<and> Some (bk_epoch b) = tp_epoch t) (List.map_filter (map_of books) (tp_selected t))),
          mo_budget = (case budget of Some x \<Rightarrow> x | None \<Rightarrow> 1000000000), mo_closes = closes,
          mo_future = future, mo_move = future - old, mo_previous = earlier,
          mo_breakout = breakout_side future earlier (prices_between (stamp - 5000000000) (stamp + 1) (tp_future t)),
          mo_event = event_time event now\<rparr>)"

definition unready :: "instant \<Rightarrow> string \<Rightarrow> string \<Rightarrow> details \<Rightarrow> (string \<times> evaluation) list" where
  "unready now state reason d =
     map (\<lambda>n. (n, if n = NAME_EVENT then plain_evaluation n ''UNKNOWN'' ''EVENT_FEED_UNAVAILABLE'' now []
                   else plain_evaluation n state reason now d)) SECONDS_NAMES"

text \<open>A signal whose forecast does not cover its costs at any budget is no signal.\<close>

definition drop_costly :: "(string \<times> option_book) list \<Rightarrow> instant \<Rightarrow> string \<times> evaluation \<Rightarrow> (string \<times> evaluation) res" where
  "drop_costly books now x = (case x of (name, sample) \<Rightarrow>
     if ev_state sample = ''SIGNAL''
     then bindR (entry_candidate sample books 1000000000 now) (\<lambda>c.
       Inr (name, if c = None then sample\<lparr>ev_state := ''NO_SIGNAL'', ev_reason := ''SECONDS_EDGE_BELOW_COSTS'', ev_side := None\<rparr> else sample))
     else Inr (name, sample))"

definition diagnose :: "moment \<Rightarrow> scan \<Rightarrow> string \<times> evaluation \<Rightarrow> string \<times> evaluation" where
  "diagnose mo sc x = (case x of (name, sample) \<Rightarrow>
     (name, if name = NAME_EVENT then sample
            else sample\<lparr>ev_details := dmerge (ev_details sample)
              [(''future_move_2s'', DDec (mo_move mo)), (''impulse_threshold'', DDec (mo_future mo * (2 / 10000))),
               (''eligible_contracts'', DInt (int (length (mo_eligible mo)))), (''fitted_contracts'', DInt (sc_fitted sc)),
               (''breakout_direction'', DInt (mo_breakout mo)), (''flow_candidates'', DInt (sc_flow sc)),
               (''curvature_candidates'', DInt (sc_curve sc))]\<rparr>))"

definition scan_start :: "moment \<Rightarrow> tape \<Rightarrow> scan" where
  "scan_start mo t = \<lparr>sc_tape = t,
     sc_result = map (\<lambda>n. (n,
        if n = NAME_EVENT then
          (if mo_event mo \<noteq> None then plain_evaluation n ''NO_SIGNAL'' ''SECONDS_RULE_NOT_MET'' (mo_at mo) []
           else plain_evaluation n ''UNKNOWN'' ''EVENT_FEED_UNAVAILABLE'' (mo_at mo) [])
        else plain_evaluation n ''NO_SIGNAL'' ''SECONDS_RULE_NOT_MET'' (mo_at mo) [(''future_move_2s'', DDec (mo_move mo))])) SECONDS_NAMES,
     sc_fitted = 0, sc_flow = 0, sc_curve = 0\<rparr>"

definition run_rules :: "(string \<Rightarrow> string) \<Rightarrow> moment \<Rightarrow> tape \<Rightarrow> ((string \<times> evaluation) list \<times> tape) res" where
  "run_rules h mo t =
     bindR (foldR (scan_book h mo) (mo_eligible mo) (scan_start mo t)) (\<lambda>sc.
     bindR (mapR (drop_costly (mo_books mo) (mo_at mo)) (sc_result sc)) (\<lambda>result.
       Inr (map (diagnose mo sc) result, sc_tape sc)))"

definition session_over :: "calendar option \<Rightarrow> instant \<Rightarrow> bool" where
  "session_over cal now = (case cal of None \<Rightarrow> False | Some c \<Rightarrow> cal_fresh c now
     \<and> (\<not> is_open c now \<or> (case cl_closes c of Some t \<Rightarrow> t \<le> now + seconds 65 | None \<Rightarrow> False)))"

definition tape_evaluate :: "(string \<Rightarrow> string) \<Rightarrow> instant \<Rightarrow> (string \<times> option_book) list \<Rightarrow> calendar option
    \<Rightarrow> event_receipt option \<Rightarrow> decimal option \<Rightarrow> tape \<Rightarrow> ((string \<times> evaluation) list \<times> tape) res" where
  "tape_evaluate h now books cal event budget t =
     (if session_over cal now
      then Inr (map (\<lambda>n. (n, plain_evaluation n ''NOT_APPLICABLE'' ''EXCHANGE_CLOSED'' now [])) SECONDS_NAMES, t)
      else if \<not> future_current t now then Inr (unready now ''UNKNOWN'' ''FUTURES_FEED_UNAVAILABLE'' [], t)
      else case cal of None \<Rightarrow> Inr (unready now ''UNKNOWN'' ''CALENDAR_UNAVAILABLE'' [], t) | Some c \<Rightarrow>
        if \<not> cal_fresh c now then Inr (unready now ''UNKNOWN'' ''CALENDAR_UNAVAILABLE'' [], t)
        else let t = ingest books now t; warm = ddiv (of_int (ns now - fst (hd (tp_future t)))) 1000000000
        in if tp_selected t = [] then Inr (unready now ''UNKNOWN'' ''OPTIONS_FEED_UNAVAILABLE'' [], t)
           else if warm < 60 then Inr (unready now ''WAITING'' ''SECONDS_WARMUP'' [(''warmup_seconds'', DDec warm)], t)
           else case (future_at t (ns now - 2000000000), cl_closes c) of
                (Some old, Some closes) \<Rightarrow> run_rules h (make_moment now books closes budget event old t) t
              | _ \<Rightarrow> Inr (unready now ''UNKNOWN'' ''FUTURES_FEED_UNAVAILABLE'' [], t))"

end
