(* ===== verification/DirectionalState.thy ===== *)
theory DirectionalState
  imports Engine Seconds
begin

text \<open>
  The state of the directional engine of \<open>directional.py\<close>, which extends the session
  engine's, and the engine of the quote-driven rules of \<open>seconds_engine.py\<close> that it owns.

  The clock is read once in every stretch of code between two calls that wait, before and
  after the funds are read; texts of instants and hashes are parameters.
\<close>

section \<open>State\<close>

record inputs =
  ip_calendar :: "calendar option"
  ip_evaluations :: "(string \<times> evaluation) list"
  ip_option_bars :: "(string \<times> series) list"
  ip_received :: instant
  ip_error :: string
  ip_spot_bars :: series
  ip_future_bars :: series

text \<open>
  \<open>dr_funds\<close> is what the account refresh component last read, when the runtime has one;
  \<open>dr_future\<close> whether the runtime has a connected futures channel, \<open>None\<close> when it has no
  such channel; \<open>dr_live_spot\<close> the last index value with its receipt.
\<close>

record directional = engine +
  dr_enabled :: "string list"
  dr_retain :: "decimal option"
  dr_inputs :: "inputs option"
  dr_signals :: "(string \<times> evaluation) list"
  dr_reason :: string
  dr_checks :: "details list"
  dr_ranking :: ranking
  dr_ranked_at :: "instant option"
  dr_blocked :: bool
  dr_selection :: "details \<times> details list"
  dr_instruments :: "instrument list"
  dr_funds :: "funds_snapshot option"
  dr_future :: "bool option"
  dr_live_spot :: "(decimal \<times> int) option"
  se_tape :: tape
  se_evaluations :: "(string \<times> evaluation) list"
  se_last_refresh :: "instant option"
  se_last_recorded :: "instant option"
  se_last_budget :: "decimal option"
  se_discovery :: "(funds_snapshot \<times> int \<times> instant \<times> decimal) option"
  se_event :: "event_receipt option"
  se_event_connected :: bool
  sk_sample :: "evaluation option"
  sk_reason :: string
  sk_checks :: "details list"
  sk_assessed_at :: "instant option"
  sk_signal_at :: "instant option"

text \<open>
  What a handler is given beyond a cycle's world: the clock after the funds were read, the
  arbiter's columns, the hash of a text, the text of an instant, and whether the runtime
  has its own sink for observations.
\<close>

record 'z directional_world = "'z cycle_world" +
  dw_mid :: instant
  dw_columns :: columns
  dw_hash :: "string \<Rightarrow> string"
  dw_stamp :: "instant \<Rightarrow> string"
  dw_sink :: bool

section \<open>Keys and records\<close>

definition is_micro :: "evaluation \<Rightarrow> bool" where
  "is_micro x = (ev_strategy x \<in> set SECONDS_NAMES)"

definition episode_part :: "evaluation \<Rightarrow> string res" where
  "episode_part x = (if is_micro x \<or> ev_strategy x = SHOCK
     then (case dget ''episode'' (ev_details x) of DText e \<Rightarrow> Inr ('':'' @ e) | _ \<Rightarrow> Inl KeyError) else Inr [])"

definition signal_key :: "evaluation \<Rightarrow> string res" where
  "signal_key x = bindR (episode_part x) (\<lambda>e.
     Inr (''directional-signal:'' @ isoformat (ist_date (ev_at x)) @ '':'' @ ev_strategy x @ e))"

definition family_of :: "string \<Rightarrow> string" where
  "family_of strategy = (case map_of SPECS strategy of Some sp \<Rightarrow> rs_family sp | None \<Rightarrow> strategy)"

definition family_key :: "evaluation \<Rightarrow> string res" where
  "family_key x = bindR (episode_part x) (\<lambda>e.
     Inr (''directional-family:'' @ isoformat (ist_date (ev_at x)) @ '':''
       @ (if is_micro x \<or> ev_strategy x = SHOCK then ev_strategy x @ e else family_of (ev_strategy x)) @ '':consumed''))"

text \<open>A row is present: \<open>ledger.metadata(key)\<close> in a condition.\<close>

abbreviation noted :: "string \<Rightarrow> 'z runtime_scheme \<Rightarrow> bool" where
  "noted key s \<equiv> metadata_flag key (rt_ledger s)"

definition put_note :: "string \<Rightarrow> details \<Rightarrow> details list \<Rightarrow> ('z runtime_scheme, unit) sm" where
  "put_note key d rows = put_meta key (MData d rows)"

definition assessment_of :: "string \<Rightarrow> ledger \<Rightarrow> details \<times> details list" where
  "assessment_of key l = (case metadata (key @ '':assessment'') l of Some (MData d rows) \<Rightarrow> (d, rows) | _ \<Rightarrow> ([], []))"

text \<open>\<open>record_assessment\<close>: a change of the binding result, not every quote.\<close>

definition record_assessment :: "instant \<Rightarrow> evaluation \<Rightarrow> string \<Rightarrow> details list \<Rightarrow> ('z directional_scheme, unit) sm" where
  "record_assessment now signal reason checks =
     bindS (liftS (signal_key signal)) (\<lambda>key.
     bindS getS (\<lambda>s.
       let (old, rows) = assessment_of key (rt_ledger s); value = [(''reason'', DText reason)]
       in if filter (\<lambda>(k, v). k \<noteq> ''assessed_at'') old = value \<and> rows = checks then retS ()
          else put_note (key @ '':assessment'')
            (value @ (if ev_strategy signal = SHOCK then [(''assessed_at'', DTime now)] else [])) checks))"

definition set_dr_reason :: "string \<Rightarrow> ('z directional_scheme, unit) sm" where
  "set_dr_reason r = modifyS (\<lambda>s. s\<lparr>dr_reason := r\<rparr>)"

section \<open>Inputs and books\<close>

definition input_ready :: "instant \<Rightarrow> 'z directional_scheme \<Rightarrow> bool" where
  "input_ready now s = (case dr_inputs s of None \<Rightarrow> False | Some d \<Rightarrow>
     ip_error d = [] \<and> 0 \<le> now - ip_received d \<and> now - ip_received d \<le> seconds 90
     \<and> (case ip_calendar d of None \<Rightarrow> False | Some c \<Rightarrow> is_open c now))"

text \<open>\<open>now().timestamp()*1e9-book.received_ns\<close>, in doubles.\<close>

definition book_current :: "instant \<Rightarrow> option_book option \<Rightarrow> 'z engine_scheme \<Rightarrow> bool" where
  "book_current now b s = (case b of None \<Rightarrow> False | Some b \<Rightarrow>
     let age = dbl (timestamp_ns now - dbl (of_int (bk_received_ns b)))
     in en_market_connected s \<and> 0 \<le> age \<and> age \<le> 2000000000)"

definition book_ready :: "instant \<Rightarrow> option_book option \<Rightarrow> 'z engine_scheme \<Rightarrow> bool" where
  "book_ready now b s = (book_current now b s \<and> (case b of None \<Rightarrow> False | Some b \<Rightarrow>
     top_ask b \<noteq> None \<and> top_bid b \<noteq> None \<and> bid_price b \<le> ask_price b
     \<and> ddiv (ask_price b - bid_price b) (ddiv (ask_price b + bid_price b) 2) \<le> 8 / 100))"

definition refresh_ranking :: "columns \<Rightarrow> instant \<Rightarrow> ('z directional_scheme, unit) sm" where
  "refresh_ranking col now = bindS getS (\<lambda>s.
     if (case dr_ranked_at s of None \<Rightarrow> True | Some t \<Rightarrow> seconds 5 \<le> now - t)
     then bindS (liftS (scores col (rt_ledger s) now)) (\<lambda>r. modifyS (\<lambda>s. s\<lparr>dr_ranking := r, dr_ranked_at := Some now\<rparr>))
     else retS ())"

text \<open>The cash one decision may use.\<close>

definition entry_budget :: "allocation \<Rightarrow> decimal" where
  "entry_budget a = (let x = min (min (remaining a) (al_spendable a)) (dmul (bankroll a) (95 / 100))
     in case selected_cap_remaining a of None \<Rightarrow> x | Some cap \<Rightarrow> min x cap)"

section \<open>The engine of the quote-driven rules\<close>

definition seconds_reset :: "('z directional_scheme, unit) sm" where
  "seconds_reset = modifyS (\<lambda>s. s\<lparr>se_tape := tape_reset, se_last_refresh := None, se_evaluations := [], se_discovery := None\<rparr>)"

definition calendar_of :: "'z directional_scheme \<Rightarrow> calendar option" where
  "calendar_of s = (case dr_inputs s of None \<Rightarrow> None | Some d \<Rightarrow> ip_calendar d)"

definition seconds_ready :: "instant \<Rightarrow> 'z directional_scheme \<Rightarrow> bool" where
  "seconds_ready now s = ((case calendar_of s of None \<Rightarrow> False | Some c \<Rightarrow> is_open c now) \<and> future_current (se_tape s) now)"

definition observe_evaluations :: "'z directional_scheme directional_world \<Rightarrow> instant \<Rightarrow> ('z directional_scheme, unit) sm" where
  "observe_evaluations w now = bindS getS (\<lambda>s.
     if (case se_last_recorded s of None \<Rightarrow> True | Some t \<Rightarrow> seconds 1 \<le> now - t)
     then let receipts = map (\<lambda>(name, x). (''strategy-evaluation:'' @ name @ '':'' @ dw_stamp w now @ '':'' @ ev_state x, ''STRATEGY_EVALUATION''))
                (filter (\<lambda>(name, x). name \<in> set (dr_enabled s)) (se_evaluations s))
          in bindS (whenS (receipts \<noteq> [] \<and> \<not> dw_sink w) (on_oms (onledger (observe_batch receipts)))) (\<lambda>_.
               modifyS (\<lambda>s. s\<lparr>se_last_recorded := Some now\<rparr>))
     else retS ())"

definition await_event :: "bool \<Rightarrow> (string \<times> evaluation) list \<Rightarrow> (string \<times> evaluation) list" where
  "await_event linked xs = map (\<lambda>(name, x).
     (name, if name = NAME_EVENT \<and> ev_reason x = ''EVENT_FEED_UNAVAILABLE'' \<and> linked
            then x\<lparr>ev_state := ''WAITING'', ev_reason := ''NO_FRESH_EVENT''\<rparr> else x)) xs"

definition seconds_refresh ::
  "'z directional_scheme directional_world \<Rightarrow> instant \<Rightarrow> decimal option \<Rightarrow> bool \<Rightarrow> ('z directional_scheme, unit) sm" where
  "seconds_refresh w now budget force =
     bindS (case budget of None \<Rightarrow> retS () | Some b \<Rightarrow> modifyS (\<lambda>s. s\<lparr>se_last_budget := Some b\<rparr>)) (\<lambda>_.
     bindS getS (\<lambda>s.
     if \<not> force \<and> (case se_last_refresh s of None \<Rightarrow> False | Some t \<Rightarrow> 0 \<le> now - t \<and> now - t < 250000) then retS ()
     else bindS (liftS (tape_evaluate (dw_hash w) now (en_books s) (calendar_of s) (se_event s) (se_last_budget s) (se_tape s))) (\<lambda>(result, t).
          bindS (modifyS (\<lambda>s. s\<lparr>se_tape := t, se_evaluations := await_event (se_event_connected s) result, se_last_refresh := Some now\<rparr>)) (\<lambda>_.
            observe_evaluations w now))))"

text \<open>
  The discovery budget of fresh funds, remembered for a quarter of a second. The funds are
  the same object when they are equal: a component that reads them again stamps them anew.
\<close>

definition remembered_budget :: "instant \<Rightarrow> funds_snapshot \<Rightarrow> 'z directional_scheme \<Rightarrow> decimal option" where
  "remembered_budget now funds s = (case se_discovery s of
     Some (f, revision, stamp, budget) \<Rightarrow>
       if f = funds \<and> revision = om_revision (rt_oms s) \<and> 0 \<le> now - stamp \<and> now - stamp < 250000 then Some budget else None
   | None \<Rightarrow> None)"

definition discovery_budget :: "instant \<Rightarrow> ('z directional_scheme, decimal option) sm" where
  "discovery_budget now = bindS getS (\<lambda>s. case (rt_refresh s, dr_funds s) of
     (Some True, Some funds) \<Rightarrow>
       (case remembered_budget now funds s of
          Some budget \<Rightarrow> retS (Some budget)
        | None \<Rightarrow>
            bindS (liftS (allocate (rt_mandate s) (session_id s) (rt_ledger s) funds None)) (\<lambda>a.
            bindS (modifyS (\<lambda>s. s\<lparr>se_discovery := Some (funds, om_revision (rt_oms s), now, entry_budget a)\<rparr>)) (\<lambda>_.
              retS (Some (entry_budget a)))))
   | _ \<Rightarrow> retS None)"

definition seconds_signals :: "'z directional_scheme directional_world \<Rightarrow> instant \<Rightarrow> ('z directional_scheme, evaluation list) sm" where
  "seconds_signals w now =
     bindS (discovery_budget now) (\<lambda>budget.
     bindS getS (\<lambda>s.
     bindS (seconds_refresh w now budget (budget \<noteq> None \<and> budget \<noteq> se_last_budget s)) (\<lambda>_.
     bindS getS (\<lambda>s. retS (map snd (filter (\<lambda>(name, x). name \<in> set (dr_enabled s) \<and> ev_state x = ''SIGNAL'') (se_evaluations s)))))))"

definition text_detail :: "string \<Rightarrow> evaluation \<Rightarrow> string" where
  "text_detail k x = (case dget k (ev_details x) of DText t \<Rightarrow> t | _ \<Rightarrow> [])"

text \<open>A shared event bucket is not proof that an older forecast survives.\<close>

definition projection_current :: "evaluation \<Rightarrow> 'z directional_scheme \<Rightarrow> bool" where
  "projection_current signal s = (case map_of (se_evaluations s) (ev_strategy signal) of
     None \<Rightarrow> False
   | Some x \<Rightarrow> text_detail ''episode'' signal \<noteq> [] \<and> text_detail ''security_id'' signal \<noteq> []
       \<and> ev_state x = ''SIGNAL'' \<and> ev_side x = ev_side signal \<and> ev_minimum_expiry x = ev_minimum_expiry signal
       \<and> text_detail ''security_id'' x = text_detail ''security_id'' signal
       \<and> text_detail ''episode'' x = text_detail ''episode'' signal
       \<and> (case (detail_decimal ''target_price'' (ev_details x), detail_decimal ''target_price'' (ev_details signal)) of
            (Inr (Some target), Inr (Some original)) \<Rightarrow> original \<le> target \<and> 0 < original | _ \<Rightarrow> False))"

definition seconds_candidate ::
  "'z directional_scheme directional_world \<Rightarrow> instant \<Rightarrow> evaluation \<Rightarrow> allocation \<Rightarrow> ('z directional_scheme, candidate option) sm" where
  "seconds_candidate w now signal a =
     bindS (seconds_refresh w now (Some (entry_budget a)) True) (\<lambda>_.
     bindS getS (\<lambda>s.
     if \<not> projection_current signal s then bindS (set_dr_reason ''SECONDS_SIGNAL_CHANGED'') (\<lambda>_. retS None)
     else bindS (liftS (entry_candidate signal (en_books s) (entry_budget a) now)) (\<lambda>found.
          bindS (modifyS (\<lambda>s. s\<lparr>dr_checks := [[(''security_id'', dget ''security_id'' (ev_details signal)),
              (''reason'', DText (if found = None then ''NO_AFFORDABLE_LIQUID_CONTRACT'' else ''READY'')), (''budget'', DDec (entry_budget a))]]\<rparr>)) (\<lambda>_.
          bindS (whenS (found = None) (set_dr_reason ''NO_AFFORDABLE_LIQUID_CONTRACT'')) (\<lambda>_. retS found)))))"

definition seconds_valid :: "'z directional_scheme directional_world \<Rightarrow> instant \<Rightarrow> evaluation \<Rightarrow> ('z directional_scheme, bool) sm" where
  "seconds_valid w now signal = bindS getS (\<lambda>s.
     if \<not> seconds_ready now s then retS False
     else bindS (seconds_refresh w now None True) (\<lambda>_. bindS getS (\<lambda>s. retS (projection_current signal s))))"

text \<open>The reason to leave a quote-driven position, from the recorded signal's details.\<close>

definition required_decimal :: "string \<Rightarrow> details \<Rightarrow> decimal res" where
  "required_decimal k d = (if map_of d k = None then Inl KeyError
     else bindR (detail_decimal k d) (\<lambda>x. case x of Some v \<Rightarrow> Inr v | None \<Rightarrow> Inl TypeError))"

definition seconds_exit_reason :: "details \<Rightarrow> option_book \<Rightarrow> decimal \<Rightarrow> instant \<Rightarrow> 'z directional_scheme \<Rightarrow> string option res" where
  "seconds_exit_reason d b entry now s =
     (if top_bid b = None then Inr None
      else if bid_price b \<le> dmul entry (95 / 100) then Inr (Some ''SECONDS_PREMIUM_STOP'')
      else bindR (required_decimal ''target_price'' d) (\<lambda>target.
        if target \<le> bid_price b then Inr (Some ''SECONDS_TARGET_REPRICED'')
        else if \<not> seconds_ready now s then Inr (Some ''SECONDS_INPUT_LOST'')
        else bindR (required_decimal ''anchor_future'' d) (\<lambda>anchor.
             bindR (required_decimal ''direction'' d) (\<lambda>way.
               Inr (if way * (snd (last (tp_future (se_tape s))) - anchor) < - anchor * (1 / 10000)
                    then Some ''SECONDS_DIRECTION_FAILED'' else None)))))"

end
