(* ===== verification/ShockRules.thy ===== *)
theory ShockRules
  imports Seconds Feeds Exits
begin

text \<open>
  The rules of \<open>dhan_cas_bot/volatility_shock.py\<close>: the completed-bar hypothesis, the
  contracts it may buy, their pricing scenario, the choice between them and the exit guard.

  Pricing runs in doubles; the three functions of the C library it calls are parameters,
  every other operation is rounded as Python rounds it. Digests and the texts they are
  taken of are parameters, the thresholds shown beside a condition are left out.
\<close>

section \<open>The hypothesis\<close>

definition CLOSE_CHANGE :: day where "CLOSE_CHANGE = 20794"

definition flatten_at :: "instant \<Rightarrow> instant \<Rightarrow> instant" where
  "flatten_at opens closes = min (ist_at (ist_date opens) (clock 15 15)) (closes - minutes 10)"

record shock_facts =
  sf_spot_5m :: decimal
  sf_prior :: decimal
  sf_high :: decimal
  sf_low :: decimal
  sf_boundary :: decimal
  sf_confirmed :: bool
  sf_extension :: decimal
  sf_future_5m :: decimal
  sf_volume :: decimal
  sf_comparisons :: int
  sf_windows :: int

definition minutes_back :: "instant \<Rightarrow> int list \<Rightarrow> instant list" where
  "minutes_back t offsets = map (\<lambda>n. t - minutes n) offsets"

definition change :: "series \<Rightarrow> instant \<Rightarrow> decimal res" where
  "change rows t = bindR (bar_at rows t) (\<lambda>b. bindR (bar_at rows (t - minutes 5)) (\<lambda>old.
     bindR (qdiv (br_close b) (br_close old)) (\<lambda>q. Inr (dsub q 1))))"

text \<open>A bar of the decision window whose prices are ordered and positive.\<close>

definition usable_bar :: "instant \<Rightarrow> bar \<Rightarrow> bool" where
  "usable_bar t b = (br_available b = t \<and> 0 < br_open b \<and> 0 < br_close b
     \<and> (case (br_low b, br_high b) of
          (Some low, Some high) \<Rightarrow> 0 < low \<and> 0 < high \<and> low \<le> min (br_open b) (br_close b) \<and> max (br_open b) (br_close b) \<le> high
        | _ \<Rightarrow> False))"

definition has_bar :: "series \<Rightarrow> instant \<Rightarrow> bool" where
  "has_bar rows t = (map_of rows t \<noteq> None)"

definition baseline_changes :: "series \<Rightarrow> instant \<Rightarrow> instant \<Rightarrow> decimal list res" where
  "baseline_changes spot opens t0 = mapR (\<lambda>t. bindR (change spot t) (\<lambda>x. Inr \<bar>x\<bar>))
     (filter (\<lambda>t. has_bar spot t \<and> has_bar spot (t - minutes 5) \<and> opens + minutes 1 \<le> t - minutes 5) (minutes_back t0 [6..30]))"

text \<open>Volumes of the non-overlapping windows of three adjacent minutes.\<close>

fun volume_windows :: "series \<Rightarrow> instant list \<Rightarrow> int list" where
  "volume_windows future (a # b # c # ts) =
     (if c - a = minutes 2 then [sum_by (\<lambda>t. case map_of future t of Some x \<Rightarrow> br_volume x | None \<Rightarrow> 0) [a, b, c]] else [])
       @ volume_windows future ts"
| "volume_windows future ts = []"

definition earlier_minutes :: "series \<Rightarrow> instant \<Rightarrow> instant \<Rightarrow> instant list" where
  "earlier_minutes future opens t0 = sort (filter (\<lambda>t. opens < t \<and> t \<le> t0 - minutes 3) (map fst future))"

definition volume_of :: "series \<Rightarrow> instant \<Rightarrow> int" where
  "volume_of rows t = (case map_of rows t of Some b \<Rightarrow> br_volume b | None \<Rightarrow> 0)"

definition shock_details :: "instant \<Rightarrow> string \<Rightarrow> details" where
  "shock_details t0 source = [(''rule_version'', DText ''shock_v1''), (''decision_minute'', DTime t0), (''source'', DText source)]"

definition fact_details :: "shock_facts \<Rightarrow> details" where
  "fact_details f = [(''spot_5m'', DDec (sf_spot_5m f)), (''prior_abs_r5'', DDec (sf_prior f)), (''pre_break_high'', DDec (sf_high f)),
     (''pre_break_low'', DDec (sf_low f)), (''breakout_boundary'', DDec (sf_boundary f)), (''extension'', DDec (sf_extension f)),
     (''future_5m_return'', DDec (sf_future_5m f)), (''volume_ratio'', DDec (sf_volume f)),
     (''baseline_comparisons'', DInt (sf_comparisons f)), (''volume_windows'', DInt (sf_windows f))]"

definition shock_direction :: "decimal \<Rightarrow> decimal" where
  "shock_direction r5 = (if 0 < r5 then 1 else - 1)"

definition prior_range :: "series \<Rightarrow> instant \<Rightarrow> (decimal \<times> decimal) res" where
  "prior_range spot t0 = bindR (mapR (bar_at spot) (minutes_back t0 [2..31])) (\<lambda>bs.
     let highs = List.map_filter br_high bs; lows = List.map_filter br_low bs
     in if highs = [] \<or> lows = [] then Inl (ValueError ''empty'') else Inr (Max (set highs), Min (set lows)))"

text \<open>The conditions, in the order in which they are reported.\<close>

definition shock_tests :: "shock_facts \<Rightarrow> (string \<times> decimal \<times> bool) list" where
  "shock_tests f =
     (let r5 = sf_spot_5m f; way = shock_direction r5
      in [(''shock_size'', \<bar>r5\<bar>, 30 / 10000 \<le> \<bar>r5\<bar>),
          (''shock_abnormal'', ddiv \<bar>r5\<bar> (sf_prior f), dmul 2 (sf_prior f) \<le> \<bar>r5\<bar>),
          (''persistence'', if sf_confirmed f then 1 else 0, sf_confirmed f),
          (''extension'', sf_extension f, 0 \<le> sf_extension f \<and> sf_extension f \<le> 55 / 10000),
          (''future_direction'', way * sf_future_5m f, 1 / 1000 \<le> way * sf_future_5m f),
          (''volume_ratio'', sf_volume f, 13 / 10 \<le> sf_volume f)])"

text \<open>The facts of a decision minute, or the reason they are unavailable.\<close>

definition shock_measure :: "series \<Rightarrow> series \<Rightarrow> instant \<Rightarrow> instant \<Rightarrow> (string + shock_facts) res" where
  "shock_measure spot future opens t0 =
     bindR (change spot t0) (\<lambda>r5.
     bindR (baseline_changes spot opens t0) (\<lambda>baseline.
     if length baseline < 20 \<or> median_decimal baseline \<le> 0 then Inr (Inl ''SHOCK_BASELINE_UNAVAILABLE'')
     else bindR (prior_range spot t0) (\<lambda>(high, low).
       let way = shock_direction r5; boundary = (if 0 < way then high else low)
       in bindR (mapR (bar_at spot) (minutes_back t0 [0, 1])) (\<lambda>last_two.
          bindR (bar_at spot t0) (\<lambda>b.
          bindR (qdiv (br_close b) boundary) (\<lambda>over.
          bindR (change future t0) (\<lambda>f5.
          let windows = volume_windows future (earlier_minutes future opens t0)
          in if length windows < 5 then Inr (Inl ''SHOCK_VOLUME_UNAVAILABLE'')
             else bindR (median windows) (\<lambda>usual.
               if usual \<le> 0 \<or> list_ex (\<lambda>t. volume_of future t < 0) (minutes_back t0 [0..34]) then Inr (Inl ''SHOCK_VOLUME_UNAVAILABLE'')
               else Inr (Inr \<lparr>sf_spot_5m = r5, sf_prior = median_decimal baseline, sf_high = high, sf_low = low, sf_boundary = boundary,
                 sf_confirmed = list_all (\<lambda>x. 0 < way * dsub (br_close x) (dmul boundary (1 + way * (2 / 10000)))) last_two,
                 sf_extension = way * dsub over 1, sf_future_5m = f5,
                 sf_volume = ddiv (of_int (sum_by (volume_of future) (minutes_back t0 [0..2]))) usual,
                 sf_comparisons = int (length baseline), sf_windows = int (length windows)\<rparr>)))))))))"

text \<open>
  \<open>evaluate_completed_shock\<close> with its default configuration. \<open>episode\<close> is the hash of
  day, direction, minute and rule version.
\<close>

definition shock_result ::
  "calendar option \<Rightarrow> series \<Rightarrow> instant \<Rightarrow> instant \<Rightarrow> string \<Rightarrow> string \<Rightarrow> option_type option \<Rightarrow> details \<Rightarrow> condition list \<Rightarrow> evaluation" where
  "shock_result cal spot now t0 state reason sd d cs =
     \<lparr>ev_strategy = SHOCK, ev_state = state, ev_reason = reason, ev_at = t0, ev_side = sd,
      ev_spot = map_option br_close (map_of spot t0), ev_minimum_expiry = Some (ist_date now),
      ev_exit_at = (case cal of None \<Rightarrow> None | Some c \<Rightarrow> (case (cl_opens c, cl_closes c) of
         (Some opens, Some closes) \<Rightarrow> Some (flatten_at opens closes) | _ \<Rightarrow> None)),
      ev_details = d, ev_conditions = cs, ev_next_check = None\<rparr>"

definition shock_decided ::
  "(day \<Rightarrow> decimal \<Rightarrow> instant \<Rightarrow> string) \<Rightarrow> calendar option \<Rightarrow> series \<Rightarrow> instant \<Rightarrow> instant \<Rightarrow> string \<Rightarrow> shock_facts \<Rightarrow> evaluation" where
  "shock_decided episode cal spot now t0 source f =
     (let d = shock_details t0 source @ [(''bar_at'', DTime t0), (''source_received_at'', DTime now)] @ fact_details f;
          cs = map (\<lambda>(k, v, passed). \<lparr>cn_key = k, cn_state = (if passed then PASS else FAIL), cn_value = DDec v\<rparr>) (shock_tests f);
          way = shock_direction (sf_spot_5m f)
      in if \<not> list_all (\<lambda>(k, v, passed). passed) (shock_tests f)
         then shock_result cal spot now t0 ''NO_SIGNAL'' ''SHOCK_RULE_NOT_MET'' None d cs
         else shock_result cal spot now t0 ''SIGNAL'' ''SHOCK_CONFIRMED'' (Some (if 0 < way then CE else PE))
                (d @ [(''episode'', DText (episode (ist_date now) way t0))]) cs)"

definition evaluate_shock ::
  "(day \<Rightarrow> decimal \<Rightarrow> instant \<Rightarrow> string) \<Rightarrow> instant \<Rightarrow> calendar option \<Rightarrow> series \<Rightarrow> series \<Rightarrow> instant \<Rightarrow> string \<Rightarrow> evaluation res" where
  "evaluate_shock episode now cal spot future t0 source =
     (let d = shock_details t0 source; plain = (\<lambda>state reason. Inr (shock_result cal spot now t0 state reason None d []));
          known = d @ [(''bar_at'', DTime t0), (''source_received_at'', DTime now)]
      in case cal of None \<Rightarrow> plain ''INPUT_UNAVAILABLE'' ''CALENDAR_UNAVAILABLE''
       | Some c \<Rightarrow>
           if \<not> cal_fresh c now then plain ''INPUT_UNAVAILABLE'' ''CALENDAR_UNAVAILABLE''
           else if \<not> is_open c now then plain ''WAITING'' ''EXCHANGE_CLOSED''
           else case (cl_opens c, cl_closes c) of
             (Some opens, Some closes) \<Rightarrow>
               if \<not> (clock 9 50 \<le> ist_time t0 \<and> ist_time t0 \<le> clock 14 45) \<or> flatten_at opens closes \<le> now
               then plain ''WAITING'' ''OUTSIDE_STRATEGY_WINDOW''
               else if ist_time t0 mod minutes 1 \<noteq> 0 \<or> \<not> (0 \<le> now - t0 \<and> now - t0 \<le> seconds 30)
               then plain ''INPUT_UNAVAILABLE'' ''SHOCK_COMPLETED_BAR_UNAVAILABLE''
               else if t0 - minutes 34 < opens + minutes 1 then plain ''WAITING'' ''SHOCK_WARMUP''
               else let times = minutes_back t0 [0..34] in
               if list_ex (\<lambda>t. \<not> has_bar spot t \<or> \<not> has_bar future t) times then plain ''INPUT_UNAVAILABLE'' ''SHOCK_NONCONTIGUOUS_BARS''
               else if list_ex (\<lambda>rows. list_ex (\<lambda>t. case map_of rows t of Some b \<Rightarrow> \<not> usable_bar t b | None \<Rightarrow> True) times) [spot, future]
               then plain ''INPUT_UNAVAILABLE'' ''SHOCK_INVALID_BAR''
               else bindR (shock_measure spot future opens t0) (\<lambda>m. case m of
                   Inl reason \<Rightarrow> Inr (shock_result cal spot now t0 ''INPUT_UNAVAILABLE'' reason None known [])
                 | Inr f \<Rightarrow> Inr (shock_decided episode cal spot now t0 source f))
           | _ \<Rightarrow> plain ''WAITING'' ''EXCHANGE_CLOSED'')"

section \<open>Cash and contracts\<close>

definition shock_allocation :: "allocation \<Rightarrow> allocation" where
  "shock_allocation a = (let taken = max 0 (ceiling_amount a - remaining a)
     in a\<lparr>ceiling_amount := bankroll a, remaining := max 0 (bankroll a - taken)\<rparr>)"

definition contract_cutoff :: "instrument \<Rightarrow> instant \<Rightarrow> instant \<Rightarrow> instant" where
  "contract_cutoff i opens closes = (let today = ist_date opens
     in if CLOSE_CHANGE \<le> today \<and> expiry i = today then min closes (ist_at today (clock 15 30)) else closes)"

definition strike_ladder :: "instrument list \<Rightarrow> decimal \<Rightarrow> decimal \<Rightarrow> instrument list" where
  "strike_ladder rungs way spot = (case py_min_by (\<lambda>i. (\<bar>strike i - spot\<bar>, strike i)) rungs of
     None \<Rightarrow> []
   | Some a \<Rightarrow>
       let atm = strike a; near = sort_key (\<lambda>i. (\<bar>strike i - atm\<bar>, security_id i))
       in take 2 (near (filter (\<lambda>i. way * (strike i - atm) < 0) rungs))
          @ take 13 (near (filter (\<lambda>i. 0 \<le> way * (strike i - atm)) rungs)))"

definition shock_universe :: "instrument list \<Rightarrow> option_type \<Rightarrow> decimal \<Rightarrow> day \<Rightarrow> instrument list" where
  "shock_universe instruments sd spot today =
     (let rows = filter (\<lambda>i. today \<le> expiry i \<and> otype i = sd) instruments; way = (if sd = CE then 1 else - 1)
      in concat (map (\<lambda>e. strike_ladder (filter (\<lambda>i. expiry i = e) rows) way spot)
           (take 2 (sort (remdups (map expiry rows))))))"

section \<open>Pricing\<close>

record libm =
  lm_log :: "rat \<Rightarrow> rat"
  lm_sqrt :: "rat \<Rightarrow> rat"
  lm_erf :: "rat \<Rightarrow> rat"

definition normal_cdf :: "libm \<Rightarrow> rat \<Rightarrow> rat" where
  "normal_cdf m x = dbl (dbl (1 + lm_erf m (dbl (x / lm_sqrt m 2))) / 2)"

definition black_scholes :: "libm \<Rightarrow> rat \<Rightarrow> rat \<Rightarrow> rat \<Rightarrow> rat \<Rightarrow> option_type \<Rightarrow> rat" where
  "black_scholes m s k t v sd =
     (let spread = dbl (v * lm_sqrt m t);
          d1 = dbl (dbl (lm_log m (dbl (s / k)) + dbl (dbl (dbl (v * v) * t) / 2)) / spread); d2 = dbl (d1 - spread)
      in if sd = CE then dbl (dbl (s * normal_cdf m d1) - dbl (k * normal_cdf m d2))
         else dbl (dbl (k * normal_cdf m (- d2)) - dbl (s * normal_cdf m (- d1))))"

definition option_value :: "libm \<Rightarrow> decimal \<Rightarrow> decimal \<Rightarrow> decimal \<Rightarrow> decimal \<Rightarrow> option_type \<Rightarrow> decimal res" where
  "option_value m spot k years vol sd =
     (let s' = dbl spot; k' = dbl k; t = dbl years; v = dbl vol
      in if min s' k' \<le> 0 \<or> min t v < 0 then Inl (ValueError ''invalid pricing inputs'')
         else if t = 0 \<or> v = 0 then Inr (max 0 (if sd = CE then dsub spot k else dsub k spot))
         else Inr (max 0 (repr_decimal (black_scholes m s' k' t v sd))))"

text \<open>Seventy halvings of the bracket of the implied volatility.\<close>

fun bisect_volatility :: "(decimal \<Rightarrow> decimal res) \<Rightarrow> decimal \<Rightarrow> nat \<Rightarrow> decimal \<Rightarrow> decimal \<Rightarrow> (decimal \<times> decimal) res" where
  "bisect_volatility f price 0 lo hi = Inr (lo, hi)"
| "bisect_volatility f price (Suc n) lo hi =
     (let mid = ddiv (dadd lo hi) 2
      in bindR (f mid) (\<lambda>v. if v < price then bisect_volatility f price n mid hi else bisect_volatility f price n lo mid))"

definition implied_volatility :: "libm \<Rightarrow> decimal \<Rightarrow> decimal \<Rightarrow> decimal \<Rightarrow> decimal \<Rightarrow> option_type \<Rightarrow> decimal res" where
  "implied_volatility m spot k years price sd =
     (let floor_value = max 0 (if sd = CE then spot - k else k - spot); upper = (if sd = CE then spot else k)
      in if years \<le> 0 \<or> \<not> (floor_value < price \<and> price < upper) then Inl (ValueError ''impossible option quote'')
         else bindR (option_value m spot k years 8 sd) (\<lambda>top.
              if top < price then Inl (ValueError ''IV out of bounds'')
              else bindR (bisect_volatility (\<lambda>v. option_value m spot k years v sd) price 70 (1 / 1000000) 8) (\<lambda>(lo, hi).
                Inr (ddiv (dadd lo hi) 2))))"

section \<open>The choice of a contract\<close>

record shock_candidate =
  kc_instrument :: instrument
  kc_quantity :: int
  kc_limit :: decimal
  kc_book :: option_book
  kc_entry :: decimal
  kc_reserve :: decimal
  kc_multiple :: decimal
  kc_ending :: decimal
  kc_spread :: decimal

text \<open>\<open>D(str(delta.total_seconds()))\<close>\<close>

definition seconds_decimal :: "int \<Rightarrow> decimal" where
  "seconds_decimal us = repr_decimal (dbl (of_int us / 1000000))"

definition YEAR_SECONDS :: decimal where "YEAR_SECONDS = 31536000"

text \<open>The scenario premium of a contract, rounded down to its tick.\<close>

definition scenario_premium ::
  "libm \<Rightarrow> instrument \<Rightarrow> option_book \<Rightarrow> decimal \<Rightarrow> decimal \<Rightarrow> option_type \<Rightarrow> instant \<Rightarrow> instant \<Rightarrow> decimal res" where
  "scenario_premium m i b spot spot_5m sd now cutoff =
     (let expiry_clock = (if CLOSE_CHANGE \<le> expiry i then clock 15 30 else ist_time cutoff);
          years = ddiv (seconds_decimal (ist_at (expiry i) expiry_clock - now)) YEAR_SECONDS;
          horizon = min 2700 (dsub (seconds_decimal (cutoff - now)) 1800);
          way = (if sd = CE then 1 else - 1); move = min (18 / 1000) (max (6 / 1000) (dmul (175 / 100) \<bar>spot_5m\<bar>));
          later = dmul spot (dadd 1 (way * move))
      in bindR (implied_volatility m spot (strike i) years (ddiv (ask_price b + bid_price b) 2) sd) (\<lambda>iv.
         bindR (option_value m later (strike i) (dsub years (ddiv horizon YEAR_SECONDS)) (dmul iv (9 / 10)) sd) (\<lambda>v.
           Inr (of_int \<lfloor>ddiv v (tick_size i)\<rfloor> * tick_size i))))"

definition shock_limit :: "instrument \<Rightarrow> option_book \<Rightarrow> decimal" where
  "shock_limit i b = (let allowance = min (2 * tick_size i) (ask_price b * (4 / 1000))
     in of_int \<lfloor>ddiv (ask_price b + allowance) (tick_size i)\<rfloor> * tick_size i)"

definition outside_band :: "instrument \<Rightarrow> decimal \<Rightarrow> bool" where
  "outside_band i price = ((case lower_limit i of Some l \<Rightarrow> l \<noteq> 0 \<and> price < l | None \<Rightarrow> False)
     \<or> (case upper_limit i of Some u \<Rightarrow> u \<noteq> 0 \<and> u < price | None \<Rightarrow> False))"

definition shock_capacity :: "instrument \<Rightarrow> option_book \<Rightarrow> decimal \<Rightarrow> int" where
  "shock_capacity i b limit = min (freeze_qty i)
     (min (sum_by lv_qty (filter (\<lambda>l. lv_price l \<le> limit) (asks b)))
          (sum_by lv_qty (filter (\<lambda>l. max (tick_size i) (bid_price b - 2 * tick_size i) \<le> lv_price l) (bids b))))"

text \<open>The largest quantity before the first one that does not fit the cash.\<close>

fun last_fitting :: "(int \<Rightarrow> bool res) \<Rightarrow> int \<Rightarrow> int list \<Rightarrow> int res" where
  "last_fitting fits q [] = Inr q"
| "last_fitting fits q (n # rest) = bindR (fits n) (\<lambda>yes. if yes then last_fitting fits n rest else Inr q)"

definition shock_fits :: "decimal \<Rightarrow> decimal \<Rightarrow> decimal \<Rightarrow> int \<Rightarrow> bool res" where
  "shock_fits cash limit scenario q =
     bindR (worst_case_entry_cash default_fees q limit 1) (\<lambda>debit.
     bindR (fee_sell default_fees (of_int q * max limit scenario) 3) (\<lambda>reserve. Inr (debit + reserve \<le> cash)))"

definition size_shock :: "instrument \<Rightarrow> option_book \<Rightarrow> decimal \<Rightarrow> decimal \<Rightarrow> decimal \<Rightarrow> decimal \<Rightarrow> (string + shock_candidate) res" where
  "size_shock i b cash limit scenario spread =
     bindR (last_fitting (shock_fits cash limit scenario) 0 (py_range (lot_size i) (shock_capacity i b limit + 1) (lot_size i))) (\<lambda>q.
     if q = 0 then Inr (Inl ''NO_AFFORDABLE_LIQUID_CONTRACT'')
     else bindR (worst_case_entry_cash default_fees q limit 1) (\<lambda>entry.
          bindR (fee_sell default_fees (of_int q * max limit scenario) 3) (\<lambda>reserve.
          bindR (fee_sell default_fees (of_int q * scenario) 1) (\<lambda>sale.
          bindR (fee_buy default_fees (of_int q * limit) 1) (\<lambda>buy.
            let proceeds = of_int q * scenario - sale; multiple = ddiv proceeds entry
            in Inr (if multiple < 18 / 10 \<or> of_int q * (scenario - limit) < 3 * (buy + sale) then Inl ''SHOCK_SCENARIO_BELOW_FLOOR''
                    else Inr \<lparr>kc_instrument = i, kc_quantity = q, kc_limit = limit, kc_book = b, kc_entry = entry, kc_reserve = reserve,
                      kc_multiple = multiple, kc_ending = cash - entry + proceeds, kc_spread = spread\<rparr>))))))"

text \<open>One contract: the reason it is refused, or the candidate.\<close>

definition price_failure :: "py_error \<Rightarrow> bool" where
  "price_failure e = (case e of ValueError _ \<Rightarrow> True | InvalidOperation \<Rightarrow> True | _ \<Rightarrow> False)"

definition assess_shock ::
  "libm \<Rightarrow> evaluation \<Rightarrow> (string \<times> option_book) list \<Rightarrow> decimal \<Rightarrow> instant \<Rightarrow> instant \<Rightarrow> instant \<Rightarrow> instrument \<Rightarrow> (string + shock_candidate) res" where
  "assess_shock m signal books cash now opens closes i = (case map_of books (security_id i) of
     None \<Rightarrow> Inr (Inl ''OPTION_BOOK_UNAVAILABLE_OR_STALE'')
   | Some b \<Rightarrow>
     let age = ns now - bk_received_ns b; spread = ddiv (ask_price b - bid_price b) (ddiv (ask_price b + bid_price b) 2);
         cutoff = contract_cutoff i opens closes; limit = shock_limit i b
     in if \<not> (0 \<le> age \<and> age \<le> 2000000000) then Inr (Inl ''OPTION_BOOK_UNAVAILABLE_OR_STALE'')
        else if top_bid b = None \<or> top_ask b = None \<or> ask_price b < bid_price b then Inr (Inl ''SHOCK_INVALID_BOOK'')
        else if 15 / 1000 < spread then Inr (Inl ''SHOCK_SPREAD_TOO_WIDE'')
        else if cutoff - now < seconds 3600 then Inr (Inl ''SHOCK_EXPIRY_CUTOFF'')
        else case (ev_side signal, ev_spot signal, dget ''spot_5m'' (ev_details signal)) of
          (Some sd, Some spot, DDec spot_5m) \<Rightarrow>
            (case scenario_premium m i b spot spot_5m sd now cutoff of
               Inl e \<Rightarrow> if price_failure e then Inr (Inl ''SHOCK_IV_UNAVAILABLE'') else Inl e
             | Inr scenario \<Rightarrow>
                 if limit < ask_price b \<or> outside_band i limit then Inr (Inl ''OPTION_LIMIT_OUTSIDE_BAND'')
                 else size_shock i b cash limit scenario spread)
        | _ \<Rightarrow> Inl TypeError)"

definition check_row :: "decimal \<Rightarrow> instrument \<Rightarrow> string + shock_candidate \<Rightarrow> details" where
  "check_row cash i x = [(''security_id'', DText (security_id i)), (''strike'', DDec (strike i)), (''expiry'', DText (isoformat (expiry i))),
     (''budget'', DDec cash), (''lot_size'', DInt (lot_size i)), (''reason'', DText (case x of Inl r \<Rightarrow> r | Inr _ \<Rightarrow> ''READY''))]"

text \<open>\<open>sort(key, reverse=True)[0]\<close>: the first of the largest.\<close>

definition shock_preference :: "shock_candidate \<Rightarrow> decimal \<times> decimal \<times> int \<times> int \<times> string" where
  "shock_preference c = (kc_ending c, - kc_spread c, sum_by lv_qty (bids (kc_book c)), bk_received_ns (kc_book c), security_id (kc_instrument c))"

definition select_shock ::
  "libm \<Rightarrow> evaluation \<Rightarrow> instrument list \<Rightarrow> (string \<times> option_book) list \<Rightarrow> decimal \<Rightarrow> instant \<Rightarrow> instant \<times> instant
   \<Rightarrow> (shock_candidate option \<times> details list) res" where
  "select_shock m signal instruments books cash now hours = (case (ev_side signal, ev_spot signal) of
     (Some sd, Some spot) \<Rightarrow>
       let universe = shock_universe instruments sd spot (ist_date now)
       in if universe = [] then Inr (None, [[(''reason'', DText ''SHOCK_EXPIRY_CUTOFF''), (''budget'', DDec cash)]])
          else bindR (mapR (\<lambda>i. bindR (assess_shock m signal books cash now (fst hours) (snd hours) i) (\<lambda>x. Inr (i, x))) universe) (\<lambda>xs.
               Inr (py_max_by shock_preference (List.map_filter (\<lambda>(i, x). case x of Inr c \<Rightarrow> Some c | Inl _ \<Rightarrow> None) xs),
                    map (\<lambda>(i, x). check_row cash i x) xs))
   | _ \<Rightarrow> Inl TypeError)"

section \<open>The exit guard\<close>

record shock_guard =
  sg_peak :: decimal
  sg_floor :: decimal
  sg_armed :: bool
  sg_low :: "decimal option"
  sg_net :: "decimal option"
  sg_reason :: "string option"

definition no_guard :: shock_guard where
  "no_guard = \<lparr>sg_peak = 0, sg_floor = 0, sg_armed = False, sg_low = None, sg_net = None, sg_reason = None\<rparr>"

definition shock_trigger :: "decimal \<Rightarrow> decimal option \<Rightarrow> rat \<Rightarrow> bool \<Rightarrow> bool \<Rightarrow> decimal \<Rightarrow> decimal \<Rightarrow> bool \<Rightarrow> string option" where
  "shock_trigger entry net held_minutes invalidated armed held_floor peak deadline =
     (if invalidated then Some ''SHOCK_UNDERLYING_INVALIDATED''
      else if (case net of Some x \<Rightarrow> x \<le> - (dmul entry (4 / 10)) | None \<Rightarrow> False) then Some ''SHOCK_PREMIUM_STOP''
      else if armed \<and> (case net of Some x \<Rightarrow> x < held_floor | None \<Rightarrow> False) then Some ''SHOCK_PROFIT_FLOOR''
      else if 45 \<le> held_minutes \<and> peak < dmul entry (2 / 10) then Some ''SHOCK_NO_MOMENTUM''
      else if 120 \<le> held_minutes \<or> deadline then Some ''SHOCK_MAX_EXPOSURE''
      else None)"

definition shock_exit :: "decimal \<Rightarrow> decimal option \<Rightarrow> rat \<Rightarrow> bool \<Rightarrow> bool \<Rightarrow> shock_guard \<Rightarrow> shock_guard" where
  "shock_exit entry net held_minutes invalidated deadline old =
     (let peak = (case net of Some x \<Rightarrow> max (sg_peak old) x | None \<Rightarrow> sg_peak old);
          low = (case (net, sg_low old) of (None, l) \<Rightarrow> l | (Some x, None) \<Rightarrow> Some x | (Some x, Some l) \<Rightarrow> Some (min l x));
          armed = (sg_armed old \<or> dmul entry (8 / 10) \<le> peak);
          held_floor = (if armed then max (sg_floor old) (max (dmul peak (4 / 10)) (dsub peak (dmul entry (45 / 100)))) else 0);
          reason = (case sg_reason old of Some r \<Rightarrow> Some r
            | None \<Rightarrow> shock_trigger entry net held_minutes invalidated armed held_floor peak deadline)
      in \<lparr>sg_peak = peak, sg_floor = held_floor, sg_armed = armed, sg_low = low, sg_net = net, sg_reason = reason\<rparr>)"

end
