(* ===== verification/ShockEngine.thy ===== *)
theory ShockEngine
  imports DirectionalState ShockRules
begin

text \<open>
  The owner of the shock rule's positions, \<open>shock_engine.py\<close>: its episodes, which survive
  a restart in the ledger, its entry and its exit. The digest of a signal's details is a
  parameter; what a restart only shows again is left out.
\<close>

record 'z shock_world = "'z directional_world" +
  sw_digest :: "details \<Rightarrow> string"
  sw_episode :: "day \<Rightarrow> decimal \<Rightarrow> instant \<Rightarrow> string"
  sw_libm :: libm

section \<open>Episodes\<close>

definition side_value :: "option_type option \<Rightarrow> dval" where
  "side_value sd = (case sd of None \<Rightarrow> DNone | Some CE \<Rightarrow> DText ''CE'' | Some PE \<Rightarrow> DText ''PE'')"

definition episode_row :: "string \<Rightarrow> ledger \<Rightarrow> details" where
  "episode_row key l = (case metadata key l of Some (MData d _) \<Rightarrow> d | _ \<Rightarrow> [])"

definition feature_digest :: "(details \<Rightarrow> string) \<Rightarrow> evaluation \<Rightarrow> string" where
  "feature_digest digest x = digest (filter (\<lambda>(k, v). k \<notin> {''source_received_at'', ''source'', ''episode''}) (ev_details x))"

definition consume :: "evaluation \<Rightarrow> details \<Rightarrow> ('z runtime_scheme, unit) sm" where
  "consume signal d = bindS (liftS (signal_key signal)) (\<lambda>key. put_note (key @ '':consumed'') d [])"

definition consumed :: "evaluation \<Rightarrow> ('z runtime_scheme, bool) sm" where
  "consumed signal = bindS (liftS (signal_key signal)) (\<lambda>key. bindS getS (\<lambda>s. retS (noted (key @ '':consumed'') s)))"

definition shock_invalidate :: "('z directional_scheme, unit) sm" where
  "shock_invalidate =
     bindS getS (\<lambda>s. bindS (case sk_sample s of None \<Rightarrow> retS ()
       | Some x \<Rightarrow> bindS (consumed x) (\<lambda>b. whenS (\<not> b) (consume x [(''reason'', DText ''SHOCK_RECONNECT_INVALIDATED'')]))) (\<lambda>_.
     modifyS (\<lambda>s. s\<lparr>sk_sample := None\<rparr>)))"

text \<open>The first observation of an episode is kept: later qualifying bars cannot renew it.\<close>

definition first_seen :: "string \<Rightarrow> evaluation \<Rightarrow> ('z directional_scheme, evaluation) sm" where
  "first_seen episode x = bindS getS (\<lambda>s.
     let x = x\<lparr>ev_details := dmerge (ev_details x) [(''episode'', DText episode)]\<rparr>; row = episode_row (''shock-first:'' @ episode) (rt_ledger s)
     in case (dget ''bar_at'' row, map_of row ''received_at'') of
          (DTime t, Some received) \<Rightarrow> retS (x\<lparr>ev_at := t, ev_details := dmerge (ev_details x) [(''source_received_at'', received)]\<rparr>)
        | _ \<Rightarrow> bindS (put_note (''shock-first:'' @ episode)
                  [(''bar_at'', DTime (ev_at x)), (''received_at'', dget ''source_received_at'' (ev_details x))] []) (\<lambda>_. retS x))"

definition same_bar :: "string \<Rightarrow> evaluation \<Rightarrow> details \<Rightarrow> bool" where
  "same_bar dig x old = (dget ''conflicted'' old \<noteq> DBool True \<and> dget ''feature_digest'' old = DText dig
     \<and> dget ''qualifying'' old = DBool (ev_state x = ''SIGNAL'') \<and> dget ''side'' old = side_value (ev_side x))"

text \<open>The episode of a new bar: the running one while the same side keeps qualifying.\<close>

definition next_episode :: "'z directional_scheme shock_world \<Rightarrow> evaluation \<Rightarrow> details \<Rightarrow> string option" where
  "next_episode w x old =
     (let new = ev_state x = ''SIGNAL'' in
      if \<not> new then None
      else case dget ''episode'' old of
        DText e \<Rightarrow> if dget ''qualifying'' old = DBool True \<and> dget ''side'' old = side_value (ev_side x) \<and> e \<noteq> [] then Some e
                   else Some (sw_episode w (ist_date (ev_at x)) (if ev_side x = Some CE then 1 else - 1) (ev_at x))
      | _ \<Rightarrow> Some (sw_episode w (ist_date (ev_at x)) (if ev_side x = Some CE then 1 else - 1) (ev_at x)))"

definition keep_sample :: "string option \<Rightarrow> evaluation \<Rightarrow> ('z directional_scheme, evaluation) sm" where
  "keep_sample episode x =
     (if ev_state x \<noteq> ''SIGNAL'' then bindS (modifyS (\<lambda>s. s\<lparr>sk_sample := None\<rparr>)) (\<lambda>_. retS x)
      else case episode of None \<Rightarrow> raiseS TypeError | Some e \<Rightarrow>
        bindS (first_seen e x) (\<lambda>x. bindS (modifyS (\<lambda>s. s\<lparr>sk_sample := Some x\<rparr>)) (\<lambda>_. retS x)))"

definition shock_update :: "'z directional_scheme shock_world \<Rightarrow> evaluation \<Rightarrow> ('z directional_scheme, evaluation option) sm" where
  "shock_update w x = bindS getS (\<lambda>s.
     let key = ''shock-episode:'' @ isoformat (ist_date (ev_at x)); old = episode_row key (rt_ledger s);
         dig = feature_digest (sw_digest w) x; new = (ev_state x = ''SIGNAL'')
     in if ev_state x \<in> {''INPUT_UNAVAILABLE'', ''WAITING''} then retS (Some x)
        else if (case dget ''bar_at'' old of DTime t \<Rightarrow> ev_at x < t | _ \<Rightarrow> False) then retS None
        else if dget ''bar_at'' old = DTime (ev_at x) then
          (if \<not> same_bar dig x old
           then bindS (modifyS (\<lambda>s. s\<lparr>sk_reason := ''SHOCK_BAR_CONFLICT''\<rparr>)) (\<lambda>_.
                bindS shock_invalidate (\<lambda>_.
                bindS (put_note key (dmerge old [(''conflicted'', DBool True)]) []) (\<lambda>_.
                  retS (Some (x\<lparr>ev_state := ''INPUT_UNAVAILABLE'', ev_reason := ''SHOCK_BAR_CONFLICT'', ev_side := None\<rparr>)))))
           else bindS (keep_sample (case dget ''episode'' old of DText e \<Rightarrow> Some e | _ \<Rightarrow> None) x) (\<lambda>x. retS (Some x)))
        else let episode = next_episode w x old
             in bindS (put_note key [(''bar_at'', DTime (ev_at x)), (''qualifying'', DBool new), (''side'', side_value (ev_side x)),
                  (''episode'', case episode of Some e \<Rightarrow> DText e | None \<Rightarrow> DNone), (''feature_digest'', DText dig)] []) (\<lambda>_.
                bindS (keep_sample episode x) (\<lambda>x. retS (Some x))))"

section \<open>Whether a signal still holds\<close>

definition future_ready :: "instant \<Rightarrow> 'z directional_scheme \<Rightarrow> bool" where
  "future_ready now s = (dr_future s = Some True \<and> future_current (se_tape s) now)"

definition way_of :: "evaluation \<Rightarrow> decimal" where
  "way_of x = (if ev_side x = Some CE then 1 else - 1)"

definition still_moving :: "evaluation \<Rightarrow> inputs \<Rightarrow> 'z directional_scheme \<Rightarrow> bool res" where
  "still_moving x d s = (case map_of (ip_future_bars d) (ev_at x - minutes 5) of
     None \<Rightarrow> Inr False
   | Some base \<Rightarrow> if tp_future (se_tape s) = [] then Inr False
       else bindR (qdiv (snd (last (tp_future (se_tape s)))) (br_close base)) (\<lambda>q. Inr (1 / 1000 \<le> way_of x * dsub q 1)))"

definition spot_beyond :: "instant \<Rightarrow> evaluation \<Rightarrow> 'z directional_scheme \<Rightarrow> bool res" where
  "spot_beyond now x s = (case dr_live_spot s of
     None \<Rightarrow> Inr True
   | Some (value, received) \<Rightarrow>
       if \<not> (0 \<le> ns now - received \<and> ns now - received \<le> 2000000000) then Inr False
       else bindR (required_decimal ''breakout_boundary'' (ev_details x)) (\<lambda>boundary. Inr (0 < way_of x * (value - boundary))))"

definition shock_valid :: "instant \<Rightarrow> evaluation \<Rightarrow> 'z directional_scheme \<Rightarrow> bool res" where
  "shock_valid now x s = (case dr_inputs s of
     None \<Rightarrow> Inr False
   | Some d \<Rightarrow>
       if ip_error d \<noteq> [] \<or> (case ip_calendar d of None \<Rightarrow> True | Some c \<Rightarrow> \<not> is_open c now) then Inr False
       else if \<not> (0 \<le> now - ev_at x \<and> now - ev_at x \<le> seconds 30) then Inr False
       else if \<not> future_ready now s
            \<or> (case sk_sample s of None \<Rightarrow> True | Some y \<Rightarrow> dget ''episode'' (ev_details y) \<noteq> dget ''episode'' (ev_details x)) then Inr False
       else bindR (still_moving x d s) (\<lambda>moving.
            if \<not> moving then Inr False
            else bindR (spot_beyond now x s) (\<lambda>beyond.
                 Inr (beyond \<and> (case map_of (ip_evaluations d) SHOCK of
                    None \<Rightarrow> False | Some y \<Rightarrow> ev_state y = ''SIGNAL'' \<and> ev_side y = ev_side x)))))"

section \<open>Entry\<close>

text \<open>A submission whose last check may itself change the state.\<close>

definition submit_when ::
  "('z engine_scheme, 'e) cycle_world_scheme \<Rightarrow> intent \<Rightarrow> decimal \<Rightarrow> ('z engine_scheme, bool) sm \<Rightarrow> ('z engine_scheme, unit) sm" where
  "submit_when w n reserved check =
     bindS (modifyS (cw_dispatch_gap w)) (\<lambda>_.
     bindS check (\<lambda>ready.
     bindS getS (\<lambda>s.
     bindS (on_oms (submit (md_account_id (rt_mandate s)) (cw_now w) (cw_timestamp w) (cw_attempt w) n reserved ready
       (cw_sale_positions w) (cw_reply w))) (\<lambda>_. retS ()))))"

definition new_note :: "string \<Rightarrow> details \<Rightarrow> ledger \<Rightarrow> ledger res" where
  "new_note key d l = bindR (insert_row fst (key, MData d []) (lg_metadata l)) (\<lambda>rows. Inr (l\<lparr>lg_metadata := rows\<rparr>))"

text \<open>The lifecycle and the two marks that consume its signal, in one transaction.\<close>

definition open_directional :: "lifecycle_row \<Rightarrow> string \<Rightarrow> string \<Rightarrow> ledger \<Rightarrow> (unit \<times> ledger) res" where
  "open_directional c key family l =
     bindR (insert_row lc_id c (lg_lifecycles l)) (\<lambda>cs.
     bindR (new_note key [(''lifecycle'', DText (lc_id c)), (''reason'', DText ''DECISION_COMMITTED'')] (l\<lparr>lg_lifecycles := cs\<rparr>)) (\<lambda>l.
     bindR (new_note family [(''lifecycle'', DText (lc_id c)), (''strategy'', DText (lc_strategy c))] l) (\<lambda>l. Inr ((), l))))"

definition foreign_holding :: "jrow list \<Rightarrow> bool res" where
  "foreign_holding rows = foreign_position None rows"

definition rejection_reason :: "details list \<Rightarrow> string" where
  "rejection_reason checks =
     (let reasons = remdups (map (dget ''reason'') checks)
      in if DText ''SHOCK_SCENARIO_BELOW_FLOOR'' \<in> set reasons then ''SHOCK_SCENARIO_BELOW_FLOOR''
         else case reasons of [DText r] \<Rightarrow> if r = [] then ''NO_AFFORDABLE_LIQUID_CONTRACT'' else r | _ \<Rightarrow> ''NO_AFFORDABLE_LIQUID_CONTRACT'')"

definition shock_budget :: "allocation \<Rightarrow> decimal" where
  "shock_budget a = (let x = min (remaining a) (al_spendable a)
     in case selected_cap_remaining a of None \<Rightarrow> x | Some cap \<Rightarrow> min x cap)"

definition set_sk_reason :: "string \<Rightarrow> ('z directional_scheme, unit) sm" where
  "set_sk_reason r = modifyS (\<lambda>s. s\<lparr>sk_reason := r\<rparr>)"

definition choose_shock ::
  "'z directional_scheme shock_world \<Rightarrow> evaluation \<Rightarrow> decimal \<Rightarrow> ('z directional_scheme, shock_candidate option) sm" where
  "choose_shock w signal budget = bindS getS (\<lambda>s.
     case bindR (case calendar_of s of Some c \<Rightarrow> Inr c | None \<Rightarrow> Inl TypeError) (\<lambda>c.
            case (cl_opens c, cl_closes c) of
              (Some opens, Some closes) \<Rightarrow>
                select_shock (sw_libm w) signal (dr_instruments s) (en_books s) budget (dw_mid w) (opens, closes)
            | _ \<Rightarrow> Inl TypeError) of
       Inl e \<Rightarrow> raiseS e
     | Inr (chosen, checks) \<Rightarrow>
         bindS (modifyS (\<lambda>s. s\<lparr>sk_checks := checks, sk_assessed_at := Some (dw_mid w), sk_signal_at := Some (ev_at signal)\<rparr>)) (\<lambda>_.
         case chosen of
           None \<Rightarrow> bindS (set_sk_reason (rejection_reason checks)) (\<lambda>_.
                   bindS (record_assessment (dw_mid w) signal (rejection_reason checks) checks) (\<lambda>_. retS None))
         | Some c \<Rightarrow> bindS (record_assessment (dw_mid w) signal ''READY'' checks) (\<lambda>_.
                     bindS (set_sk_reason ''READY'') (\<lambda>_. retS (Some c)))))"

definition shock_selection :: "instant \<Rightarrow> decimal \<Rightarrow> shock_candidate \<Rightarrow> details" where
  "shock_selection now budget c = [(''evaluated_at'', DTime now), (''mode'', DText ''DECLARED_CONTINUATION_SCENARIO''),
     (''reason'', DText ''SCENARIO_ONLY_NOT_EXPECTED_RETURN''), (''selected'', DText SHOCK), (''entry_cash'', DDec (kc_entry c)),
     (''scenario_multiple'', DDec (kc_multiple c)), (''budget'', DDec budget)]"

text \<open>The last look before the order leaves.\<close>

definition shock_still_current ::
  "'z directional_scheme shock_world \<Rightarrow> evaluation \<Rightarrow> shock_candidate \<Rightarrow> decimal \<Rightarrow> ('z directional_scheme, bool) sm" where
  "shock_still_current w signal c budget =
     bindS (permit_entry False SHOCK) (\<lambda>permitted.
     if \<not> permitted then retS False
     else bindS getS (\<lambda>s. bindS (liftS (shock_valid (cw_later w) signal s)) (\<lambda>valid.
       retS (valid \<and> map_of (en_books s) (security_id (kc_instrument c)) = Some (kc_book c)
         \<and> book_current (cw_later w) (Some (kc_book c)) s \<and> kc_entry c + kc_reserve c \<le> budget))))"

definition commit_shock ::
  "'z directional_scheme shock_world \<Rightarrow> evaluation \<Rightarrow> shock_candidate \<Rightarrow> allocation \<Rightarrow> decimal \<Rightarrow> ('z directional_scheme, bool) sm" where
  "commit_shock w signal c a budget = bindS getS (\<lambda>s.
     let i = kc_instrument c; lifecycle = CHR ''l'' # cw_uuid w in
     let n = \<lparr>in_id = CHR ''i'' # cw_uuid w, in_side = BUY, in_instrument = i, in_quantity = kc_quantity c, in_limit_price = kc_limit c,
           in_client_order_id = CHR ''e'' # take 28 (cw_uuid w), in_created_at = dw_mid w, in_lifecycle_id = lifecycle\<rparr>;
         row = \<lparr>lc_id = lifecycle, lc_session = session_id s, lc_security = security_id i, lc_bankroll = bankroll a, lc_state = ''OPEN'',
           lc_strategy = SHOCK, lc_instrument = i, lc_signal_at = Some (ev_at signal), lc_exit_at = ev_exit_at signal,
           lc_details = ev_details signal, lc_retain = None, lc_side = ev_side signal, lc_shock = Some ''SHOCK_EXIT_V1''\<rparr>
     in bindS (modifyS (\<lambda>s. s\<lparr>dr_selection := (shock_selection (dw_mid w) budget c, [])\<rparr>)) (\<lambda>_.
        bindS (put_note (''strategy-selection:'' @ isoformat (ist_date (cw_now w))) (shock_selection (dw_mid w) budget c) []) (\<lambda>_.
        bindS (liftS (check_intent n)) (\<lambda>n.
        bindS (liftS (signal_key signal)) (\<lambda>key.
        bindS (liftS (family_key signal)) (\<lambda>family.
        bindS (on_oms (onledger (open_directional row (key @ '':consumed'') family))) (\<lambda>_.
        bindS (on_oms (onledger (observe (''decision:'' @ in_id n) ''ENTRY_DECISION''))) (\<lambda>_.
        bindS (submit_when w n (reserve_cash (kc_entry c + kc_reserve c)) (shock_still_current w signal c budget)) (\<lambda>_.
        bindS (set_status (\<lambda>t. t\<lparr>rs_state := ''ENTRY_PENDING'', rs_reason := SHOCK @ '':ENTRY_SUBMITTED''\<rparr>)) (\<lambda>_. retS True))))))))))"

definition cooling_down :: "instant \<Rightarrow> ledger \<Rightarrow> bool" where
  "cooling_down now l = (case dget ''value'' (episode_row ''shock-last-closed'' l) of DTime t \<Rightarrow> now - t < minutes 15 | _ \<Rightarrow> False)"

definition refuse_shock :: "instant \<Rightarrow> evaluation \<Rightarrow> string \<Rightarrow> ('z directional_scheme, bool) sm" where
  "refuse_shock now signal reason =
     bindS (set_sk_reason reason) (\<lambda>_. bindS (record_assessment now signal reason []) (\<lambda>_. retS False))"

text \<open>Everything from the funds on.\<close>

definition fund_shock :: "'z directional_scheme shock_world \<Rightarrow> evaluation \<Rightarrow> ('z directional_scheme, bool) sm" where
  "fund_shock w signal =
     bindS (liftS (cw_funds w)) (\<lambda>funds.
     bindS (modifyS (cw_funds_gap w)) (\<lambda>_.
     bindS getS (\<lambda>s.
     if broker_account funds \<noteq> md_account_id (rt_mandate s) then retS False
     else bindS (liftS (shock_valid (dw_mid w) signal s)) (\<lambda>valid.
     if \<not> valid then retS False
     else bindS (permit_entry False SHOCK) (\<lambda>permitted.
     if \<not> permitted then retS False
     else bindS (liftS (allocate (rt_mandate s) (session_id s) (rt_ledger s) funds None)) (\<lambda>a.
     let a = shock_allocation a; budget = shock_budget a in
     bindS (choose_shock w signal budget) (\<lambda>chosen. case chosen of
         None \<Rightarrow> retS False
       | Some c \<Rightarrow> commit_shock w signal c a budget)))))))"

definition shock_enter :: "'z directional_scheme shock_world \<Rightarrow> snapshot \<Rightarrow> ('z directional_scheme, bool) sm" where
  "shock_enter w snap = bindS getS (\<lambda>s. let now = cw_now w in
     if SHOCK \<notin> set (dr_enabled s) \<or> SHOCK \<notin> set (rt_enabled s) then retS False
     else case sk_sample s of None \<Rightarrow> retS False | Some signal \<Rightarrow>
       bindS (consumed signal) (\<lambda>done.
       if done then retS False
       else if ev_at signal + seconds 30 < now
       then bindS (consume signal [(''reason'', DText ''ENTRY_DEADLINE_MISSED'')]) (\<lambda>_.
            bindS (set_sk_reason ''ENTRY_DEADLINE_MISSED'') (\<lambda>_. retS False))
       else bindS get_active (\<lambda>active.
       if active \<noteq> None \<or> sn_unresolved snap \<or> pending_intents (rt_ledger s) \<noteq> [] then retS False
       else bindS (liftS (foreign_holding (sn_positions snap))) (\<lambda>foreign.
       if foreign then retS False
       else if cooling_down now (rt_ledger s) then refuse_shock now signal ''SHOCK_COOLDOWN''
       else bindS (permit_entry False SHOCK) (\<lambda>permitted.
       if \<not> permitted then refuse_shock now signal ''ENTRY_NOT_PERMITTED''
       else bindS (liftS (shock_valid now signal s)) (\<lambda>valid.
       if \<not> valid then refuse_shock now signal ''FUTURES_FEED_UNAVAILABLE''
       else fund_shock w signal))))))"

section \<open>Exit\<close>

text \<open>The guard as the ledger keeps it, with what was measured beside it.\<close>

definition opt_text :: "string option \<Rightarrow> dval" where
  "opt_text x = (case x of None \<Rightarrow> DNone | Some t \<Rightarrow> DText t)"

definition guard_details :: "shock_guard \<Rightarrow> details" where
  "guard_details g = [(''peak_net_profit'', DDec (sg_peak g)), (''floor'', DDec (sg_floor g)), (''trailing_armed'', DBool (sg_armed g)),
     (''minimum_net_profit'', opt_dec (sg_low g)), (''net_liquidation_profit'', opt_dec (sg_net g)), (''triggered_reason'', opt_text (sg_reason g))]"

definition dec_of :: "string \<Rightarrow> details \<Rightarrow> decimal option" where
  "dec_of k d = (case dget k d of DDec x \<Rightarrow> Some x | _ \<Rightarrow> None)"

definition guard_of :: "details \<Rightarrow> shock_guard" where
  "guard_of d = \<lparr>sg_peak = (case dec_of ''peak_net_profit'' d of Some x \<Rightarrow> x | None \<Rightarrow> 0),
     sg_floor = (case dec_of ''floor'' d of Some x \<Rightarrow> x | None \<Rightarrow> 0), sg_armed = (dget ''trailing_armed'' d = DBool True),
     sg_low = dec_of ''minimum_net_profit'' d, sg_net = dec_of ''net_liquidation_profit'' d,
     sg_reason = (case dget ''triggered_reason'' d of DText t \<Rightarrow> Some t | _ \<Rightarrow> None)\<rparr>"

definition buy_fills :: "string \<Rightarrow> ledger \<Rightarrow> fill_row list" where
  "buy_fills lifecycle l = sort_key fr_occurred (fills_on BUY l lifecycle)"

definition shock_entry_cash :: "totals \<Rightarrow> fill_row list \<Rightarrow> decimal res" where
  "shock_entry_cash t fs =
     bindR (fee_buy default_fees (turnover_of fs) (int (card (set (map fr_order fs))))) (\<lambda>fees.
       Inr (max (entry_debit_total t) (turnover_of fs + fees)))"

text \<open>\<open>ceil(quantity/freeze)\<close>, in doubles.\<close>

definition ceil_ratio :: "int \<Rightarrow> int \<Rightarrow> int" where
  "ceil_ratio q f = \<lceil>dbl (of_int q / of_int f)\<rceil>"

text \<open>The underlying has fallen back: two closes inside the boundary, or a fast adverse move.\<close>

definition shock_invalidated :: "lifecycle_row \<Rightarrow> instant \<Rightarrow> instant \<Rightarrow> inputs \<Rightarrow> bool res" where
  "shock_invalidated c first now d =
     (let spot = ip_spot_bars d; post = sort (filter (\<lambda>t. first < t \<and> t \<le> now) (map fst spot));
          way = (if lc_side c = Some CE then 1 else - 1)
      in bindR (required_decimal ''breakout_boundary'' (lc_details c)) (\<lambda>boundary.
         bindR (case rev post of
             t # u # _ \<Rightarrow> if t - u = minutes 1
                 then bindR (mapR (bar_at spot) [u, t]) (\<lambda>bs. Inr (list_all (\<lambda>b. way * (br_close b - boundary) < 0) bs)) else Inr False
           | _ \<Rightarrow> Inr False) (\<lambda>back.
         bindR (case rev post of
             t # _ \<Rightarrow> if has_bar spot (t - minutes 5) then bindR (change spot t) (\<lambda>x. Inr (way * x \<le> - (2 / 1000))) else Inr False
           | [] \<Rightarrow> Inr False) (\<lambda>fast. Inr (back \<or> fast)))))"

text \<open>The net profit of selling the whole position now, when the displayed depth reaches for it.\<close>

definition shock_net :: "instrument \<Rightarrow> int \<Rightarrow> totals \<Rightarrow> decimal \<Rightarrow> option_book \<Rightarrow> decimal option res" where
  "shock_net i q t entry b =
     bindR (sell_limit b False) (\<lambda>limit.
       let slices = executable_sale_units (b\<lparr>bids := filter (\<lambda>l. limit \<le> lv_price l) (bids b)\<rparr>) q;
           proceeds = sum_by (\<lambda>(n, p). of_int n * max limit (p - 2 * tick_size i)) slices
       in if sum_by fst slices \<noteq> q then Inr None
          else bindR (fee_sell default_fees proceeds (ceil_ratio q (freeze_qty i))) (\<lambda>fees.
                 Inr (Some (sale_credit t + proceeds - fees - entry))))"

definition measured_details :: "decimal \<Rightarrow> fill_row list \<Rightarrow> instant \<Rightarrow> int \<Rightarrow> bool \<Rightarrow> details" where
  "measured_details entry fs now q quoted = [(''entry_cash'', DDec entry),
     (''actual_average_entry'', DDec (ddiv (turnover_of fs) (of_int (sum_by fr_quantity fs)))),
     (''first_fill_at'', DTime (fr_occurred (hd fs))), (''observed_at'', DTime now), (''held_quantity'', DInt q), (''quote_executable'', DBool quoted)]"

definition guard_changed :: "details option \<Rightarrow> details \<Rightarrow> instant \<Rightarrow> bool" where
  "guard_changed old new now = (case old of None \<Rightarrow> True | Some d \<Rightarrow>
     list_ex (\<lambda>k. dget k new \<noteq> dget k d) [''peak_net_profit'', ''minimum_net_profit'', ''floor'', ''triggered_reason'', ''held_quantity'']
     \<or> (case dget ''observed_at'' d of DTime t \<Rightarrow> seconds 1 \<le> now - t | _ \<Rightarrow> True))"

text \<open>Sending the reduction of a latched exit, once there is a session and a current bid.\<close>

definition latched_exit ::
  "('z directional_scheme, 'e) cycle_world_scheme \<Rightarrow> instrument \<Rightarrow> int \<Rightarrow> string \<Rightarrow> ('z directional_scheme, bool) sm" where
  "latched_exit w i q lifecycle = bindS getS (\<lambda>s.
     if (case calendar_of s of None \<Rightarrow> True | Some c \<Rightarrow> \<not> is_open c (cw_now w))
     then bindS (set_reason ''EXIT_LATCHED_WAITING_EXCHANGE_SESSION'') (\<lambda>_. retS False)
     else case map_of (en_books s) (security_id i) of
         None \<Rightarrow> bindS (set_reason ''EXIT_LATCHED_WAITING_CURRENT_BOOK'') (\<lambda>_. retS False)
       | Some b \<Rightarrow>
           if \<not> book_current (cw_now w) (Some b) s \<or> top_bid b = None
           then bindS (set_reason ''EXIT_LATCHED_WAITING_CURRENT_BOOK'') (\<lambda>_. retS False)
           else bindS (reduce (cycle_world.truncate w) i q b lifecycle False) (\<lambda>_.
                bindS (set_state ''EXIT_PENDING'') (\<lambda>_. retS True)))"

definition shock_manage ::
  "'z directional_scheme shock_world \<Rightarrow> lifecycle_row \<Rightarrow> totals \<Rightarrow> int \<Rightarrow> ('z directional_scheme, bool) sm" where
  "shock_manage w c t q = bindS getS (\<lambda>s.
     let now = cw_now w; i = lc_instrument c; fs = buy_fills (lc_id c) (rt_ledger s); first = fr_occurred (hd fs); key = ''shock-exit:'' @ lc_id c in
     bindS (guardS (lc_shock c = Some ''SHOCK_EXIT_V1'') (ValueError ''unknown shock exit policy'')) (\<lambda>_.
     bindS (liftS (shock_entry_cash t fs)) (\<lambda>entry.
     bindS (guardS (fs \<noteq> []) IndexError) (\<lambda>_.
     bindS (liftS (case dr_inputs s of None \<Rightarrow> Inr False | Some d \<Rightarrow> shock_invalidated c first now d)) (\<lambda>invalid.
     bindS (liftS (case map_of (en_books s) (security_id i) of
         Some b \<Rightarrow> if book_current now (Some b) s \<and> top_bid b \<noteq> None then shock_net i q t entry b else Inr None
       | None \<Rightarrow> Inr None)) (\<lambda>net.
     let old = (case metadata key (rt_ledger s) of Some (MData d _) \<Rightarrow> Some d | _ \<Rightarrow> None);
         held_minutes = dbl (dbl (of_int (now - first) / 1000000) / 60);
         g = shock_exit entry net held_minutes invalid (case lc_exit_at c of Some e \<Rightarrow> e \<le> now | None \<Rightarrow> False)
               (case old of Some d \<Rightarrow> guard_of d | None \<Rightarrow> no_guard);
         row = guard_details g @ measured_details entry fs now q (net \<noteq> None)
     in bindS (whenS (guard_changed old row now) (put_note key row [])) (\<lambda>_.
        bindS (set_status (\<lambda>st. st\<lparr>rs_state := ''POSITION_OPEN'', rs_reason := SHOCK @ '':'' @ (case sg_reason g of Some r \<Rightarrow> r | None \<Rightarrow> ''HOLDING'')\<rparr>)) (\<lambda>_.
        case sg_reason g of
          None \<Rightarrow> retS False
        | Some r \<Rightarrow> bindS (put_meta (''directional-exit:'' @ lc_id c) (MExit r now)) (\<lambda>_. latched_exit w i q (lc_id c))))))))))"

end
