(* ===== verification/Directional.thy ===== *)
theory Directional
  imports ShockEngine
begin

text \<open>
  The owner of rule-driven positions, \<open>directional.py\<close>: the signals it takes, the contract
  it buys, the choice between competing signals and the position it manages. Its view for
  the dashboard is left out.
\<close>

section \<open>Configuration\<close>

definition enabled_rules :: "string list \<Rightarrow> string list" where
  "enabled_rules chosen = filter (\<lambda>n. n \<noteq> CAS \<and> n \<in> set chosen) STRATEGIES"

definition retain_policy :: "decimal option \<Rightarrow> decimal option res" where
  "retain_policy x = (case x of None \<Rightarrow> Inr None
     | Some r \<Rightarrow> if 0 < r \<and> r < 1 then Inr x else Inl (ValueError ''invalid explicit profit-retention policy''))"

section \<open>Signals\<close>

definition inputs_of :: "'z directional_scheme \<Rightarrow> evaluation option list" where
  "inputs_of s = (case dr_inputs s of None \<Rightarrow> [] | Some d \<Rightarrow>
     map (map_of (ip_evaluations d)) (filter (\<lambda>n. n \<notin> set SECONDS_NAMES) (dr_enabled s)))"

text \<open>The first signal of a day is kept; recovery never reconstitutes one.\<close>

definition take_signal :: "evaluation \<Rightarrow> ('z directional_scheme, unit) sm" where
  "take_signal x =
     bindS (liftS (signal_key x)) (\<lambda>key. bindS getS (\<lambda>s.
     if map_of (dr_signals s) key \<noteq> None then retS ()
     else let old = episode_row key (rt_ledger s) in
       if old \<noteq> [] \<and> dget ''evaluated_at'' old \<noteq> DTime (ev_at x) then retS ()
       else bindS (whenS (old = []) (put_note key [(''strategy'', DText (ev_strategy x)), (''evaluated_at'', DTime (ev_at x)),
                (''side'', side_value (ev_side x))] [])) (\<lambda>_.
            modifyS (\<lambda>s. s\<lparr>dr_signals := dr_signals s @ [(key, x)]\<rparr>))))"

definition take_sample :: "'z directional_scheme shock_world \<Rightarrow> evaluation option \<Rightarrow> ('z directional_scheme, unit) sm" where
  "take_sample w x = (case x of None \<Rightarrow> retS () | Some x \<Rightarrow>
     bindS (if ev_strategy x = SHOCK then shock_update w x else retS (Some x)) (\<lambda>y.
     case y of None \<Rightarrow> retS () | Some y \<Rightarrow> whenS (ev_state y = ''SIGNAL'') (take_signal y)))"

definition update_inputs :: "'z directional_scheme shock_world \<Rightarrow> inputs \<Rightarrow> ('z directional_scheme, unit) sm" where
  "update_inputs w d =
     bindS (modifyS (\<lambda>s. s\<lparr>dr_inputs := Some d\<rparr>)) (\<lambda>_. bindS getS (\<lambda>s. iterS (take_sample w) (inputs_of s)))"

section \<open>The contract of a minute signal\<close>

text \<open>The nearest expiry's four strikes from the money outwards.\<close>

definition atm_ladder :: "instrument list \<Rightarrow> option_type \<Rightarrow> day \<Rightarrow> decimal \<Rightarrow> instrument list" where
  "atm_ladder instruments sd least spot =
     (let eligible = filter (\<lambda>i. otype i = sd \<and> least \<le> expiry i) instruments;
          nearest_expiry = filter (\<lambda>i. expiry i = Min (set (map expiry eligible))) eligible;
          way = (if sd = CE then 1 else - 1)
      in case sort_key (\<lambda>i. (\<bar>strike i - spot\<bar>, strike i, security_id i)) nearest_expiry of
           [] \<Rightarrow> []
         | a # _ \<Rightarrow> take 4 (sort_key (\<lambda>i. (way * (strike i - strike a), security_id i))
                      (filter (\<lambda>i. 0 \<le> way * (strike i - strike a)) nearest_expiry)))"

definition option_bars :: "inputs \<Rightarrow> string \<Rightarrow> instant \<Rightarrow> bar list option" where
  "option_bars d security t0 = (case map_of (ip_option_bars d) security of
     None \<Rightarrow> None | Some rows \<Rightarrow> known (mapR (bar_at rows) (minutes_back t0 [0, 1, 2])))"

definition fixed_limit :: "instrument \<Rightarrow> decimal \<Rightarrow> decimal" where
  "fixed_limit i close = of_int \<lceil>ddiv (dmul close (105 / 100)) (tick_size i)\<rceil> * tick_size i"

text \<open>The cash of an entry with the reserve for an exit at twice the price.\<close>

definition entry_with_exit :: "int \<Rightarrow> decimal \<Rightarrow> decimal res" where
  "entry_with_exit q limit =
     bindR (worst_case_entry_cash default_fees q limit 1) (\<lambda>debit.
     bindR (fee_sell default_fees (of_int q * limit * 2) 3) (\<lambda>reserve. Inr (debit + reserve)))"

definition minute_capacity :: "instrument \<Rightarrow> option_book \<Rightarrow> int \<Rightarrow> decimal \<Rightarrow> int" where
  "minute_capacity i b least_volume limit = min (freeze_qty i)
     (min (trunc (dmul (of_int least_volume) (5 / 100))) (sum_by lv_qty (filter (\<lambda>l. lv_price l \<le> limit) (asks b))))"

datatype contract_verdict = NextContract string | NoContract string | Ready int decimal option_book

definition try_contract ::
  "inputs \<Rightarrow> 'z directional_scheme \<Rightarrow> instant \<Rightarrow> evaluation \<Rightarrow> decimal \<Rightarrow> instrument \<Rightarrow> contract_verdict res" where
  "try_contract d s now signal budget i = (case option_bars d (security_id i) (ev_at signal) of
     Some [b0, b1, b2] \<Rightarrow>
       let least_volume = min (br_volume b0) (min (br_volume b1) (br_volume b2)); limit = fixed_limit i (br_close b0)
       in if least_volume < lot_size i * 20 \<or> br_oi b0 < lot_size i * 10 then Inr (NextContract ''OPTION_LIQUIDITY_BELOW_POLICY'')
          else if limit \<le> 0 \<or> outside_band i limit then Inr (NextContract ''OPTION_LIMIT_OUTSIDE_BAND'')
          else bindR (entry_with_exit (lot_size i) limit) (\<lambda>minimum_cash.
            if budget < minimum_cash then Inr (NextContract ''ONE_LOT_UNAFFORDABLE'')
            else case map_of (en_books s) (security_id i) of
              None \<Rightarrow> Inr (NoContract ''OPTION_BOOK_UNAVAILABLE_OR_STALE'')
            | Some b \<Rightarrow>
              if \<not> book_ready now (Some b) s then Inr (NoContract ''OPTION_BOOK_UNAVAILABLE_OR_STALE'')
              else bindR (last_fitting (\<lambda>q. bindR (entry_with_exit q limit) (\<lambda>cash. Inr (cash \<le> budget))) 0
                     (py_range (lot_size i) (minute_capacity i b least_volume limit + 1) (lot_size i))) (\<lambda>q.
                   Inr (if q \<noteq> 0 then Ready q limit b
                        else if limit < ask_price b then NoContract ''FIXED_LIMIT_ALREADY_MISSED''
                        else NextContract ''OPTION_DEPTH_BELOW_ONE_LOT'')))
   | _ \<Rightarrow> Inr (NoContract ''OPTION_MINUTES_UNAVAILABLE''))"

text \<open>The ladder is tried in order: the checks made, the reason of the last, and the candidate.\<close>

definition check_of :: "decimal \<Rightarrow> instrument \<Rightarrow> string \<Rightarrow> details" where
  "check_of budget i reason = [(''security_id'', DText (security_id i)), (''strike'', DDec (strike i)), (''budget'', DDec budget), (''reason'', DText reason)]"

fun try_ladder :: "(instrument \<Rightarrow> contract_verdict res) \<Rightarrow> decimal \<Rightarrow> instrument list \<Rightarrow> (details list \<times> (string + candidate)) res" where
  "try_ladder f budget [] = Inr ([], Inl ''NO_AFFORDABLE_LIQUID_CONTRACT'')"
| "try_ladder f budget (i # is) = bindR (f i) (\<lambda>v. case v of
     Ready q limit b \<Rightarrow> Inr ([check_of budget i ''READY''], Inr (i, q, limit, b))
   | NoContract reason \<Rightarrow> Inr ([check_of budget i reason], Inl reason)
   | NextContract reason \<Rightarrow> bindR (try_ladder f budget is) (\<lambda>(checks, x). Inr (check_of budget i reason # checks, x)))"

definition known_instruments :: "'z directional_scheme \<Rightarrow> instrument list" where
  "known_instruments s = (if dr_instruments s \<noteq> [] then dr_instruments s else map (\<lambda>(k, b). instr b) (en_books s))"

definition minute_candidate :: "instant \<Rightarrow> evaluation \<Rightarrow> allocation \<Rightarrow> ('z directional_scheme, candidate option) sm" where
  "minute_candidate now signal a = bindS getS (\<lambda>s.
     case (dr_inputs s, ev_side signal, ev_minimum_expiry signal, ev_spot signal) of
       (Some d, Some sd, Some least, Some spot) \<Rightarrow>
         (case atm_ladder (known_instruments s) sd least spot of
            [] \<Rightarrow> bindS (modifyS (\<lambda>s. s\<lparr>dr_checks := []\<rparr>)) (\<lambda>_. retS None)
          | ladder \<Rightarrow>
              bindS (liftS (try_ladder (try_contract d s now signal (entry_budget a)) (entry_budget a) ladder)) (\<lambda>(checks, x).
              bindS (modifyS (\<lambda>s. s\<lparr>dr_checks := checks\<rparr>)) (\<lambda>_.
              case x of Inr c \<Rightarrow> retS (Some c) | Inl reason \<Rightarrow> bindS (set_dr_reason reason) (\<lambda>_. retS None))))
     | _ \<Rightarrow> raiseS TypeError)"

definition directional_candidate ::
  "'z directional_scheme shock_world \<Rightarrow> instant \<Rightarrow> evaluation \<Rightarrow> allocation \<Rightarrow> ('z directional_scheme, candidate option) sm" where
  "directional_candidate w now signal a =
     (if is_micro signal then seconds_candidate (directional_world.truncate w) now signal a else minute_candidate now signal a)"

section \<open>The choice between signals\<close>

definition input_for :: "instant \<Rightarrow> evaluation \<Rightarrow> 'z directional_scheme \<Rightarrow> bool" where
  "input_for now x s = (if is_micro x then seconds_ready now s else input_ready now s)"

definition due_of :: "evaluation \<Rightarrow> instant" where
  "due_of x = (if is_micro x then ev_at x else ev_at x + minutes 1)"

definition window_of :: "evaluation \<Rightarrow> int" where
  "window_of x = (if is_micro x then seconds 5 else seconds 30)"

type_synonym choice = "score_row \<times> evaluation \<times> candidate"

text \<open>The last answer is whether the attempt goes on, with the funds' allocation and the choices so far.\<close>

type_synonym weighed = "(allocation option \<times> choice list) option"

definition fund_choice ::
  "'z directional_scheme shock_world \<Rightarrow> evaluation \<Rightarrow> ('z directional_scheme, allocation option) sm" where
  "fund_choice w x =
     bindS (liftS (cw_funds w)) (\<lambda>funds.
     bindS (modifyS (cw_funds_gap w)) (\<lambda>_.
     bindS getS (\<lambda>s.
     if broker_account funds \<noteq> md_account_id (rt_mandate s) \<or> \<not> input_for (dw_mid w) x s then retS None
     else bindS (permit_entry False (ev_strategy x)) (\<lambda>permitted.
          if \<not> permitted then retS None
          else bindS (liftS (allocate (rt_mandate s) (session_id s) (rt_ledger s) funds None)) (\<lambda>a. retS (Some a))))))"

definition weigh_candidate ::
  "'z directional_scheme shock_world \<Rightarrow> evaluation \<Rightarrow> allocation \<Rightarrow> choice list \<Rightarrow> ('z directional_scheme, weighed) sm" where
  "weigh_candidate w x a choices =
     bindS (directional_candidate w (dw_mid w) x a) (\<lambda>c. bindS getS (\<lambda>s. case c of
         None \<Rightarrow> bindS (record_assessment (dw_mid w) x (dr_reason s) (dr_checks s)) (\<lambda>_. retS (Some (Some a, choices)))
       | Some c \<Rightarrow>
           bindS (liftS (execution_score x c (dr_ranking s) (cw_now w))) (\<lambda>row.
           bindS (record_assessment (dw_mid w) x ''READY'' (dr_checks s)) (\<lambda>_. retS (Some (Some a, choices @ [(row, x, c)]))))))"

text \<open>A signal whose entry window has passed is consumed with the reason that held it back.\<close>

definition miss_deadline :: "evaluation \<Rightarrow> ('z directional_scheme, unit) sm" where
  "miss_deadline x =
     bindS (liftS (signal_key x)) (\<lambda>key. bindS getS (\<lambda>s.
     let (d, rows) = assessment_of key (rt_ledger s)
     in bindS (put_note (key @ '':consumed'') [(''reason'', DText ''ENTRY_DEADLINE_MISSED''),
            (''blocking_reason'', if map_of d ''reason'' = None then DText ''UNKNOWN'' else dget ''reason'' d)] rows) (\<lambda>_.
          set_dr_reason ''ENTRY_DEADLINE_MISSED'')))"

definition open_signal :: "instant \<Rightarrow> evaluation \<Rightarrow> 'z directional_scheme \<Rightarrow> bool res" where
  "open_signal now x s =
     bindR (signal_key x) (\<lambda>key. bindR (family_key x) (\<lambda>family.
       Inr (\<not> noted (key @ '':consumed'') s \<and> \<not> noted family s \<and> ist_date (ev_at x) = ist_date now)))"

definition rebound_exited :: "instant \<Rightarrow> 'z directional_scheme \<Rightarrow> bool" where
  "rebound_exited now s = noted (''rebound-exited:'' @ isoformat (ist_date now)) s"

definition weigh_signal ::
  "'z directional_scheme shock_world \<Rightarrow> evaluation \<Rightarrow> allocation option \<times> choice list \<Rightarrow> ('z directional_scheme, weighed) sm" where
  "weigh_signal w x acc = bindS getS (\<lambda>s. let now = cw_now w; go_on = retS (Some acc) in
     if ev_strategy x \<notin> set (dr_enabled s) \<or> \<not> input_for (if fst acc = None then now else dw_mid w) x s then go_on
     else if ev_strategy x \<notin> set (rt_enabled s)
     then bindS (set_dr_reason ''FUNDED_STRATEGY_DISABLED'') (\<lambda>_.
          bindS (record_assessment (dw_mid w) x ''FUNDED_STRATEGY_DISABLED'' []) (\<lambda>_. go_on))
     else bindS (liftS (open_signal now x s)) (\<lambda>fresh.
     if \<not> fresh \<or> now < due_of x then go_on
     else if due_of x + window_of x \<le> now then bindS (miss_deadline x) (\<lambda>_. go_on)
     else if ev_strategy x = REBOUND \<and> rebound_exited now s
     then bindS (consume x [(''reason'', DText ''PRIOR_REBOUND_EXITED_TODAY'')]) (\<lambda>_. go_on)
     else bindS (permit_entry False (ev_strategy x)) (\<lambda>permitted.
     if \<not> permitted
     then bindS (set_dr_reason ''ENTRY_NOT_PERMITTED'') (\<lambda>_.
          bindS (record_assessment (dw_mid w) x ''ENTRY_NOT_PERMITTED'' []) (\<lambda>_. retS None))
     else case fst acc of
         Some a \<Rightarrow> weigh_candidate w x a (snd acc)
       | None \<Rightarrow> bindS (fund_choice w x) (\<lambda>funded. case funded of
             None \<Rightarrow> retS None
           | Some a \<Rightarrow> weigh_candidate w x a (snd acc)))))"

fun weigh_all ::
  "'z directional_scheme shock_world \<Rightarrow> evaluation list \<Rightarrow> allocation option \<times> choice list \<Rightarrow> ('z directional_scheme, weighed) sm" where
  "weigh_all w [] acc = retS (Some acc)"
| "weigh_all w (x # xs) acc = bindS (weigh_signal w x acc) (\<lambda>r. case r of None \<Rightarrow> retS None | Some acc \<Rightarrow> weigh_all w xs acc)"


section \<open>Entry\<close>

definition score_details :: "score_row \<Rightarrow> details" where
  "score_details r = [(''strategy'', DText (sr_strategy r)), (''security_id'', DText (sr_security r)), (''quantity'', DInt (sr_quantity r)),
     (''limit'', DDec (sr_limit r)), (''friction'', DDec (sr_friction r)), (''expected'', opt_dec (sr_expected r)), (''rate'', opt_dec (sr_rate r))]"

definition selection_details :: "instant \<Rightarrow> score_row option \<Rightarrow> string \<Rightarrow> string \<Rightarrow> details" where
  "selection_details now chosen mode reason = [(''evaluated_at'', DTime now), (''mode'', DText mode), (''reason'', DText reason),
     (''selected'', opt_text (map_option sr_strategy chosen))]"

definition put_selection :: "day \<Rightarrow> details \<Rightarrow> score_row list \<Rightarrow> ('z directional_scheme, unit) sm" where
  "put_selection today d rows =
     bindS (modifyS (\<lambda>s. s\<lparr>dr_selection := (d, map score_details rows)\<rparr>)) (\<lambda>_.
       put_note (''strategy-selection:'' @ isoformat today) d (map score_details rows))"

text \<open>The row of a strategy; the last signal of a strategy stands for it.\<close>

definition choice_named :: "choice list \<Rightarrow> string \<Rightarrow> (evaluation \<times> candidate) option" where
  "choice_named choices strategy = map_of (rev (map (\<lambda>(r, x, c). (ev_strategy x, x, c)) choices)) strategy"

definition still_current ::
  "'z directional_scheme shock_world \<Rightarrow> evaluation \<Rightarrow> instrument \<Rightarrow> option_book \<Rightarrow> ('z directional_scheme, bool) sm" where
  "still_current w x i b = (let now = cw_later w in
     bindS (permit_entry False (ev_strategy x)) (\<lambda>permitted.
     if \<not> permitted then retS False
     else bindS (if is_micro x then seconds_valid (directional_world.truncate w) now x
                 else bindS getS (\<lambda>s. retS (input_ready now s))) (\<lambda>valid.
     if \<not> valid then retS False
     else bindS getS (\<lambda>s. let found = map_of (en_books s) (security_id i) in
       retS (book_ready now found s \<and> found = Some b \<and> due_of x \<le> now \<and> now < due_of x + window_of x)))))"

definition commit_directional ::
  "'z directional_scheme shock_world \<Rightarrow> allocation \<Rightarrow> evaluation \<Rightarrow> candidate \<Rightarrow> ('z directional_scheme, bool) sm" where
  "commit_directional w a x c = (case c of (i, q, limit, b) \<Rightarrow> bindS getS (\<lambda>s.
     let lifecycle = CHR ''l'' # cw_uuid w;
         n = \<lparr>in_id = CHR ''i'' # cw_uuid w, in_side = BUY, in_instrument = i, in_quantity = q, in_limit_price = limit,
           in_client_order_id = CHR ''e'' # take 28 (cw_uuid w), in_created_at = dw_mid w, in_lifecycle_id = lifecycle\<rparr>;
         row = \<lparr>lc_id = lifecycle, lc_session = session_id s, lc_security = security_id i, lc_bankroll = bankroll a, lc_state = ''OPEN'',
           lc_strategy = ev_strategy x, lc_instrument = i, lc_signal_at = Some (ev_at x), lc_exit_at = ev_exit_at x,
           lc_details = ev_details x, lc_retain = dr_retain s, lc_side = ev_side x, lc_shock = None\<rparr>
     in bindS (liftS (signal_key x)) (\<lambda>key.
        bindS (liftS (check_intent n)) (\<lambda>n.
        bindS (liftS (family_key x)) (\<lambda>family.
        bindS (on_oms (onledger (open_directional row (key @ '':consumed'') family))) (\<lambda>_.
        bindS (on_oms (onledger (observe (''decision:'' @ in_id n) ''ENTRY_DECISION''))) (\<lambda>_.
        bindS (liftS (worst_case_entry_cash default_fees q limit 1)) (\<lambda>cash.
        bindS (submit_when w n (reserve_cash cash) (still_current w x i b)) (\<lambda>_.
        bindS (set_dr_reason (ev_strategy x @ '':ENTRY_SUBMITTED'')) (\<lambda>_.
        bindS (set_status (\<lambda>t. t\<lparr>rs_state := ''ENTRY_PENDING'', rs_reason := ev_strategy x @ '':ENTRY_SUBMITTED''\<rparr>)) (\<lambda>_.
          retS True)))))))))))"

definition decide_entry ::
  "'z directional_scheme shock_world \<Rightarrow> allocation option \<Rightarrow> choice list \<Rightarrow> ('z directional_scheme, bool) sm" where
  "decide_entry w a choices =
     (if choices = [] then retS False
      else case select_executable (map fst choices) of (chosen, mode, reason) \<Rightarrow>
        bindS (put_selection (ist_date (cw_now w)) (selection_details (dw_mid w) chosen mode reason) (map fst choices)) (\<lambda>_.
        case chosen of
          None \<Rightarrow> bindS (set_dr_reason reason) (\<lambda>_.
            bindS (iterS (\<lambda>(r, x, c). case choice_named choices (sr_strategy r) of
                None \<Rightarrow> raiseS KeyError | Some (y, _) \<Rightarrow> record_assessment (dw_mid w) y reason []) choices) (\<lambda>_. retS False))
        | Some r \<Rightarrow> (case (choice_named choices (sr_strategy r), a) of
            (Some (x, c), Some a) \<Rightarrow> commit_directional w a x c
          | _ \<Rightarrow> raiseS KeyError)))"

definition directional_enter :: "'z directional_scheme shock_world \<Rightarrow> snapshot \<Rightarrow> ('z directional_scheme, bool) sm" where
  "directional_enter w snap = bindS getS (\<lambda>s. let now = cw_now w in
     if SHOCK \<in> set (dr_enabled s) then shock_enter w snap
     else bindS get_active (\<lambda>active.
     if dr_blocked s \<or> active \<noteq> None \<or> sn_unresolved snap \<or> pending_intents (rt_ledger s) \<noteq> []
        \<or> \<not> (input_ready now s \<or> seconds_ready now s) then retS False
     else bindS (liftS (foreign_holding (sn_positions snap))) (\<lambda>foreign.
     if foreign then bindS (set_dr_reason ''UNMANAGED_ACCOUNT_POSITION'') (\<lambda>_. retS False)
     else bindS (refresh_ranking (dw_columns w) now) (\<lambda>_.
          bindS (if list_ex (\<lambda>n. n \<in> set SECONDS_NAMES) (dr_enabled s) then seconds_signals (directional_world.truncate w) now else retS []) (\<lambda>micro.
          bindS getS (\<lambda>s.
          bindS (weigh_all w (rank_signals (map snd (dr_signals s) @ micro) (dr_ranking s)) (None, [])) (\<lambda>weighed.
          case weighed of None \<Rightarrow> retS False | Some (a, choices) \<Rightarrow> decide_entry w a choices)))))))"

section \<open>The auction and the rules compete\<close>

definition auction_signal :: "instant \<Rightarrow> instrument \<Rightarrow> evaluation" where
  "auction_signal now i = \<lparr>ev_strategy = CAS, ev_state = ''SIGNAL'', ev_reason = ''QUALIFIED_AUCTION'', ev_at = now, ev_side = Some (otype i),
     ev_spot = Some (strike i), ev_minimum_expiry = Some (expiry i), ev_exit_at = Some (now + minutes 1), ev_details = [], ev_conditions = [],
     ev_next_check = None\<rparr>"

text \<open>The row of a rule that is due now and finds a contract, with the auction's allocation.\<close>

definition rival_row ::
  "'z directional_scheme shock_world \<Rightarrow> allocation \<Rightarrow> evaluation \<Rightarrow> ('z directional_scheme, score_row option) sm" where
  "rival_row w a x = bindS getS (\<lambda>s. let now = dw_mid w; due = ev_at x + minutes 1 in
     if ev_strategy x \<notin> set (dr_enabled s) \<or> \<not> (due \<le> now \<and> now < due + seconds 30) then retS None
     else bindS (liftS (signal_key x)) (\<lambda>key.
          if noted (key @ '':consumed'') s then retS None
          else bindS (liftS (family_key x)) (\<lambda>family.
          if noted family s then retS None
          else bindS (permit_entry False (ev_strategy x)) (\<lambda>permitted.
          if \<not> permitted then retS None
          else bindS (directional_candidate w now x a) (\<lambda>found. case found of
              None \<Rightarrow> retS None
            | Some c \<Rightarrow> bindS getS (\<lambda>s. bindS (liftS (execution_score x c (dr_ranking s) now)) (\<lambda>row. retS (Some row))))))))"

fun rival_rows ::
  "'z directional_scheme shock_world \<Rightarrow> allocation \<Rightarrow> evaluation list \<Rightarrow> ('z directional_scheme, score_row list) sm" where
  "rival_rows w a [] = retS []"
| "rival_rows w a (x # xs) = bindS (rival_row w a x) (\<lambda>r. bindS (rival_rows w a xs) (\<lambda>rows.
     retS (case r of None \<Rightarrow> rows | Some row \<Rightarrow> row # rows)))"

text \<open>A standalone auction keeps its own pricing test: measured outcomes are not its gate.\<close>

definition preferred_row :: "score_row list \<Rightarrow> score_row option \<times> string \<times> string" where
  "preferred_row rows = (case rows of [r] \<Rightarrow> (Some r, ''QUALIFIED_AUCTION'', ''SELECTED'') | _ \<Rightarrow> select_executable rows)"

definition compare_auction ::
  "'z directional_scheme shock_world \<Rightarrow> opportunity \<Rightarrow> int \<Rightarrow> allocation \<Rightarrow> ('z directional_scheme, bool) sm" where
  "compare_auction w x q a = (let now = dw_mid w; i = op_instrument x in
     bindS (refresh_ranking (dw_columns w) now) (\<lambda>_. bindS getS (\<lambda>s.
     case map_of (en_books s) (security_id i) of
       None \<Rightarrow> raiseS KeyError
     | Some b \<Rightarrow>
         bindS (liftS (execution_score (auction_signal now i) (i, q, op_limit x, b) (dr_ranking s) now)) (\<lambda>own.
         bindS (if input_ready now s then rival_rows w a (map snd (dr_signals s)) else retS []) (\<lambda>rivals.
         case preferred_row (own # rivals) of (chosen, mode, reason) \<Rightarrow>
           bindS (put_selection (ist_date now) (selection_details now chosen mode reason) (own # rivals)) (\<lambda>_.
           bindS (modifyS (\<lambda>s. s\<lparr>dr_blocked := (chosen = None)\<rparr>)) (\<lambda>_.
             retS (case chosen of None \<Rightarrow> False | Some r \<Rightarrow> sr_strategy r = CAS))))))))"

section \<open>The position\<close>

type_synonym exit_note = "(string \<times> instant) option"

text \<open>The completed sale of a reconciled position: cash posted once, lifecycle closed.\<close>

definition close_directional ::
  "'z directional_scheme shock_world \<Rightarrow> lifecycle_row \<Rightarrow> totals \<Rightarrow> ('z directional_scheme, bool) sm" where
  "close_directional w c t =
     bindS (liftS (cw_funds w)) (\<lambda>_.
     bindS (modifyS (cw_funds_gap w)) (\<lambda>_.
     bindS (on_oms (onledger (close_lifecycle c (sale_credit t - entry_debit_total t)))) (\<lambda>_.
     bindS (whenS (lc_strategy c = REBOUND) (put_meta (''rebound-exited:'' @ isoformat (ist_date (cw_now w))) (MFlag True))) (\<lambda>_.
     bindS (whenS (lc_strategy c = SHOCK \<and> entry_debit_total t \<noteq> 0)
              (put_note ''shock-last-closed'' [(''value'', DTime (cw_now w))] [])) (\<lambda>_.
     bindS (set_status (\<lambda>st. st\<lparr>rs_state := ''ARMED_WAITING_SIGNAL'',
              rs_reason := lc_strategy c @ (if entry_debit_total t \<noteq> 0 then '':POSITION_CLOSED'' else '':ENTRY_CANCELLED_NO_FILL'')\<rparr>)) (\<lambda>_.
       retS False))))))"

text \<open>Net profit and cost of selling the whole position now, two ticks below the displayed bids.\<close>

definition liquidation :: "instrument \<Rightarrow> int \<Rightarrow> totals \<Rightarrow> decimal \<Rightarrow> int \<Rightarrow> option_book \<Rightarrow> (decimal \<times> decimal) option res" where
  "liquidation i q t entry units b =
     (let slices = executable_sale_units b q; proceeds = sum_by (\<lambda>(n, p). of_int n * max (tick_size i) (p - 2 * tick_size i)) slices
      in if sum_by fst slices \<noteq> q then Inr None
         else bindR (fee_sell default_fees proceeds (ceil_ratio q (freeze_qty i))) (\<lambda>fees.
              Inr (Some (sale_credit t + proceeds - fees - entry_debit_total t,
                         max 0 (dsub (entry_debit_total t) (dmul entry (of_int units))) + fees))))"

text \<open>A new high water or a trigger is kept, not every declining quote.\<close>

definition protect_profit ::
  "'z directional_scheme shock_world \<Rightarrow> lifecycle_row \<Rightarrow> totals \<Rightarrow> int \<Rightarrow> decimal \<Rightarrow> int \<Rightarrow> decimal \<Rightarrow> ('z directional_scheme, exit_note) sm" where
  "protect_profit w c t q entry units retain = bindS getS (\<lambda>s.
     let i = lc_instrument c; key = ''profit-exit:'' @ lc_id c in
     case map_of (en_books s) (security_id i) of
       None \<Rightarrow> retS None
     | Some b \<Rightarrow>
         if \<not> book_current (cw_now w) (Some b) s \<or> top_bid b = None then retS None
         else bindS (liftS (liquidation i q t entry units b)) (\<lambda>found. case found of
             None \<Rightarrow> retS None
           | Some (net, cost) \<Rightarrow>
               let old = (case metadata key (rt_ledger s) of Some (MGuard g) \<Rightarrow> Some g | _ \<Rightarrow> None) in
               bindS (liftS (observe_profit net cost old retain)) (\<lambda>g.
               bindS (whenS (case old of None \<Rightarrow> True | Some h \<Rightarrow> pg_peak g \<noteq> pg_peak h \<or> pg_floor g \<noteq> pg_floor h \<or> pg_triggered g \<noteq> pg_triggered h)
                        (put_meta key (MGuard g))) (\<lambda>_.
                 retS (if pg_triggered g then Some (''NET_PROFIT_FLOOR'', cw_now w) else None)))))"

text \<open>Recovered bars can establish a missed exit.\<close>

fun bar_exit :: "decimal option \<Rightarrow> decimal \<Rightarrow> bool \<Rightarrow> decimal \<Rightarrow> decimal \<Rightarrow> series \<Rightarrow> exit_note" where
  "bar_exit target stop trailing entry peak [] = None"
| "bar_exit target stop trailing entry peak ((t, b) # rows) =
     (let reached = (case target of None \<Rightarrow> False | Some x \<Rightarrow> dmul entry x \<le> br_close b)
      in if reached \<or> br_close b \<le> dmul peak stop
         then Some (if reached then ''PREMIUM_TARGET'' else if trailing then ''TRAILING_STOP'' else ''PREMIUM_STOP'', t + minutes 1)
         else bar_exit target stop trailing entry (if trailing then max peak (br_close b) else peak) rows)"

definition recorded_policy :: "details \<Rightarrow> (decimal option \<times> decimal \<times> bool) res" where
  "recorded_policy d =
     bindR (if map_of d ''exit_target'' = None then Inr (Some 2) else detail_decimal ''exit_target'' d) (\<lambda>target.
     bindR (if map_of d ''exit_stop'' = None then Inr (1 / 2) else required_decimal ''exit_stop'' d) (\<lambda>stop.
       Inr (target, stop, dget ''exit_trail'' d = DBool True)))"

definition bars_after :: "instant \<Rightarrow> instant \<Rightarrow> string \<Rightarrow> inputs option \<Rightarrow> series" where
  "bars_after begun now security d = (case d of None \<Rightarrow> [] | Some d \<Rightarrow>
     (case map_of (ip_option_bars d) security of None \<Rightarrow> []
      | Some rows \<Rightarrow> sort_key fst (filter (\<lambda>(t, b). begun < t \<and> t \<le> now) rows)))"

definition quote_exit ::
  "lifecycle_row \<Rightarrow> decimal \<Rightarrow> instant \<Rightarrow> 'z directional_scheme \<Rightarrow> exit_note res" where
  "quote_exit c entry now s = (case map_of (en_books s) (security_id (lc_instrument c)) of
     None \<Rightarrow> Inr None
   | Some b \<Rightarrow> if \<not> book_current now (Some b) s then Inr None
       else bindR (seconds_exit_reason (lc_details c) b entry now s) (\<lambda>r. Inr (map_option (\<lambda>r. (r, now)) r)))"

definition average_entry :: "fill_row list \<Rightarrow> decimal option" where
  "average_entry fs = (let units = sum_by fr_quantity fs; e = ddiv (turnover_of fs) (of_int units)
     in if units = 0 \<or> e = 0 then None else Some e)"

text \<open>The exit of a filled position: the latched one, the time, the quotes, the profit guard, the bars.\<close>

definition decide_exit ::
  "'z directional_scheme shock_world \<Rightarrow> lifecycle_row \<Rightarrow> totals \<Rightarrow> int \<Rightarrow> ('z directional_scheme, exit_note) sm" where
  "decide_exit w c t q = bindS getS (\<lambda>s.
     let now = cw_now w; micro = (lc_strategy c \<in> set SECONDS_NAMES); fs = fills_on BUY (rt_ledger s) (lc_id c); entry = average_entry fs;
         latched = (case metadata (''directional-exit:'' @ lc_id c) (rt_ledger s) of Some (MExit r due) \<Rightarrow> Some (r, due) | _ \<Rightarrow> None) in
     case (lc_exit_at c, lc_signal_at c) of
       (Some exit_at, Some signal_at) \<Rightarrow>
         let x = (if latched = None \<and> exit_at \<le> now then Some (''TIME_EXIT'', exit_at) else latched) in
         bindS (case (x, entry) of (None, Some e) \<Rightarrow> if micro then liftS (quote_exit c e now s) else retS None | _ \<Rightarrow> retS x) (\<lambda>x.
         bindS (liftS (recorded_policy (lc_details c))) (\<lambda>(target, stop, trailing).
         bindS (case (x, entry, lc_retain c) of
             (None, Some e, Some retain) \<Rightarrow> protect_profit w c t q e (sum_by fr_quantity fs) retain | _ \<Rightarrow> retS x) (\<lambda>x.
           retS (case (x, entry) of
             (None, Some e) \<Rightarrow> if micro then None
                else bar_exit target stop trailing e e (bars_after (signal_at + minutes 1) now (security_id (lc_instrument c)) (dr_inputs s))
           | _ \<Rightarrow> x))))
     | _ \<Rightarrow> raiseS TypeError)"

definition manage_rule ::
  "'z directional_scheme shock_world \<Rightarrow> lifecycle_row \<Rightarrow> totals \<Rightarrow> int \<Rightarrow> ('z directional_scheme, bool) sm" where
  "manage_rule w c t q =
     bindS (decide_exit w c t q) (\<lambda>x.
     bindS (case x of None \<Rightarrow> retS () | Some (r, due) \<Rightarrow> put_meta (''directional-exit:'' @ lc_id c) (MExit r due)) (\<lambda>_.
     bindS (set_status (\<lambda>st. st\<lparr>rs_state := ''POSITION_OPEN'',
        rs_reason := lc_strategy c @ '':'' @ (case x of None \<Rightarrow> ''HOLDING'' | Some (r, due) \<Rightarrow> r)\<rparr>)) (\<lambda>_.
     case x of
       None \<Rightarrow> retS False
     | Some (r, due) \<Rightarrow> if cw_now w < due then retS False else latched_exit w (lc_instrument c) q (lc_id c))))"

definition manage_directional ::
  "'z directional_scheme shock_world \<Rightarrow> lifecycle_row \<Rightarrow> snapshot \<Rightarrow> ('z directional_scheme, bool) sm" where
  "manage_directional w c snap = bindS getS (\<lambda>s.
     let i = lc_instrument c in
     if lc_strategy c \<notin> set STRATEGIES \<or> lc_strategy c = CAS
     then bindS (set_status (\<lambda>st. st\<lparr>rs_state := ''RECOVERING'', rs_reason := ''UNKNOWN_POSITION_STRATEGY''\<rparr>)) (\<lambda>_. retS False)
     else bindS (liftS (lifecycle_totals (lc_id c) (rt_ledger s))) (\<lambda>t.
     bindS (liftS (held_by_broker (security_id i) (sn_positions snap))) (\<lambda>q.
     if sn_unresolved snap \<or> unresolved t \<or> pending_intents (rt_ledger s) \<noteq> []
     then bindS (set_state ''RECONCILING_DIRECTIONAL_POSITION'') (\<lambda>_. retS False)
     else if q \<noteq> held t
     then bindS (set_status (\<lambda>st. st\<lparr>rs_state := ''RECOVERING'', rs_reason := ''POSITION_RECONCILIATION_MISMATCH''\<rparr>)) (\<lambda>_. retS False)
     else if q = 0 then close_directional w c t
     else if expiry i < ist_date (cw_now w)
     then bindS (set_status (\<lambda>st. st\<lparr>rs_state := ''SETTLEMENT_PENDING'', rs_reason := ''EXPIRED_POSITION_AWAITING_BROKER_CLEARING''\<rparr>)) (\<lambda>_. retS False)
     else if lc_strategy c = SHOCK then shock_manage w c t q
     else manage_rule w c t q)))"

section \<open>The engine with its directional part\<close>

definition directional_part :: "'z directional_scheme shock_world \<Rightarrow> 'z directional_scheme directional_ops" where
  "directional_part w = \<lparr>do_manage = manage_directional w, do_enter = directional_enter w, do_compare = compare_auction w,
     do_unblock = modifyS (\<lambda>s. s\<lparr>dr_blocked := False\<rparr>), do_blocked = dr_blocked\<rparr>"

definition directional_cycle ::
  "'z directional_scheme shock_world \<Rightarrow> (oms, snapshot) sm option \<Rightarrow> ('z directional_scheme, bool) sm" where
  "directional_cycle w reconcile = cycle (cycle_world.truncate w) (Some (directional_part w)) reconcile"

end
