(* ===== verification/Subscriptions.thy ===== *)
theory Subscriptions
  imports Feeds Directional
begin

text \<open>
  The subscription window of \<open>dhan_cas_bot/market_subscriptions.py\<close>: which contracts the
  market feed carries, and the requests that move the feed from one window to the next.
\<close>

section \<open>The window\<close>

text \<open>\<open>anchors\<close> holds the finite anchors; sets are lists whose order and repetitions do not matter.\<close>

definition near_ids :: "instrument list \<Rightarrow> decimal \<Rightarrow> string list" where
  "near_ids eligible anchor = map security_id (take 32 (sort_key (\<lambda>i. (\<bar>strike i - anchor\<bar>, security_id i)) eligible))"

definition market_ids ::
  "instrument list \<Rightarrow> day \<Rightarrow> decimal list \<Rightarrow> string list \<Rightarrow> string option \<Rightarrow> day option \<Rightarrow> bool \<Rightarrow> string list" where
  "market_ids catalogue today anchors held_ids future_id full_expiry shock =
     (let result = held_ids @ (case future_id of None \<Rightarrow> [] | Some f \<Rightarrow> if f = [] then [] else [f]);
          anchors = filter (\<lambda>a. 0 < a) anchors;
          rows = filter (\<lambda>i. today \<le> expiry i) catalogue
      in if shock
         then result @ concat (map (\<lambda>a. concat (map (\<lambda>sd. map security_id (shock_universe rows sd a today)) [CE, PE])) anchors)
         else result @ (case full_expiry of None \<Rightarrow> [] | Some e \<Rightarrow> map security_id (filter (\<lambda>i. expiry i = e) rows))
              @ concat (map (\<lambda>e. concat (map (near_ids (filter (\<lambda>i. expiry i = e) rows)) anchors))
                  (take 3 (sort (remdups (map expiry rows))))))"

section \<open>Moving the feed\<close>

record subscriptions =
  sb_bootstrap :: "string list"
  sb_wanted :: "string list"
  sb_applied :: "string list"
  sb_epoch :: "string option"
  sb_last_error :: string

definition subscriptions_start :: "string list \<Rightarrow> subscriptions" where
  "subscriptions_start bootstrap = \<lparr>sb_bootstrap = bootstrap, sb_wanted = bootstrap, sb_applied = [], sb_epoch = None, sb_last_error = []\<rparr>"

text \<open>How the sending of one message ends: sent on the same socket, the socket replaced meanwhile, or an exception.\<close>

datatype sending = Sent | SocketReplaced | SendFailed string

definition unsubscription :: "string list \<Rightarrow> dhan_request list res" where
  "unsubscription ids = bindR (chunked 100 ids) (\<lambda>bs. Inr (map (\<lambda>b. \<lparr>rq_code = 22, rq_count = int (length b), rq_securities = b\<rparr>) bs))"

text \<open>The messages that reached the socket, and how the loop ended.\<close>

fun send_all :: "dhan_request list \<Rightarrow> sending list \<Rightarrow> dhan_request list \<times> sending" where
  "send_all [] answers = ([], Sent)"
| "send_all (m # ms) answers = (case answers of
     Sent # answers \<Rightarrow> (let (sent, fin) = send_all ms answers in (m # sent, fin))
   | SocketReplaced # _ \<Rightarrow> ([m], SocketReplaced)
   | SendFailed e # _ \<Rightarrow> ([], SendFailed e)
   | [] \<Rightarrow> ([], SendFailed ''TimeoutError''))"

definition changes :: "string list \<Rightarrow> string list \<Rightarrow> dhan_request list res" where
  "changes applied wanted =
     bindR (dhan_subscription (sort (filter (\<lambda>x. x \<notin> set applied) (remdups wanted)))) (\<lambda>adds.
     bindR (unsubscription (sort (filter (\<lambda>x. x \<notin> set wanted) (remdups applied)))) (\<lambda>drops. Inr (adds @ drops)))"

text \<open>
  \<open>ready\<close>: the runner has a socket and its subscriptions are ready. The result is the
  coroutine's answer, the messages sent, the new state and the books left.
\<close>

definition sync ::
  "bool \<Rightarrow> string \<Rightarrow> string list \<Rightarrow> sending list \<Rightarrow> (string \<times> option_book) list \<Rightarrow> subscriptions
   \<Rightarrow> (bool \<times> dhan_request list \<times> (string \<times> option_book) list \<times> subscriptions) res" where
  "sync ready epoch desired answers books s =
     (let s = s\<lparr>sb_wanted := desired\<rparr>; books = filter (\<lambda>(k, b). k \<in> set desired) books
      in if \<not> ready then Inr (False, [], books, s)
         else let s = (if Some epoch \<noteq> sb_epoch s then s\<lparr>sb_epoch := Some epoch, sb_applied := sb_bootstrap s\<rparr> else s)
              in bindR (changes (sb_applied s) desired) (\<lambda>messages.
                 Inr (case send_all messages answers of
                   (sent, Sent) \<Rightarrow> (True, sent, books, s\<lparr>sb_applied := desired, sb_last_error := []\<rparr>)
                 | (sent, SocketReplaced) \<Rightarrow> (False, sent, books, s)
                 | (sent, SendFailed e) \<Rightarrow> (False, sent, books, s\<lparr>sb_last_error := e\<rparr>))))"

text \<open>What the feed carries after a message.\<close>

definition carried :: "dhan_request \<Rightarrow> string set \<Rightarrow> string set" where
  "carried m feed = (if rq_code m = 21 then feed \<union> set (rq_securities m) else if rq_code m = 22 then feed - set (rq_securities m) else feed)"


section \<open>The feed after a synchronisation\<close>

definition requests :: "int \<Rightarrow> string list list \<Rightarrow> dhan_request list" where
  "requests code bs = map (\<lambda>b. \<lparr>rq_code = code, rq_count = int (length b), rq_securities = b\<rparr>) bs"

lemma fold_requests:
  "fold carried (requests 21 bs) feed = feed \<union> set (concat bs)" "fold carried (requests 22 bs) feed = feed - set (concat bs)"
  by (induction bs arbitrary: feed) (auto simp: requests_def carried_def)

lemma changes_Inr:
  assumes "changes applied wanted = Inr ms"
  obtains adds drops where "ms = requests 21 adds @ requests 22 drops"
    "set (concat adds) = set wanted - set applied" "set (concat drops) = set applied - set wanted"
    "\<forall>b \<in> set (adds @ drops). b \<noteq> [] \<and> length b \<le> 100"
proof -
  from assms obtain adds drops where c: "chunked 100 (sort (filter (\<lambda>x. x \<notin> set applied) (remdups wanted))) = Inr adds"
    "chunked 100 (sort (filter (\<lambda>x. x \<notin> set wanted) (remdups applied))) = Inr drops" and ms: "ms = requests 21 adds @ requests 22 drops"
    by (auto simp: changes_def dhan_subscription_def unsubscription_def requests_def bindR_Inr_iff)
  have "set (concat adds) = set (sort (filter (\<lambda>x. x \<notin> set applied) (remdups wanted)))"
    and "set (concat drops) = set (sort (filter (\<lambda>x. x \<notin> set wanted) (remdups applied)))"
    and "\<forall>b \<in> set adds. b \<noteq> [] \<and> int (length b) \<le> 100" and "\<forall>b \<in> set drops. b \<noteq> [] \<and> int (length b) \<le> 100"
    using chunked_partition [OF c(1)] chunked_partition [OF c(2)] by blast+
  then show thesis by (intro that [OF ms]) (simp_all add: set_diff_eq ball_Un del: set_concat)
qed

lemma changes_total: "\<exists>ms. changes applied wanted = Inr ms"
  by (simp add: changes_def dhan_subscription_def unsubscription_def chunked_def)

lemma send_all_sent: "send_all ms answers = (sent, fin) \<Longrightarrow> prefix sent ms \<and> (fin = Sent \<longrightarrow> sent = ms)"
  by (induction ms answers arbitrary: sent fin rule: send_all.induct) (auto split: list.splits sending.splits prod.splits)

definition carried_before :: "string \<Rightarrow> subscriptions \<Rightarrow> string list" where
  "carried_before epoch s = (if Some epoch = sb_epoch s then sb_applied s else sb_bootstrap s)"

text \<open>
  C33: Synchronisation refines assignment. A call always answers; when it answers true, the
  requests it sent, applied in order to what the feed carried (the bootstrap set on a new
  connection, else what the last successful call applied), leave the feed with exactly the
  wanted contracts, and this is what the component remembers. Whatever it answers, no book
  of an unwanted contract stays, every request names between one and a hundred contracts and
  states their number, and a call that fails leaves what it believes to be carried unchanged.
\<close>

theorem sync_refines:
  "\<exists>answer sent books' s'. sync ready epoch desired answers books s = Inr (answer, sent, books', s')
   \<and> sb_wanted s' = desired \<and> fst ` set books' \<subseteq> set desired \<and> set books' \<subseteq> set books
   \<and> (\<forall>m \<in> set sent. rq_securities m \<noteq> [] \<and> length (rq_securities m) \<le> 100 \<and> rq_count m = int (length (rq_securities m)))
   \<and> (answer \<longrightarrow> sb_applied s' = desired \<and> sb_epoch s' = Some epoch
        \<and> fold carried sent (set (carried_before epoch s)) = set desired)
   \<and> (\<not> answer \<longrightarrow> sb_applied s' = (if ready then carried_before epoch s else sb_applied s))"
proof -
  let ?old = "carried_before epoch s"
  obtain ms where c: "changes ?old desired = Inr ms" using changes_total by blast
  obtain sent fin where l: "send_all ms answers = (sent, fin)" by force
  from c obtain adds drops where ms: "ms = requests 21 adds @ requests 22 drops"
    and sets: "set (concat adds) = set desired - set ?old" "set (concat drops) = set ?old - set desired"
    and sizes: "\<forall>b \<in> set (adds @ drops). b \<noteq> [] \<and> length b \<le> 100"
    by (rule changes_Inr)
  have all: "\<forall>m \<in> set ms. rq_securities m \<noteq> [] \<and> length (rq_securities m) \<le> 100 \<and> rq_count m = int (length (rq_securities m))"
    using sizes unfolding ms requests_def by (simp add: ball_Un)
  have sub: "set sent \<subseteq> set ms" using send_all_sent [OF l] by (meson set_mono_prefix)
  have feed: "fold carried ms (set ?old) = set desired"
  proof -
    have "fold carried ms (set ?old) = set ?old \<union> (set desired - set ?old) - (set ?old - set desired)"
      by (simp add: ms fold_requests sets del: set_concat)
    then show ?thesis by blast
  qed
  show ?thesis
  proof (cases ready)
    case False
    then show ?thesis by (simp add: sync_def Let_def image_subset_iff) (intro exI [of _ False], simp)
  next
    case True
    define s1 where "s1 = s\<lparr>sb_wanted := desired, sb_epoch := Some epoch, sb_applied := ?old\<rparr>"
    have "sync ready epoch desired answers books s = Inr (case fin of
        Sent \<Rightarrow> (True, sent, filter (\<lambda>(k, b). k \<in> set desired) books, s1\<lparr>sb_applied := desired, sb_last_error := []\<rparr>)
      | SocketReplaced \<Rightarrow> (False, sent, filter (\<lambda>(k, b). k \<in> set desired) books, s1)
      | SendFailed e \<Rightarrow> (False, sent, filter (\<lambda>(k, b). k \<in> set desired) books, s1\<lparr>sb_last_error := e\<rparr>))"
      using c l True
      by (cases "Some epoch = sb_epoch s"; cases fin) (simp_all add: sync_def carried_before_def s1_def eq_commute [of "Some epoch"])
    moreover have "fin = Sent \<Longrightarrow> fold carried sent (set ?old) = set desired" using feed send_all_sent [OF l] by simp
    moreover have "fst ` set (filter (\<lambda>(k, b). k \<in> set desired) books) \<subseteq> set desired"
      "set (filter (\<lambda>(k, b). k \<in> set desired) books) \<subseteq> set books" by auto
    moreover have "\<forall>m \<in> set sent. rq_securities m \<noteq> [] \<and> length (rq_securities m) \<le> 100 \<and> rq_count m = int (length (rq_securities m))"
      using sub all by blast
    ultimately show ?thesis using True by (cases fin) (simp_all add: s1_def, blast+)
  qed
qed


theorem sync_refines_witness:
  "sync True ''e1'' [''1'', ''2''] [Sent, Sent] [(''3'', thin_book)] (subscriptions_start [''2'', ''3''])
     = Inr (True, requests 21 [[''1'']] @ requests 22 [[''3'']], [],
         \<lparr>sb_bootstrap = [''2'', ''3''], sb_wanted = [''1'', ''2''], sb_applied = [''1'', ''2''], sb_epoch = Some ''e1'', sb_last_error = []\<rparr>)
   \<and> fold carried (requests 21 [[''1'']] @ requests 22 [[''3'']]) {''2'', ''3''} = {''1'', ''2''}"
proof -
  have r: "sync True ''e1'' [''1'', ''2''] [Sent, Sent] [(''3'', thin_book)] (subscriptions_start [''2'', ''3''])
     = Inr (True, requests 21 [[''1'']] @ requests 22 [[''3'']], [],
         \<lparr>sb_bootstrap = [''2'', ''3''], sb_wanted = [''1'', ''2''], sb_applied = [''1'', ''2''], sb_epoch = Some ''e1'', sb_last_error = []\<rparr>)"
    by (simp add: sync_def subscriptions_start_def changes_def dhan_subscription_def unsubscription_def chunked_def py_dedupe_def
        batches.simps requests_def Let_def)
  obtain answer sent books' s' where q: "sync True ''e1'' [''1'', ''2''] [Sent, Sent] [(''3'', thin_book)] (subscriptions_start [''2'', ''3''])
      = Inr (answer, sent, books', s')"
    and c: "answer \<longrightarrow> fold carried sent (set (carried_before ''e1'' (subscriptions_start [''2'', ''3'']))) = set [''1'', ''2'']"
    using sync_refines [of True "''e1''" "[''1'', ''2'']" "[Sent, Sent]" "[(''3'', thin_book)]" "subscriptions_start [''2'', ''3'']"] by blast
  from q r have "answer" "sent = requests 21 [[''1'']] @ requests 22 [[''3'']]" by simp_all
  with c r show ?thesis by (simp add: carried_before_def subscriptions_start_def)
qed

section \<open>The window covers what the rules choose\<close>

text \<open>An element with at most \<open>n\<close> elements no greater than it, itself included, is among the first \<open>n\<close>.\<close>

lemma take_sorted_near:
  assumes "x \<in> set xs" "length (filter (\<lambda>y. f y \<le> f x) xs) \<le> n"
  shows "x \<in> set (take n (sort_key f xs))"
proof -
  let ?ys = "sort_key f xs"
  from assms(1) obtain k where k: "k < length ?ys" "?ys ! k = x" by (metis in_set_conv_nth set_sort)
  have "f (?ys ! j) \<le> f x" if "j \<le> k" for j
    using sorted_nth_mono [OF sorted_sort_key [of f xs], of j k] k that by simp
  then have "take (Suc k) (filter (\<lambda>y. f y \<le> f x) ?ys @ []) = take (Suc k) (filter (\<lambda>y. f y \<le> f x) ?ys)"
    and "\<forall>y \<in> set (take (Suc k) ?ys). f y \<le> f x"
    using k by (auto simp: in_set_conv_nth)
  then have "Suc k = length (filter (\<lambda>y. f y \<le> f x) (take (Suc k) ?ys))"
    using k(1) by (simp add: filter_id_conv [THEN iffD2] min_def)
  also have "\<dots> \<le> length (filter (\<lambda>y. f y \<le> f x) (take (Suc k) ?ys @ drop (Suc k) ?ys))" by (simp only: filter_append length_append le_add1)
  also have "\<dots> = length (filter (\<lambda>y. f y \<le> f x) xs)"
    by (simp add: length_filter_conv_card [symmetric] filter_sort)
  finally have "k < n" using assms(2) by simp
  then show ?thesis using k by (auto simp: in_set_conv_nth intro!: exI [of _ k])
qed


text \<open>An element among the first \<open>n\<close> is no greater than a bound that \<open>n\<close> elements meet.\<close>

lemma take_sorted_bound:
  fixes f :: "'a \<Rightarrow> 'k::linorder"
  assumes "x \<in> set (take n (sort_key f xs))" "n \<le> length (filter (\<lambda>y. P (f y)) xs)"
    and P: "\<And>a b. P b \<Longrightarrow> a \<le> b \<Longrightarrow> P a"
  shows "P (f x)"
proof (rule ccontr)
  assume no: "\<not> P (f x)"
  let ?ys = "sort_key f xs"
  from assms(1) obtain k where k: "k < n" "k < length ?ys" "?ys ! k = x" by (auto simp: in_set_conv_nth)
  have "\<not> P (f (?ys ! j))" if "k \<le> j" "j < length ?ys" for j
    using sorted_nth_mono [OF sorted_sort_key [of f xs], of k j] k that no P by auto
  then have "filter (\<lambda>y. P (f y)) (drop k ?ys) = []"
    by (auto simp: filter_empty_conv in_set_conv_nth)
  then have "length (filter (\<lambda>y. P (f y)) (take k ?ys @ drop k ?ys)) \<le> k"
    by (simp only: filter_append append_Nil2) (metis length_filter_le length_take min.cobounded2 order_trans)
  then show False using assms(2) k(1) by (simp add: filter_sort)
qed

text \<open>Strikes on a grid of step \<open>g\<close>, each listed at most once a side.\<close>

definition grid :: "decimal \<Rightarrow> instrument list \<Rightarrow> bool" where
  "grid g is = (0 < g \<and> distinct (map (\<lambda>i. (strike i, otype i)) is) \<and> (\<forall>i \<in> set is. \<exists>k. strike i = of_int k * g))"

lemma grid_points:
  fixes a d g :: rat
  assumes "0 < g" "0 \<le> d" "d < 8 * g"
  shows "finite {k :: int. \<bar>of_int k * g - a\<bar> \<le> d} \<and> card {k :: int. \<bar>of_int k * g - a\<bar> \<le> d} \<le> 16"
proof -
  let ?lo = "\<lceil>(a - d) / g\<rceil>" and ?hi = "\<lfloor>(a + d) / g\<rfloor>"
  have sub: "{k :: int. \<bar>of_int k * g - a\<bar> \<le> d} \<subseteq> {?lo .. ?hi}"
    using assms(1) by (auto simp: ceiling_le_iff le_floor_iff pos_divide_le_eq pos_le_divide_eq abs_le_iff)
  have "of_int (?hi - ?lo) \<le> (a + d) / g - (a - d) / g"
    using of_int_floor_le [of "(a + d) / g"] le_of_int_ceiling [of "(a - d) / g"] by linarith
  also have "\<dots> = 2 * d / g" by (simp add: diff_divide_distrib add_divide_distrib)
  also have "\<dots> < 16" using assms by (simp add: pos_divide_less_eq)
  finally have "?hi - ?lo < 16" by linarith
  then have "card {?lo .. ?hi} \<le> 16" by simp
  with sub show ?thesis by (meson card_mono finite_atLeastAtMost_int finite_subset order_trans)
qed

lemma grid_near_count:
  assumes g: "grid g is" and d: "0 \<le> d" "d < 8 * g"
  shows "length (filter (\<lambda>i. \<bar>strike i - a\<bar> \<le> d) is) \<le> 32"
proof -
  let ?xs = "filter (\<lambda>i. \<bar>strike i - a\<bar> \<le> d) is" and ?K = "{k :: int. \<bar>of_int k * g - a\<bar> \<le> d}"
  from grid_points [of g d a] g d have K: "finite ?K" "card ?K \<le> 16" by (simp_all add: grid_def)
  have "distinct (map (\<lambda>i. (strike i, otype i)) ?xs)" using g by (simp add: grid_def distinct_map_filter)
  from distinct_card [OF this] have "length ?xs = card ((\<lambda>i. (strike i, otype i)) ` set ?xs)" by simp
  also have "\<dots> \<le> card ((\<lambda>k. of_int k * g) ` ?K \<times> {CE, PE})"
  proof (rule card_mono)
    show "finite ((\<lambda>k. of_int k * g) ` ?K \<times> {CE, PE})" using K(1) by simp
    show "(\<lambda>i. (strike i, otype i)) ` set ?xs \<subseteq> (\<lambda>k. of_int k * g) ` ?K \<times> {CE, PE}"
    proof
      fix p assume "p \<in> (\<lambda>i. (strike i, otype i)) ` set ?xs"
      then obtain i where i: "i \<in> set is" "\<bar>strike i - a\<bar> \<le> d" "p = (strike i, otype i)" by auto
      with g obtain k where "strike i = of_int k * g" by (auto simp: grid_def)
      with i show "p \<in> (\<lambda>k. of_int k * g) ` ?K \<times> {CE, PE}" by (cases "otype i") auto
    qed
  qed
  also have "\<dots> \<le> 16 * 2"
    using K card_image_le [OF K(1), of "\<lambda>k. of_int k * g"] by (simp add: card_cartesian_product)
  finally show ?thesis by simp
qed

lemma near_ids_cover:
  assumes "grid g eligible" "i \<in> set eligible" "\<bar>strike i - a\<bar> < 8 * g"
  shows "security_id i \<in> set (near_ids eligible a)"
proof -
  have "length (filter (\<lambda>y. (\<bar>strike y - a\<bar>, security_id y) \<le> (\<bar>strike i - a\<bar>, security_id i)) eligible)
      \<le> length (filter (\<lambda>y. \<bar>strike y - a\<bar> \<le> \<bar>strike i - a\<bar>) eligible)"
    by (induction eligible) auto
  also have "\<dots> \<le> 32" using grid_near_count [OF assms(1)] assms(3) by simp
  finally have "i \<in> set (take 32 (sort_key (\<lambda>y. (\<bar>strike y - a\<bar>, security_id y)) eligible))"
    by (rule take_sorted_near [OF assms(2)])
  then show ?thesis by (auto simp: near_ids_def)
qed


text \<open>The three expiries the window covers.\<close>

definition near_expiries :: "instrument list \<Rightarrow> day \<Rightarrow> day list" where
  "near_expiries catalogue today = take 3 (sort (remdups (map expiry (filter (\<lambda>i. today \<le> expiry i) catalogue))))"

lemma market_ids_near:
  assumes "a \<in> set anchors" "0 < a" "e \<in> set (near_expiries catalogue today)"
    "s \<in> set (near_ids (filter (\<lambda>i. expiry i = e) (filter (\<lambda>i. today \<le> expiry i) catalogue)) a)"
  shows "s \<in> set (market_ids catalogue today anchors held_ids future_id full_expiry False)"
  using assms by (auto simp: market_ids_def near_expiries_def Let_def)

text \<open>Around \<open>spot\<close> the side \<open>sd\<close> has a contract at every strike of the grid.\<close>

definition chain :: "decimal \<Rightarrow> option_type \<Rightarrow> decimal \<Rightarrow> instrument list \<Rightarrow> bool" where
  "chain g sd spot is = (grid g is \<and> (\<forall>k::int. \<bar>of_int k * g - spot\<bar> < 4 * g \<longrightarrow> (\<exists>j \<in> set is. otype j = sd \<and> strike j = of_int k * g)))"

lemma nearest_grid_point: "0 < (g::rat) \<Longrightarrow> \<exists>k::int. \<bar>of_int k * g - x\<bar> \<le> g / 2"
proof -
  assume g: "0 < g"
  have "\<bar>of_int (round (x / g)) - x / g\<bar> \<le> 1 / 2" by (rule of_int_round_abs_le)
  then have "\<bar>of_int (round (x / g)) - x / g\<bar> * g \<le> 1 / 2 * g" using g by (intro mult_right_mono) simp_all
  moreover have "\<bar>of_int (round (x / g)) - x / g\<bar> * g = \<bar>of_int (round (x / g)) * g - x\<bar>"
  proof -
    have "\<bar>of_int (round (x / g)) - x / g\<bar> * g = \<bar>(of_int (round (x / g)) - x / g) * g\<bar>" using g by (simp add: abs_mult)
    also have "(of_int (round (x / g)) - x / g) * g = of_int (round (x / g)) * g - x" using g by (simp add: left_diff_distrib)
    finally show ?thesis .
  qed
  ultimately show ?thesis by auto
qed

text \<open>Every contract the minute rules may choose lies within four strikes of the spot.\<close>

lemma sort_key_head:
  assumes "sort_key f xs = a # rest" "x \<in> set xs"
  shows "f a \<le> f x"
proof -
  have "sorted (map f (a # rest))" "x \<in> set (a # rest)" using sorted_sort_key [of f xs] assms by (metis, metis set_sort)
  then show ?thesis by auto
qed

lemma ladder_near:
  assumes c: "chain g sd spot (filter (\<lambda>j. expiry j = expiry i) catalogue)"
    and i: "i \<in> set (atm_ladder catalogue sd least spot)"
  shows "\<bar>strike i - spot\<bar> < 4 * g \<and> i \<in> set catalogue \<and> least \<le> expiry i"
proof -
  define el where "el = filter (\<lambda>i. otype i = sd \<and> least \<le> expiry i) catalogue"
  define row where "row = filter (\<lambda>i. expiry i = Min (set (map expiry el))) el"
  define way :: rat where "way = (if sd = CE then 1 else - 1)"
  define key where "key = (\<lambda>i::instrument. (\<bar>strike i - spot\<bar>, strike i, security_id i))"
  define out where "out = (\<lambda>(a::instrument) (i::instrument). (way * (strike i - strike a), security_id i))"
  have "atm_ladder catalogue sd least spot = (case sort_key key row of [] \<Rightarrow> []
      | a # _ \<Rightarrow> take 4 (sort_key (out a) (filter (\<lambda>i. 0 \<le> way * (strike i - strike a)) row)))"
    unfolding atm_ladder_def Let_def el_def row_def way_def key_def out_def ..
  with i obtain a rest where a: "sort_key key row = a # rest"
    and t: "i \<in> set (take 4 (sort_key (out a) (filter (\<lambda>i. 0 \<le> way * (strike i - strike a)) row)))"
    by (cases "sort_key key row") simp_all
  have ia: "i \<in> set row" "0 \<le> way * (strike i - strike a)" using in_set_takeD [OF t] by simp_all
  have ar: "a \<in> set row" by (metis a list.set_intros(1) set_sort)
  have e: "expiry i = Min (set (map expiry el))" "least \<le> expiry i" "i \<in> set catalogue" using ia by (auto simp: row_def el_def)
  have g: "0 < g" and w: "\<bar>way\<bar> = 1" "way * way = 1" using c by (auto simp: chain_def grid_def way_def)
  have row: "\<exists>j \<in> set row. strike j = of_int k * g" if "\<bar>of_int k * g - spot\<bar> < 4 * g" for k :: int
  proof -
    from c that obtain j where "j \<in> set (filter (\<lambda>j. expiry j = expiry i) catalogue)" "otype j = sd" "strike j = of_int k * g"
      unfolding chain_def by blast
    with e show ?thesis by (auto simp: row_def el_def)
  qed
  have atm: "\<bar>strike a - spot\<bar> \<le> g / 2"
  proof -
    obtain k :: int where k: "\<bar>of_int k * g - spot\<bar> \<le> g / 2" using nearest_grid_point [OF g] by blast
    with g have "\<bar>of_int k * g - spot\<bar> < 4 * g" by linarith
    then obtain j where j: "j \<in> set row" "strike j = of_int k * g" using row by blast
    from sort_key_head [OF a j(1)] have "\<bar>strike a - spot\<bar> \<le> \<bar>strike j - spot\<bar>" by (auto simp: key_def less_eq_prod_def)
    with j(2) k show ?thesis by simp
  qed
  have "a \<in> set (filter (\<lambda>j. expiry j = expiry i) catalogue)" using ar e by (auto simp: row_def el_def)
  with c obtain ka :: int where ka: "strike a = of_int ka * g" by (auto simp: chain_def grid_def)
  let ?far = "\<lambda>v. fst v \<le> 3 * g" and ?side = "filter (\<lambda>i. 0 \<le> way * (strike i - strike a)) row"
  have four: "strike a + way * of_int m * g \<in> strike ` set (filter (\<lambda>y. ?far (out a y)) ?side)" if m: "m \<in> {0, 1, 2, 3 :: int}" for m
  proof -
    have "\<bar>way * of_int m * g\<bar> \<le> 3 * g" using m g w by (auto simp: abs_mult)
    then have "\<bar>strike a + way * of_int m * g - spot\<bar> < 4 * g" using atm g by linarith
    moreover have k: "strike a + way * of_int m * g = of_int (ka + (if sd = CE then m else - m)) * g"
      by (simp add: ka way_def algebra_simps)
    ultimately obtain j where j: "j \<in> set row" "strike j = strike a + way * of_int m * g" using row by metis
    have "way * (strike j - strike a) = way * way * (of_int m * g)" by (simp add: j(2))
    then have v: "way * (strike j - strike a) = of_int m * g" using w(2) by simp
    have "0 \<le> of_int m * g" "of_int m * g \<le> 3 * g" using m g by auto
    with v j(1) have "j \<in> set (filter (\<lambda>y. ?far (out a y)) ?side)" by (simp add: out_def)
    with j(2) show ?thesis by (metis imageI)
  qed
  let ?M = "{0, 1, 2, 3 :: int}"
  have "inj_on (\<lambda>m. strike a + way * of_int m * g) ?M" using g w by (auto simp: inj_on_def)
  then have "card ((\<lambda>m. strike a + way * of_int m * g) ` ?M) = card ?M" by (rule card_image)
  moreover have "(\<lambda>m. strike a + way * of_int m * g) ` ?M \<subseteq> strike ` set (filter (\<lambda>y. ?far (out a y)) ?side)"
    using four by (intro image_subsetI)
  then have "card ((\<lambda>m. strike a + way * of_int m * g) ` ?M) \<le> card (strike ` set (filter (\<lambda>y. ?far (out a y)) ?side))"
    by (intro card_mono) simp_all
  moreover have "card ?M = 4" by simp
  ultimately have "4 \<le> card (strike ` set (filter (\<lambda>y. ?far (out a y)) ?side))" by linarith
  also have "\<dots> \<le> card (set (filter (\<lambda>y. ?far (out a y)) ?side))" by (rule card_image_le) simp
  also have "\<dots> \<le> length (filter (\<lambda>y. ?far (out a y)) ?side)" by (rule card_length)
  finally have "?far (out a i)"
    by (rule take_sorted_bound [OF t]) (auto simp: less_eq_prod_def)
  with ia(2) have "0 \<le> way * (strike i - strike a)" "way * (strike i - strike a) \<le> 3 * g" by (simp_all add: out_def)
  then have "\<bar>strike i - strike a\<bar> \<le> 3 * g" by (auto simp: way_def split: if_splits)
  with atm g e show ?thesis by linarith
qed


text \<open>
  C34: The window covers what the minute rules choose. Where an expiry's strikes lie on a grid,
  each listed at most once a side and none missing around the spot, every contract of the
  at-the-money ladder that a minute rule walks for that spot is in the subscription window,
  when the spot is one of the window's anchors and the ladder's expiry one of the three
  nearest from today on; so are the contracts less than eight strikes away on either side.
\<close>

theorem window_covers_ladder:
  assumes "chain g sd spot (filter (\<lambda>j. expiry j = expiry i) catalogue)" "spot \<in> set anchors" "0 < spot" "today \<le> least"
    "expiry i \<in> set (near_expiries catalogue today)"
    "i \<in> set (atm_ladder catalogue sd least spot) \<or> i \<in> set catalogue \<and> \<bar>strike i - spot\<bar> < 8 * g"
  shows "security_id i \<in> set (market_ids catalogue today anchors held_ids future_id full_expiry False)"
proof -
  have g: "0 < g" "grid g (filter (\<lambda>j. expiry j = expiry i) catalogue)" using assms(1) by (simp_all add: chain_def grid_def)
  have i: "i \<in> set catalogue" "\<bar>strike i - spot\<bar> < 8 * g"
    using assms(6) ladder_near [OF assms(1)] g(1) by force+
  have "expiry i \<in> set (sort (remdups (map expiry (filter (\<lambda>i. today \<le> expiry i) catalogue))))"
    using assms(5) unfolding near_expiries_def by (rule in_set_takeD)
  then have "today \<le> expiry i" by auto
  then have same: "filter (\<lambda>j. expiry j = expiry i) (filter (\<lambda>j. today \<le> expiry j) catalogue) = filter (\<lambda>j. expiry j = expiry i) catalogue"
    by (auto intro: filter_cong)
  have "security_id i \<in> set (near_ids (filter (\<lambda>j. expiry j = expiry i) catalogue) spot)"
    by (rule near_ids_cover [OF g(2) _ i(2)]) (simp add: i(1))
  then show ?thesis by (intro market_ids_near [OF assms(2,3,5)]) (simp only: same)
qed

definition demo_listed :: "int \<Rightarrow> option_type \<Rightarrow> instrument" where
  "demo_listed k sd = demo_instrument\<lparr>strike := of_int k * 50, otype := sd, security_id := show_int k @ (if sd = CE then ''C'' else ''P'')\<rparr>"

definition demo_catalogue :: "instrument list" where
  "demo_catalogue = concat (map (\<lambda>k. [demo_listed k CE, demo_listed k PE]) [477, 478, 479, 480, 481, 482, 483, 484])"

lemma demo_listed_fields: "expiry (demo_listed k sd) = 20000" "strike (demo_listed k sd) = of_int k * 50" "otype (demo_listed k sd) = sd"
  by (simp_all add: demo_listed_def demo_instrument_def)

lemma demo_chain: "chain 50 CE 24010 (filter (\<lambda>j. expiry j = 20000) demo_catalogue)"
proof -
  have all: "filter (\<lambda>j. expiry j = 20000) demo_catalogue = demo_catalogue"
    by (simp add: demo_catalogue_def demo_listed_fields)
  have "grid 50 demo_catalogue" by (auto simp: grid_def demo_catalogue_def demo_listed_fields)
  moreover have "\<exists>j \<in> set demo_catalogue. otype j = CE \<and> strike j = of_int k * 50" if "\<bar>of_int k * 50 - 24010\<bar> < (200 :: rat)" for k :: int
  proof -
    from that have "of_int (k * 50) < (of_int 24210 :: rat)" "(of_int 23810 :: rat) < of_int (k * 50)" by (auto simp: abs_less_iff)
    then have "k * 50 < 24210" "23810 < k * 50" by (simp_all only: of_int_less_iff)
    then have "k \<in> set [477, 478, 479, 480, 481, 482, 483, 484]" by simp presburger
    then show ?thesis by (auto simp: demo_catalogue_def demo_listed_fields)
  qed
  ultimately show ?thesis by (simp add: chain_def all)
qed

theorem window_covers_ladder_witness:
  "''483C'' \<in> set (market_ids demo_catalogue 20000 [24010] [] None None False)"
proof -
  have "demo_listed 483 CE \<in> set (atm_ladder demo_catalogue CE 20000 24010)" by code_simp
  moreover have "20000 \<in> set (near_expiries demo_catalogue 20000)" by code_simp
  moreover have "security_id (demo_listed 483 CE) = ''483C''" by code_simp
  ultimately show ?thesis
    using window_covers_ladder [of 50 CE 24010 "demo_listed 483 CE" demo_catalogue "[24010]" 20000 20000 "[]" None None] demo_chain
    by (simp add: demo_listed_fields)
qed

end
