(* ===== verification/SecondsProps.thy ===== *)
theory SecondsProps
  imports Seconds
begin

text \<open>
  What the quote-driven rules guarantee: an accepted entry is the highest tick worth its
  costs within the budget, the tape stays ordered and bounded whatever arrives, and every
  signal an evaluation returns can be entered at the current quotes.
\<close>

section \<open>Lemmas: the price search\<close>

lemma ctx28_le: "x \<le> y \<Longrightarrow> ctx28 x \<le> ctx28 y"
proof -
  assume le: "x \<le> y"
  have neg: "ctx28 (- z) = - ctx28 z" for z by (simp add: ctx28_def fround_minus)
  consider "0 < x" | "x \<le> 0" "0 \<le> y" | "y < 0" by linarith
  then show ?thesis
  proof cases
    case 1 then show ?thesis using le by (rule ctx28_mono)
  next
    case 2
    then have "0 \<le> ctx28 (- x)" "0 \<le> ctx28 y" by (simp_all add: ctx28_nonneg)
    then show ?thesis by (simp add: neg)
  next
    case 3
    then have "ctx28 (- y) \<le> ctx28 (- x)" using le by (intro ctx28_mono) simp_all
    then show ?thesis by (simp add: neg)
  qed
qed

definition entry_cost :: "int \<Rightarrow> decimal \<Rightarrow> decimal" where
  "entry_cost q price = of_int q * price + buy_amount default_fees (of_int q * price) 1"

definition net_at_target :: "int \<Rightarrow> decimal \<Rightarrow> decimal \<Rightarrow> decimal \<Rightarrow> decimal" where
  "net_at_target q target exit_fees price = dsub (dsub (dmul (of_int q) target) exit_fees) (entry_cost q price)"

definition worth_entering :: "int \<Rightarrow> decimal \<Rightarrow> decimal \<Rightarrow> decimal \<Rightarrow> decimal \<Rightarrow> bool" where
  "worth_entering q target exit_fees budget price =
     (0 < budget \<and> entry_cost q price + exit_fees \<le> budget
      \<and> max 50 (buy_amount default_fees (of_int q * price) 1 + exit_fees) \<le> net_at_target q target exit_fees price)"

lemma assess_price_eq:
  assumes "0 < q" "0 < price"
  obtains reason facts where "assess_price q target exit_fees budget price = Inr (reason, facts)"
    "reason = ''READY'' \<longleftrightarrow> worth_entering q target exit_fees budget price"
    "dget ''net_at_target'' facts = DDec (net_at_target q target exit_fees price)"
proof -
  have "0 < of_int q * price" using assms by simp
  then have "0 \<le> of_int q * price" by simp
  note fees = fee_buy_eq [OF fees_ok_default this order.refl] worst_case_entry_cash_eq [OF fees_ok_default assms order.refl]
  show ?thesis
  proof (cases "worth_entering q target exit_fees budget price")
    case True
    then show ?thesis
      by (intro that [of "''READY''"])
        (auto simp: worth_entering_def net_at_target_def entry_cost_def assess_price_def fees Let_def dget_def not_le not_less)
  next
    case False
    then consider "budget \<le> 0 \<or> budget < entry_cost q price + exit_fees"
      | "\<not> (budget \<le> 0 \<or> budget < entry_cost q price + exit_fees)"
        "net_at_target q target exit_fees price < max 50 (buy_amount default_fees (of_int q * price) 1 + exit_fees)"
      by (force simp: worth_entering_def not_le not_less)
    then show ?thesis
    proof cases
      case 1
      with False show ?thesis
        by (intro that [of "''SECONDS_UNAFFORDABLE''"])
          (auto simp: net_at_target_def entry_cost_def assess_price_def fees Let_def dget_def)
    next
      case 2
      with False show ?thesis
        by (intro that [of "''SECONDS_NET_EDGE_TOO_SMALL''"])
          (auto simp: net_at_target_def entry_cost_def assess_price_def fees Let_def dget_def)
    qed
  qed
qed

lemma entry_cost_mono: "0 < q \<Longrightarrow> 0 < x \<Longrightarrow> x \<le> y \<Longrightarrow> entry_cost q x \<le> entry_cost q y"
  unfolding entry_cost_def by (intro add_mono buy_amount_mono mult_left_mono) auto

lemma worth_entering_antimono:
  assumes "0 < q" "0 < x" "x \<le> y" "worth_entering q target exit_fees budget y"
  shows "worth_entering q target exit_fees budget x"
proof -
  have "buy_amount default_fees (of_int q * x) 1 \<le> buy_amount default_fees (of_int q * y) 1"
    using assms by (intro buy_amount_mono mult_left_mono) auto
  moreover have "net_at_target q target exit_fees y \<le> net_at_target q target exit_fees x"
    using entry_cost_mono [OF assms(1-3)] unfolding net_at_target_def
    by (subst (1 3) dsub_def) (intro ctx28_le diff_left_mono)
  ultimately show ?thesis using assms(4) entry_cost_mono [OF assms(1-3)] by (auto simp: worth_entering_def)
qed

text \<open>The tick positions above the least limit at which the entry is worth it form an initial segment.\<close>

definition step_worth :: "option_book \<Rightarrow> int \<Rightarrow> decimal \<Rightarrow> decimal \<Rightarrow> decimal \<Rightarrow> int \<Rightarrow> bool" where
  "step_worth b q target exit_fees budget n =
     (0 < q \<and> 0 < tick_size (instr b) \<and> 0 < minimum_limit b \<and> worth_entering q target exit_fees budget (price_at b n))"

interpretation price_search: threshold "step_worth b q target exit_fees budget" 0 for b q target exit_fees budget
proof unfold_locales
  fix m n :: int
  assume m: "0 \<le> m" "m \<le> n" and p: "step_worth b q target exit_fees budget n"
  then have "0 < q" "0 < tick_size (instr b)" "0 < minimum_limit b" by (simp_all add: step_worth_def)
  with m have "0 < price_at b m" "price_at b m \<le> price_at b n"
    by (simp_all add: price_at_def mult_right_mono add_pos_nonneg)
  with p show "step_worth b q target exit_fees budget m"
    using worth_entering_antimono by (auto simp: step_worth_def)
qed

lemma search_price_finds:
  assumes "0 < q" "0 < tick_size (instr b)" "0 < minimum_limit b" "minimum_limit b \<le> limit_ceiling b"
    and "search_price b q target exit_fees budget = Inr found"
  shows "(if worth_entering q target exit_fees budget (minimum_limit b)
    then \<exists>n. ec_candidate found = Some (instr b, q, price_at b n, b) \<and> ec_reason found = ''READY'' \<and> 0 \<le> n
      \<and> n \<le> trunc (ddiv (limit_ceiling b - minimum_limit b) (tick_size (instr b)))
      \<and> worth_entering q target exit_fees budget (price_at b n)
      \<and> (\<forall>m. n < m \<longrightarrow> m \<le> trunc (ddiv (limit_ceiling b - minimum_limit b) (tick_size (instr b)))
          \<longrightarrow> \<not> worth_entering q target exit_fees budget (price_at b m))
      \<and> dget ''net_at_target'' (ec_details found) = DDec (net_at_target q target exit_fees (price_at b n))
    else ec_candidate found = None \<and> ec_reason found \<noteq> ''READY'')"
proof -
  let ?hi = "trunc (ddiv (limit_ceiling b - minimum_limit b) (tick_size (instr b)))"
  let ?q = "\<lambda>n. bindR (assess_price q target exit_fees budget (price_at b n)) (\<lambda>(why, _). Inr (why = ''READY''))"
  obtain reason facts where a: "assess_price q target exit_fees budget (minimum_limit b) = Inr (reason, facts)"
      "reason = ''READY'' \<longleftrightarrow> worth_entering q target exit_fees budget (minimum_limit b)"
    using assess_price_eq [OF assms(1,3)] by metis
  show ?thesis
  proof (cases "worth_entering q target exit_fees budget (minimum_limit b)")
    case True
    have hi: "0 \<le> ?hi" using assms(2,4) by (simp add: trunc_def ddiv_def ctx28_nonneg)
    have pos: "0 < price_at b n" if "0 \<le> n" for n
      using that assms(2,3) by (simp add: price_at_def add_pos_nonneg)
    have step: "?q n = Inr (step_worth b q target exit_fees budget n)" if n: "0 \<le> n" for n
    proof -
      obtain r f where "assess_price q target exit_fees budget (price_at b n) = Inr (r, f)"
        "r = ''READY'' \<longleftrightarrow> worth_entering q target exit_fees budget (price_at b n)"
        using assess_price_eq [OF assms(1) pos [OF n]] by metis
      then show ?thesis using assms(1-3) by (simp add: step_worth_def)
    qed
    have "step_worth b q target exit_fees budget 0"
      using True assms(1-3) by (simp add: step_worth_def price_at_def)
    from price_search.search_steps_max [OF step order.refl this hi]
    obtain n where n: "search_steps ?q 0 0 ?hi = Inr n" "0 \<le> n" "n \<le> ?hi" "step_worth b q target exit_fees budget n"
      "\<And>m. n < m \<Longrightarrow> m \<le> ?hi \<Longrightarrow> \<not> step_worth b q target exit_fees budget m" by blast
    obtain r f where "assess_price q target exit_fees budget (price_at b n) = Inr (r, f)"
      "dget ''net_at_target'' f = DDec (net_at_target q target exit_fees (price_at b n))"
      using assess_price_eq [OF assms(1) pos [OF n(2)]] by metis
    with assms(5) a True n(1) have "ec_candidate found = Some (instr b, q, price_at b n, b)" "ec_reason found = ''READY''"
      "dget ''net_at_target'' (ec_details found) = DDec (net_at_target q target exit_fees (price_at b n))"
      by (auto simp: search_price_def)
    with True n(2-5) assms(1-3) show ?thesis by (auto simp: step_worth_def)
  next
    case False
    with a assms(5) show ?thesis by (auto simp: search_price_def reject_def)
  qed
qed

definition books_ok :: "(string \<times> option_book) list \<Rightarrow> bool" where
  "books_ok books = list_all (\<lambda>(k, b). instrument_ok (instr b) \<and> list_all (\<lambda>l. 0 < lv_price l) (asks b)) books"

lemma books_okD: "books_ok books \<Longrightarrow> map_of books k = Some b \<Longrightarrow> instrument_ok (instr b) \<and> (\<forall>l \<in> set (asks b). 0 < lv_price l)"
  by (force simp: books_ok_def list_all_iff dest: map_of_SomeD)

lemma current_minimum_limit:
  assumes "current b now" "0 < tick_size (instr b)" "\<forall>l \<in> set (asks b). 0 < lv_price l"
  shows "0 < minimum_limit b"
proof -
  from assms(1) obtain l where "top_ask b = Some l" by (auto simp: current_def)
  then have "0 < ask_price b" using top_askD [of b l] assms(3) by (simp add: ask_price_def)
  then show ?thesis using assms(2) by (simp add: minimum_limit_def)
qed

text \<open>The signal names the book: what every accepted candidate has passed before its price is searched.\<close>

definition signal_matches :: "evaluation \<Rightarrow> (string \<times> option_book) list \<Rightarrow> instant \<Rightarrow> option_book \<Rightarrow> bool" where
  "signal_matches sample books now b =
     (ev_strategy sample \<in> set SECONDS_NAMES \<and> ev_state sample = ''SIGNAL''
      \<and> 0 \<le> now - ev_at sample \<and> now - ev_at sample < seconds 5
      \<and> dget ''security_id'' (ev_details sample) = DText (security_id (instr b))
      \<and> map_of books (security_id (instr b)) = Some b \<and> current b now
      \<and> ev_side sample = Some (otype (instr b)) \<and> ev_minimum_expiry sample = Some (expiry (instr b))
      \<and> 2 * lot_size (instr b) \<le> bid_quantity b \<and> 2 * lot_size (instr b) \<le> ask_quantity b
      \<and> ddiv (ask_price b - bid_price b) (midpoint b) \<le> 1 / 100)"

lemma entry_assessment_cases:
  assumes "entry_assessment sample books budget now = Inr found" "books_ok books"
  obtains (rejected) "ec_candidate found = None" "ec_reason found \<noteq> ''READY''"
  | (searched) b target where "signal_matches sample books now b" "0 < minimum_limit b" "minimum_limit b \<le> limit_ceiling b"
      "\<not> below_band (instr b) (minimum_limit b)"
      "detail_decimal ''target_price'' (ev_details sample) = Inr (Some target)" "0 < target"
      "search_price b (lot_size (instr b)) target (sell_amount default_fees (dmul (of_int (lot_size (instr b))) target) 3) budget = Inr found"
proof (cases "ev_strategy sample \<notin> set SECONDS_NAMES \<or> ev_state sample \<noteq> ''SIGNAL'' \<or> \<not> (0 \<le> now - ev_at sample \<and> now - ev_at sample < seconds 5)")
  case True
  with assms(1) show ?thesis by (intro rejected) (auto simp: entry_assessment_def reject_def split: if_splits)
next
  case head: False
  show ?thesis
  proof (cases "case dget ''security_id'' (ev_details sample) of DText k \<Rightarrow> map_of books k | _ \<Rightarrow> None")
    case None
    with head assms(1) show ?thesis by (intro rejected) (auto simp: entry_assessment_def reject_def split: if_splits)
  next
    case (Some b)
    then obtain k where k: "dget ''security_id'' (ev_details sample) = DText k" "map_of books k = Some b"
      by (auto split: dval.splits)
    show ?thesis
    proof (cases "signal_matches sample books now b \<and> minimum_limit b \<le> limit_ceiling b \<and> \<not> below_band (instr b) (minimum_limit b)")
      case False
      with head k assms(1) show ?thesis
        by (intro rejected) (auto simp: entry_assessment_def reject_def Let_def signal_matches_def min_less_iff_disj split: if_splits)
    next
      case True
      then have ok: "instrument_ok (instr b)" "0 < minimum_limit b"
        using books_okD [OF assms(2) k(2)] current_minimum_limit instrument_okD by (auto simp: signal_matches_def)
      then have lot: "0 < lot_size (instr b)" by (intro instrument_okD)
      from True head k assms(1) have run: "bindR (detail_decimal ''target_price'' (ev_details sample)) (\<lambda>target. case target of
            None \<Rightarrow> Inr (reject ''SECONDS_TARGET_UNAVAILABLE'' [])
          | Some target \<Rightarrow>
            if target \<le> 0 then Inr (reject ''SECONDS_TARGET_UNAVAILABLE'' [])
            else bindR (fee_sell default_fees (dmul (of_int (lot_size (instr b))) target) 3) (\<lambda>exit_fees.
                 search_price b (lot_size (instr b)) target exit_fees budget)) = Inr found"
        by (auto simp: entry_assessment_def Let_def signal_matches_def min_less_iff_disj split: if_splits)
      then obtain target where t: "detail_decimal ''target_price'' (ev_details sample) = Inr target" by (elim bindR_InrE)
      show ?thesis
      proof (cases "\<exists>x. target = Some x \<and> 0 < x")
        case False
        with run t show ?thesis by (intro rejected) (auto simp: reject_def split: option.splits)
      next
        case pos: True
        then obtain x where x: "target = Some x" "0 < x" by blast
        have "0 \<le> dmul (of_int (lot_size (instr b))) x" using x lot by (simp add: dmul_def ctx28_nonneg)
        then have "search_price b (lot_size (instr b)) x (sell_amount default_fees (dmul (of_int (lot_size (instr b))) x) 3) budget = Inr found"
          using run t x by (simp add: fee_sell_eq)
        then show ?thesis using searched [of b x] True ok x t by blast
      qed
    qed
  qed
qed

text \<open>The ticks between the least limit and the ceiling; the search is over these.\<close>

definition ceiling_ticks :: "option_book \<Rightarrow> int" where
  "ceiling_ticks b = trunc (ddiv (limit_ceiling b - minimum_limit b) (tick_size (instr b)))"

definition ticks_fit :: "option_book \<Rightarrow> bool" where
  "ticks_fit b = (let exact = (\<lambda>x. ctx28 (x / tick_size (instr b)) = x / tick_size (instr b)) in
     exact (limit_ceiling b - minimum_limit b) \<and> (case upper_limit (instr b) of None \<Rightarrow> True | Some u \<Rightarrow> exact u))"

lemma price_within:
  assumes t: "0 < tick_size (instr b)" and c: "minimum_limit b \<le> limit_ceiling b"
    and n: "n \<le> trunc (ddiv (limit_ceiling b - minimum_limit b) (tick_size (instr b)))"
  shows "ticks_fit b \<longrightarrow> price_at b n \<le> limit_ceiling b \<and> (\<forall>u. upper_limit (instr b) = Some u \<longrightarrow> u \<noteq> 0 \<longrightarrow> price_at b n \<le> u)"
proof
  assume fit: "ticks_fit b"
  let ?x = "limit_ceiling b - minimum_limit b" and ?t = "tick_size (instr b)"
  have "trunc (ddiv ?x ?t) = \<lfloor>?x / ?t\<rfloor>" using fit t c by (simp add: ticks_fit_def ddiv_def trunc_def Let_def)
  with n have "of_int n \<le> ?x / ?t" by (simp add: le_floor_iff)
  then have "of_int n * ?t \<le> ?x" using t by (simp add: pos_le_divide_eq)
  then have below: "price_at b n \<le> limit_ceiling b" by (simp add: price_at_def)
  moreover have "limit_ceiling b \<le> u" if u: "upper_limit (instr b) = Some u" "u \<noteq> 0" for u
  proof -
    have "ddiv u ?t = u / ?t" using fit u by (simp add: ticks_fit_def ddiv_def Let_def)
    then have "limit_ceiling b \<le> of_int \<lfloor>u / ?t\<rfloor> * ?t" using u by (simp add: limit_ceiling_def Let_def)
    also have "\<dots> \<le> u / ?t * ?t" using t by (intro mult_right_mono of_int_floor_le) simp
    also have "\<dots> = u" using t by simp
    finally show ?thesis .
  qed
  ultimately show "price_at b n \<le> limit_ceiling b \<and> (\<forall>u. upper_limit (instr b) = Some u \<longrightarrow> u \<noteq> 0 \<longrightarrow> price_at b n \<le> u)"
    by (blast intro: order_trans)
qed

text \<open>
  C36: The price of a quote-driven entry. An accepted candidate is one lot of the contract the signal names, at a
  current book with a spread of at most one per cent and twice the lot on both sides, at a limit of at least the
  ask plus two ticks; its worst-case cash and the reserve for the exit fit the budget, its net at the target is
  at least 50 and at least all fees. The limit is a tick of the search, no higher than the ceiling (where the
  tick counts fit 28 digits, also in price: at most the ceiling and at most the upper band), and no higher tick up
  to the ceiling would be worth entering. A refusal is never called READY.
\<close>

theorem entry_assessment_sound:
  assumes "entry_assessment sample books budget now = Inr found" "books_ok books"
  shows "case ec_candidate found of
      None \<Rightarrow> ec_reason found \<noteq> ''READY''
    | Some (i, q, limit, b) \<Rightarrow>
        i = instr b \<and> q = lot_size i \<and> signal_matches sample books now b \<and> minimum_limit b \<le> limit \<and> \<not> below_band i limit
        \<and> (\<exists>target exit_fees n. detail_decimal ''target_price'' (ev_details sample) = Inr (Some target) \<and> 0 < target
            \<and> exit_fees = sell_amount default_fees (dmul (of_int q) target) 3
            \<and> entry_cost q limit + exit_fees \<le> budget \<and> 50 \<le> net_at_target q target exit_fees limit
            \<and> buy_amount default_fees (of_int q * limit) 1 + exit_fees \<le> net_at_target q target exit_fees limit
            \<and> limit = price_at b n \<and> 0 \<le> n \<and> n \<le> ceiling_ticks b
            \<and> (ticks_fit b \<longrightarrow> limit \<le> limit_ceiling b \<and> (\<forall>u. upper_limit i = Some u \<longrightarrow> u \<noteq> 0 \<longrightarrow> limit \<le> u))
            \<and> (\<forall>m. n < m \<longrightarrow> m \<le> ceiling_ticks b \<longrightarrow> \<not> worth_entering q target exit_fees budget (price_at b m)))"
  using assms
proof (cases rule: entry_assessment_cases)
  case (searched b target)
  let ?q = "lot_size (instr b)"
  let ?fees = "sell_amount default_fees (dmul (of_int ?q) target) 3"
  have ok: "0 < ?q" "0 < tick_size (instr b)"
    using searched(1) books_okD [OF assms(2)] instrument_okD by (auto simp: signal_matches_def)
  note found = search_price_finds [OF ok searched(2,3,7)]
  show ?thesis
  proof (cases "worth_entering ?q target ?fees budget (minimum_limit b)")
    case True
    with found obtain n where n: "ec_candidate found = Some (instr b, ?q, price_at b n, b)" "0 \<le> n"
      "n \<le> trunc (ddiv (limit_ceiling b - minimum_limit b) (tick_size (instr b)))"
      "worth_entering ?q target ?fees budget (price_at b n)"
      "\<And>m. n < m \<Longrightarrow> m \<le> trunc (ddiv (limit_ceiling b - minimum_limit b) (tick_size (instr b))) \<Longrightarrow>
         \<not> worth_entering ?q target ?fees budget (price_at b m)" by auto
    note upper = price_within [OF ok(2) searched(3) n(3)]
    have le: "minimum_limit b \<le> price_at b n" using n(2) ok by (simp add: price_at_def)
    with searched(4) have "\<not> below_band (instr b) (price_at b n)" by (auto simp: below_band_def split: option.splits)
    with n le upper searched show ?thesis by (auto simp: worth_entering_def ceiling_ticks_def)
  next
    case False
    with found show ?thesis by simp
  qed
qed simp

section \<open>Lemmas: the tape\<close>

text \<open>
  A series keeps its stamps at least \<open>gap\<close> apart and at most \<open>cap\<close> of them: the contract
  shared by the futures and by the rows of every option.
\<close>

definition spaced :: "('a \<Rightarrow> int) \<Rightarrow> int \<Rightarrow> nat \<Rightarrow> 'a list \<Rightarrow> bool" where
  "spaced f gap cap xs = (length xs \<le> cap \<and> sorted_wrt (\<lambda>x y. f x + gap \<le> f y) xs)"

lemma spaced_Nil [simp]: "spaced f gap cap []"
  by (simp add: spaced_def)

lemma sorted_wrt_last_n: "sorted_wrt P xs \<Longrightarrow> sorted_wrt P (last_n n xs)"
  by (simp add: last_n_def sorted_wrt_drop)

lemma spaced_snoc:
  assumes "spaced f gap cap xs" "xs = [] \<or> f (last xs) + gap \<le> f x" "0 \<le> gap"
  shows "spaced f gap cap (last_n cap (xs @ [x]))"
proof -
  have "f y + gap \<le> f x" if "y \<in> set xs" for y
  proof -
    from that have "xs \<noteq> []" by auto
    then obtain ys z where xs: "xs = ys @ [z]" by (cases xs rule: rev_cases) auto
    with assms(1) that have "y = z \<or> f y + gap \<le> f z" by (auto simp: spaced_def sorted_wrt_append)
    with assms(2,3) xs show ?thesis by auto
  qed
  with assms(1) have "sorted_wrt (\<lambda>x y. f x + gap \<le> f y) (xs @ [x])" by (auto simp: spaced_def sorted_wrt_append)
  then show ?thesis by (simp add: spaced_def sorted_wrt_last_n)
qed

definition future_ok :: "(int \<times> decimal) list \<Rightarrow> bool" where
  "future_ok xs = (spaced fst 100000000 1200 xs \<and> (\<forall>(s, p) \<in> set xs. 0 < p))"

definition rows_ok :: "quote_row list \<Rightarrow> bool" where
  "rows_ok rows = (rows \<noteq> [] \<and> spaced qr_stamp 200000000 600 rows)"

definition options_ok :: "(string \<times> quote_row list) list \<Rightarrow> bool" where
  "options_ok m = (distinct (map fst m) \<and> length m \<le> 96 \<and> (\<forall>rows \<in> snd ` set m. rows_ok rows))"

definition slope_ok :: "decimal \<Rightarrow> bool" where
  "slope_ok x = (1 / 10 \<le> \<bar>x\<bar> \<and> \<bar>x\<bar> \<le> 9 / 10)"

definition tape_ok :: "tape \<Rightarrow> bool" where
  "tape_ok t =
     (future_ok (tp_future t)
      \<and> options_ok (tp_options t)
      \<and> distinct (tp_selected t) \<and> length (tp_selected t) \<le> 24 \<and> set (tp_selected t) \<subseteq> fst ` set (tp_options t)
      \<and> (\<forall>(k, s, x) \<in> set (tp_beta t). slope_ok x)
      \<and> (tp_usable t \<longrightarrow> tp_future t \<noteq> [])
      \<and> (tp_future t \<noteq> [] \<longrightarrow> tp_epoch t \<noteq> None))"

lemma tape_ok_reset: "tape_ok tape_reset"
  by (simp add: tape_ok_def tape_reset_def options_ok_def future_ok_def)

lemma tape_ok_invalidate: "tape_ok t \<Longrightarrow> tape_ok (invalidate_future t)"
  by (simp add: tape_ok_def invalidate_future_def)

lemma last_n_snoc_in: "y \<in> set (last_n n (xs @ [x])) \<Longrightarrow> y = x \<or> y \<in> set xs"
  using set_last_n [of n "xs @ [x]"] by auto

lemma future_ok_snoc:
  assumes "future_ok xs" "xs = [] \<or> fst (last xs) + 100000000 \<le> received" "0 < p"
  shows "future_ok (last_n 1200 (xs @ [(received, p)]))"
proof -
  have "0 < y" if "(s, y) \<in> set (last_n 1200 (xs @ [(received, p)]))" for s y
    using last_n_snoc_in [OF that] assms by (auto simp: future_ok_def)
  moreover have "spaced fst 100000000 1200 (last_n 1200 (xs @ [(received, p)]))"
    by (rule spaced_snoc) (use assms in \<open>auto simp: future_ok_def\<close>)
  ultimately show ?thesis by (auto simp: future_ok_def)
qed

lemma future_ok_one: "0 < p \<Longrightarrow> future_ok [(received, p)]"
  by (simp add: future_ok_def spaced_def)

lemma last_n_snoc_nonempty: "last_n 1200 (xs @ [x]) \<noteq> []"
  by (simp add: last_n_snoc)

lemma tape_ok_tick:
  assumes "tape_ok t"
  shows "tape_ok (future_tick price received epoch t)"
  using assms by (auto simp: future_tick_def tape_ok_def Let_def not_less not_le future_ok_one future_ok_snoc last_n_snoc_nonempty split: option.splits)

lemma options_ok_filter: "options_ok m \<Longrightarrow> options_ok (filter P m)"
  by (auto simp: options_ok_def distinct_map_filter intro: le_trans [OF length_filter_le])

lemma rows_ok_add: "rows_ok rows \<or> rows = [] \<Longrightarrow> rows_ok (add_row b rows)"
  using spaced_snoc [of qr_stamp 200000000 600 rows "book_row b"]
  by (auto simp: rows_ok_def add_row_def book_row_def last_n_snoc)

lemma set_update_subset: "set (AList.update k v m) \<subseteq> insert (k, v) (set m)"
  by (induction m) auto

lemma owned_rows: "\<forall>rows \<in> snd ` set m. rows_ok rows \<Longrightarrow> rows_ok (owned k m) \<or> owned k m = []"
  by (force simp: owned_def dest: map_of_SomeD split: option.splits)

lemma take_rows_simps [simp]:
  "take_rows [] m = m"
  "take_rows (b # bs) m = take_rows bs (AList.update (security_id (instr b)) (add_row b (owned (security_id (instr b)) m)) m)"
  by (simp_all add: take_rows_def Let_def)

lemma take_rows_ok:
  assumes "distinct (map fst m)" "\<forall>rows \<in> snd ` set m. rows_ok rows"
  shows "distinct (map fst (take_rows bs m)) \<and> (\<forall>rows \<in> snd ` set (take_rows bs m). rows_ok rows)
    \<and> fst ` set (take_rows bs m) = fst ` set m \<union> (\<lambda>b. security_id (instr b)) ` set bs"
  using assms
proof (induction bs arbitrary: m)
  case (Cons b bs)
  let ?k = "security_id (instr b)"
  let ?m = "AList.update ?k (add_row b (owned ?k m)) m"
  have d: "distinct (map fst ?m)" using Cons.prems(1) by (simp add: distinct_update)
  have "rows_ok (add_row b (owned ?k m))"
    by (rule rows_ok_add, rule owned_rows) (rule Cons.prems(2))
  then have r: "\<forall>rows \<in> snd ` set ?m. rows_ok rows"
    using Cons.prems(2) set_update_subset [of ?k "add_row b (owned ?k m)" m] by auto
  have f: "fst ` set ?m = insert ?k (fst ` set m)"
    using dom_update [of ?k "add_row b (owned ?k m)" m] by (simp add: dom_map_of_conv_image_fst)
  from Cons.IH [OF d r] show ?case unfolding f take_rows_simps by simp
qed simp

lemma length_options: "distinct (map fst m) \<Longrightarrow> fst ` set m \<subseteq> set ks \<Longrightarrow> length ks \<le> 96 \<Longrightarrow> length m \<le> 96"
  using card_mono [of "set ks" "fst ` set m"] distinct_card [of "map fst m"] card_length [of ks] by simp

lemma tape_ok_ingest:
  assumes "tape_ok t"
  shows "tape_ok (ingest books now t)"
proof -
  define t0 where "t0 = t\<lparr>tp_selected := [], tp_options := tracked (ns now - 90000000000) (tp_options t)\<rparr>"
  have t0: "tape_ok t0" using assms by (simp add: t0_def tape_ok_def tracked_def options_ok_filter)
  define xs where "xs = filter (\<lambda>b. current b now \<and> Some (bk_epoch b) = tp_epoch t0) (map snd books)"
  define bs where "bs = take 24 (nearest (snd (last (tp_future t0))) xs)"
  define chosen where "chosen = remdups (map (\<lambda>b. security_id (instr b)) bs)"
  define keep where "keep = chosen @ recent_keys chosen (tp_options t0)"
  define options where "options = filter (\<lambda>(k, v). k \<in> set keep) (tp_options t0)"
  define options' where "options' = take_rows bs options"
  have run: "ingest books now t = (if tp_future t0 = [] \<or> xs = [] then t0
      else t0\<lparr>tp_selected := chosen, tp_beta := filter (\<lambda>(k, v). k \<in> set keep) (tp_beta t0), tp_options := options'\<rparr>)"
    by (simp add: ingest_def Let_def t0_def xs_def bs_def chosen_def keep_def options_def options'_def)
  have chosen: "distinct chosen" "length chosen \<le> 24" "set chosen = (\<lambda>b. security_id (instr b)) ` set bs"
    using length_remdups_leq [of "map (\<lambda>b. security_id (instr b)) bs"] by (simp_all add: chosen_def bs_def)
  have "options_ok options" using t0 by (simp add: options_def tape_ok_def options_ok_filter)
  then have rows: "distinct (map fst options')" "\<forall>r \<in> snd ` set options'. rows_ok r"
      "fst ` set options' = fst ` set options \<union> set chosen"
    using take_rows_ok [of options bs] by (simp_all add: options'_def options_ok_def chosen(3))
  moreover have "fst ` set options' \<subseteq> set keep" using rows(3) by (auto simp: options_def keep_def)
  moreover have "length keep \<le> 96" using chosen(2) by (simp add: keep_def recent_keys_def)
  ultimately have "options_ok options'" by (simp add: options_ok_def length_options)
  with t0 chosen rows(3) show ?thesis by (auto simp: run tape_ok_def)
qed

lemma fitted_beta_ok: "fitted_beta ps = Some x \<Longrightarrow> slope_ok x"
  by (auto simp: fitted_beta_def slope_ok_def Let_def split: if_splits)

lemma tape_ok_beta:
  assumes "tape_ok t" "beta k now_ns t = (x, t')"
  shows "tape_ok t'" and "x = Some y \<Longrightarrow> slope_ok y"
proof -
  have new: "tape_ok (t\<lparr>tp_beta := AList.update k (now_ns, z) (tp_beta t)\<rparr>)" if "slope_ok z" for z
    using assms(1) that set_update_subset [of k "(now_ns, z)" "tp_beta t"] by (fastforce simp: tape_ok_def)
  from assms show "tape_ok t'" by (auto simp: beta_def new fitted_beta_ok split: option.splits)
  have "slope_ok y" if "remembered k now_ns (tp_beta t) = Some y" for y
    using assms(1) that by (auto simp: remembered_def tape_ok_def dest!: map_of_SomeD split: option.splits if_splits)
  with assms(2) show "x = Some y \<Longrightarrow> slope_ok y"
    by (auto simp: beta_def fitted_beta_ok split: option.splits)
qed

lemma tape_ok_curve: "tape_ok t \<Longrightarrow> tape_ok (t\<lparr>tp_curve := m\<rparr>)"
  by (simp add: tape_ok_def)

lemma emit_tape: "emit h mo name b target extra sc = Inr sc' \<Longrightarrow> sc_tape sc' = sc_tape sc"
  by (auto simp: emit_def put_result_def Let_def bindR_Inr_iff split: if_splits)

section \<open>What every rule keeps\<close>

text \<open>
  A property of the scan that emitting a setup, remembering a response or a curve and
  counting keep is kept by every rule, so by the whole evaluation.
\<close>

locale scan_invariant =
  fixes I :: "scan \<Rightarrow> bool" and h :: "string \<Rightarrow> string" and mo :: moment
  assumes emit: "name \<in> set SECONDS_NAMES \<Longrightarrow> fst ` set extra \<subseteq> {''response_beta''} \<Longrightarrow> I sc \<Longrightarrow>
      emit h mo name b target extra sc = Inr sc' \<Longrightarrow> I sc'"
    and beta: "I sc \<Longrightarrow> beta k (mo_stamp mo) (sc_tape sc) = (x, t) \<Longrightarrow> I (sc\<lparr>sc_tape := t\<rparr>)"
    and curve: "I sc \<Longrightarrow> I (sc\<lparr>sc_tape := (sc_tape sc)\<lparr>tp_curve := m\<rparr>\<rparr>)"
    and count: "I sc \<Longrightarrow> I (sc\<lparr>sc_fitted := n\<rparr>)" "I sc \<Longrightarrow> I (sc\<lparr>sc_flow := n\<rparr>)" "I sc \<Longrightarrow> I (sc\<lparr>sc_curve := n\<rparr>)"
begin

lemma guarded:
  assumes "whenR c (emit h mo name b target extra) sc = Inr sc'" "name \<in> set SECONDS_NAMES"
    "fst ` set extra \<subseteq> {''response_beta''}" "I sc"
  shows "I sc'"
  using assms emit by (auto simp: whenR_def split: if_splits)

lemma guarded_option:
  assumes "(case v of None \<Rightarrow> Inr sc | Some x \<Rightarrow> whenR (c x) (emit h mo name b (g x) extra) sc) = Inr sc'"
    "name \<in> set SECONDS_NAMES" "fst ` set extra \<subseteq> {''response_beta''}" "I sc"
  shows "I sc'"
  using assms guarded [OF _ assms(2-4)] by (auto split: option.splits)

lemma guarded_event:
  assumes "(case u of None \<Rightarrow> Inr sc | Some y \<Rightarrow>
      (case v y of None \<Rightarrow> Inr sc | Some x \<Rightarrow> whenR (c x) (emit h mo name b (g x) extra) sc)) = Inr sc'"
    "name \<in> set SECONDS_NAMES" "fst ` set extra \<subseteq> {''response_beta''}" "I sc"
  shows "I sc'"
  using assms guarded_option [OF _ assms(2-4)] by (cases u) auto

lemma fitted_three:
  assumes "I sc" "fitted_rules h mo b slope a sc = Inr sc'"
  shows "I sc'"
proof -
  let ?extra = "[(''response_beta'', DDec slope)]"
  have extra: "fst ` set ?extra \<subseteq> {''response_beta''}" by simp
  have names: "NAME_CATCHUP \<in> set SECONDS_NAMES" "NAME_BREAKOUT \<in> set SECONDS_NAMES" "NAME_EVENT \<in> set SECONDS_NAMES"
    by (simp_all add: SECONDS_NAMES_def NAME_CATCHUP_def NAME_BREAKOUT_def NAME_EVENT_def)
  from assms(2) show ?thesis
    unfolding fitted_rules_def Let_def
    by (elim bindR_InrE) (erule guarded_event [OF _ names(3) extra], erule guarded [OF _ names(2) extra],
      erule guarded_option [OF _ names(1) extra], rule assms(1))
qed

lemma fitted:
  assumes "I sc" "scan_fitted h mo b sc = Inr sc'"
  shows "I sc'"
proof -
  obtain slope t where bt: "beta (security_id (instr b)) (mo_stamp mo) (sc_tape sc) = (slope, t)" by force
  note i1 = beta [OF assms(1) bt]
  then have "I (sc\<lparr>sc_tape := t, sc_fitted := n\<rparr>)" for n by (rule count)
  with assms(2) bt i1 show ?thesis
    by (auto simp: scan_fitted_def Let_def split: option.splits if_splits intro: fitted_three)
qed

lemma flow:
  assumes "I sc" "scan_flow h mo b sc = Inr sc'"
  shows "I sc'"
proof -
  have name: "NAME_FLOW \<in> set SECONDS_NAMES" by (simp add: SECONDS_NAMES_def NAME_FLOW_def)
  have "I (sc\<lparr>sc_flow := sc_flow sc + 1\<rparr>)" using assms(1) by (rule count)
  with assms show ?thesis
    using emit [OF name, of "[]" "sc\<lparr>sc_flow := sc_flow sc + 1\<rparr>"] by (auto simp: scan_flow_def Let_def split: option.splits if_splits)
qed

lemma plain: "emit h mo name b target [] s = Inr s' \<Longrightarrow> name \<in> set SECONDS_NAMES \<Longrightarrow> I s \<Longrightarrow> I s'"
  by (rule emit [of name "[]"]) simp_all

lemma strike_curve:
  assumes "I sc" "scan_curve h mo b sc = Inr sc'"
  shows "I sc'"
proof -
  have name: "NAME_STRIKE \<in> set SECONDS_NAMES" by (simp add: SECONDS_NAMES_def NAME_STRIKE_def)
  let ?c = "sc\<lparr>sc_curve := sc_curve sc + 1\<rparr>"
  have c: "I ?c" using assms(1) by (rule count)
  have "I (?c\<lparr>sc_tape := (sc_tape sc)\<lparr>tp_curve := m\<rparr>\<rparr>)" for m using curve [OF c, of m] by simp
  with c assms name show ?thesis
    by (auto simp: scan_curve_def Let_def split: option.splits if_splits dest!: plain)
qed

lemma every_rule:
  assumes "I sc" "scan_book h mo b sc = Inr sc'"
  shows "I sc'"
  using assms unfolding scan_book_def by (elim bindR_InrE) (rule strike_curve, rule flow, rule fitted)

lemma every_book:
  assumes "foldR (scan_book h mo) bs sc = Inr sc'" "I sc"
  shows "I sc'"
  by (rule foldR_inv [where P = I, OF assms]) (rule every_rule)

end

interpretation kept_tape: scan_invariant "\<lambda>sc. tape_ok (sc_tape sc)" h mo for h mo
  by unfold_locales (simp_all add: emit_tape tape_ok_beta tape_ok_curve)

lemma tape_ok_evaluate:
  assumes "tape_ok t" "tape_evaluate h now books cal event budget t = Inr (result, t')"
  shows "tape_ok t'"
proof -
  have run: "tape_ok u'" if rules: "run_rules h mo u = Inr (r, u')" and u: "tape_ok u" for mo u r u'
  proof -
    from rules obtain sc where "foldR (scan_book h mo) (mo_eligible mo) (scan_start mo u) = Inr sc" "u' = sc_tape sc"
      by (auto simp: run_rules_def bindR_Inr_iff)
    moreover have "tape_ok (sc_tape (scan_start mo u))" using u by (simp add: scan_start_def)
    ultimately show ?thesis using kept_tape.every_book by blast
  qed
  from assms tape_ok_ingest [OF assms(1), of books now] show ?thesis
    by (auto simp: tape_evaluate_def Let_def split: if_splits option.splits dest: run)
qed

text \<open>The tapes that ticks, unusable books, reconnections and evaluations reach.\<close>

inductive tape_reachable :: "tape \<Rightarrow> bool" where
  start: "tape_reachable tape_reset"
| tick: "tape_reachable t \<Longrightarrow> tape_reachable (future_tick price received epoch t)"
| unusable: "tape_reachable t \<Longrightarrow> tape_reachable (invalidate_future t)"
| evaluated: "tape_reachable t \<Longrightarrow> tape_evaluate h now books cal event budget t = Inr (result, t') \<Longrightarrow> tape_reachable t'"

lemma reachable_tape_ok: "tape_reachable t \<Longrightarrow> tape_ok t"
  by (induction rule: tape_reachable.induct) (auto intro: tape_ok_reset tape_ok_tick tape_ok_invalidate tape_ok_evaluate)

section \<open>What a signal promises\<close>

lemma map_of_dmerge: "k \<notin> fst ` set new \<Longrightarrow> map_of (dmerge old new) k = map_of old k"
  unfolding dmerge_def
proof (induction new arbitrary: old)
  case (Cons x new)
  then show ?case by (cases x) (simp add: update_conv')
qed simp

lemma entry_assessment_cong:
  assumes "ev_strategy x = ev_strategy y" "ev_state x = ev_state y" "ev_at x = ev_at y" "ev_side x = ev_side y"
    "ev_minimum_expiry x = ev_minimum_expiry y" "map_of (ev_details x) ''security_id'' = map_of (ev_details y) ''security_id''"
    "map_of (ev_details x) ''target_price'' = map_of (ev_details y) ''target_price''"
  shows "entry_assessment x books budget now = entry_assessment y books budget now"
proof -
  have d: "dget ''security_id'' (ev_details x) = dget ''security_id'' (ev_details y)"
    "detail_decimal ''target_price'' (ev_details x) = detail_decimal ''target_price'' (ev_details y)"
    using assms(6,7) by (simp_all add: dget_def detail_decimal_def)
  show ?thesis unfolding entry_assessment_def assms(1-5) d by (rule refl)
qed

definition executable :: "(string \<times> option_book) list \<Rightarrow> decimal \<Rightarrow> instant \<Rightarrow> evaluation \<Rightarrow> bool" where
  "executable books budget now x = (\<exists>c. entry_candidate x books budget now = Inr c \<and> c \<noteq> None)"

lemma executable_more_details:
  assumes "fst ` set new \<inter> {''security_id'', ''target_price''} = {}"
  shows "executable books budget now (x\<lparr>ev_details := dmerge (ev_details x) new\<rparr>) = executable books budget now x"
proof -
  have "entry_assessment (x\<lparr>ev_details := dmerge (ev_details x) new\<rparr>) books budget now = entry_assessment x books budget now"
    by (rule entry_assessment_cong) (use assms in \<open>auto intro: map_of_dmerge\<close>)
  then show ?thesis by (simp add: executable_def entry_candidate_def)
qed

definition signals_hold :: "moment \<Rightarrow> scan \<Rightarrow> bool" where
  "signals_hold mo sc = (map fst (sc_result sc) = SECONDS_NAMES
     \<and> (\<forall>(n, x) \<in> set (sc_result sc). ev_strategy x = n
         \<and> (ev_state x = ''SIGNAL'' \<longrightarrow> executable (mo_books mo) (mo_budget mo) (mo_at mo) x)))"

lemma put_result_holds:
  assumes "signals_hold mo sc" "name \<in> set SECONDS_NAMES" "ev_strategy x = name"
    "ev_state x = ''SIGNAL'' \<Longrightarrow> executable (mo_books mo) (mo_budget mo) (mo_at mo) x"
  shows "signals_hold mo (put_result name x sc)"
proof -
  have "map fst (AList.update name x (sc_result sc)) = SECONDS_NAMES"
    using assms(1,2) by (simp add: update_keys signals_hold_def)
  moreover have "set (AList.update name x (sc_result sc)) \<subseteq> insert (name, x) (set (sc_result sc))" by (rule set_update_subset)
  ultimately show ?thesis using assms by (fastforce simp: signals_hold_def put_result_def)
qed

lemma result_of_strategy:
  assumes "signals_hold mo sc" "name \<in> set SECONDS_NAMES"
  shows "ev_strategy (result_of sc name) = name"
proof -
  from assms have "name \<in> fst ` set (sc_result sc)" unfolding signals_hold_def by (metis list.set_map)
  then obtain x where "map_of (sc_result sc) name = Some x" by (metis not_Some_eq map_of_eq_None_iff)
  with assms(1) show ?thesis by (auto simp: result_of_def signals_hold_def dest!: map_of_SomeD)
qed

lemma setup_fields: "ev_strategy (seconds_setup h mo t name b target extra) = name"
  by (simp add: seconds_setup_def seconds_opportunity_def plain_evaluation_def Let_def)

lemma emit_holds:
  assumes "name \<in> set SECONDS_NAMES" "signals_hold mo sc" "emit h mo name b target extra sc = Inr sc'"
  shows "signals_hold mo sc'"
proof -
  let ?sample = "seconds_setup h mo (sc_tape sc) name b target extra"
  from assms(3) obtain found where f: "entry_assessment ?sample (mo_books mo) (mo_budget mo) (mo_at mo) = Inr found"
    by (auto simp: emit_def Let_def bindR_Inr_iff)
  show ?thesis
  proof (cases "ec_candidate found")
    case None
    with assms f show ?thesis
      by (auto simp: emit_def Let_def split: if_splits intro!: put_result_holds result_of_strategy)
  next
    case (Some c)
    have "executable (mo_books mo) (mo_budget mo) (mo_at mo) ?sample"
      using f Some by (cases c) (simp add: executable_def entry_candidate_def)
    then have "executable (mo_books mo) (mo_budget mo) (mo_at mo)
        (?sample\<lparr>ev_details := dmerge (ev_details ?sample)
                   [(''contract_selection'', DText ''MAX_QUALIFIED_NET_HEADROOM''),
                    (''qualified_net_headroom'', dget ''net_at_target'' (ec_details found)),
                    (''entry_limit_policy'', dget ''entry_limit_policy'' (ec_details found))]\<rparr>)"
      by (subst executable_more_details) simp_all
    with assms f Some show ?thesis
      by (auto simp: emit_def Let_def split: if_splits intro!: put_result_holds simp: setup_fields)
  qed
qed

interpretation kept_signals: scan_invariant "signals_hold mo" h mo for h mo
  by (unfold_locales, rule emit_holds) (assumption | simp add: signals_hold_def)+

lemma scan_start_holds: "signals_hold mo (scan_start mo t)"
  by (auto simp: signals_hold_def scan_start_def plain_evaluation_def comp_def)

text \<open>What the evaluation returns: the five rules in order, every signal among them executable.\<close>

definition sound_result :: "(string \<times> option_book) list \<Rightarrow> decimal \<Rightarrow> instant \<Rightarrow> (string \<times> evaluation) list \<Rightarrow> bool" where
  "sound_result books budget now result = (map fst result = SECONDS_NAMES
     \<and> (\<forall>(n, x) \<in> set result. ev_strategy x = n
         \<and> (ev_state x = ''SIGNAL'' \<longrightarrow> executable books budget now x \<and> executable books 1000000000 now x)))"

lemma drop_costly_sound:
  assumes "mapR (drop_costly books now) xs = Inr ys"
    "\<forall>(n, x) \<in> set xs. ev_strategy x = n \<and> (ev_state x = ''SIGNAL'' \<longrightarrow> executable books budget now x)"
  shows "map fst ys = map fst xs \<and> (\<forall>(n, x) \<in> set ys. ev_strategy x = n
    \<and> (ev_state x = ''SIGNAL'' \<longrightarrow> executable books budget now x \<and> executable books 1000000000 now x))"
  using assms
proof (induction xs arbitrary: ys)
  case (Cons x xs)
  obtain n e where x: "x = (n, e)" by force
  from Cons.prems(1) obtain y zs where y: "drop_costly books now x = Inr y" and zs: "mapR (drop_costly books now) xs = Inr zs"
    and ys: "ys = y # zs" by (auto simp: bindR_Inr_iff)
  have "fst y = n \<and> ev_strategy (snd y) = n
      \<and> (ev_state (snd y) = ''SIGNAL'' \<longrightarrow> executable books budget now (snd y) \<and> executable books 1000000000 now (snd y))"
  proof (cases "ev_state e = ''SIGNAL''")
    case True
    with y x obtain c where "entry_candidate e books 1000000000 now = Inr c"
      "y = (n, if c = None then e\<lparr>ev_state := ''NO_SIGNAL'', ev_reason := ''SECONDS_EDGE_BELOW_COSTS'', ev_side := None\<rparr> else e)"
      by (auto simp: drop_costly_def bindR_Inr_iff)
    then show ?thesis using Cons.prems(2) x by (cases "c = None") (simp_all add: executable_def)
  qed (use y Cons.prems(2) x in \<open>auto simp: drop_costly_def\<close>)
  moreover have "map fst zs = map fst xs \<and> (\<forall>(n, x) \<in> set zs. ev_strategy x = n
      \<and> (ev_state x = ''SIGNAL'' \<longrightarrow> executable books budget now x \<and> executable books 1000000000 now x))"
    using Cons.IH [OF zs] Cons.prems(2) by simp
  ultimately show ?case using x ys by (auto simp: case_prod_beta)
qed simp

lemma diagnose_sound:
  "fst (diagnose mo sc (n, x)) = n" "ev_strategy (snd (diagnose mo sc (n, x))) = ev_strategy x"
  "ev_state (snd (diagnose mo sc (n, x))) = ev_state x"
  "executable books budget now (snd (diagnose mo sc (n, x))) = executable books budget now x"
  by (simp_all add: diagnose_def executable_more_details)

lemma run_rules_sound:
  assumes "run_rules h mo t = Inr (result, t')"
  shows "sound_result (mo_books mo) (mo_budget mo) (mo_at mo) result"
proof -
  from assms obtain sc ys where sc: "foldR (scan_book h mo) (mo_eligible mo) (scan_start mo t) = Inr sc"
    and ys: "mapR (drop_costly (mo_books mo) (mo_at mo)) (sc_result sc) = Inr ys" and r: "result = map (diagnose mo sc) ys"
    by (auto simp: run_rules_def bindR_Inr_iff)
  have "signals_hold mo sc" using sc scan_start_holds by (rule kept_signals.every_book)
  then have s: "map fst (sc_result sc) = SECONDS_NAMES"
    "\<forall>(n, x) \<in> set (sc_result sc). ev_strategy x = n \<and> (ev_state x = ''SIGNAL'' \<longrightarrow> executable (mo_books mo) (mo_budget mo) (mo_at mo) x)"
    by (simp_all add: signals_hold_def)
  have "fst \<circ> diagnose mo sc = fst" by (auto simp: diagnose_def split: prod.splits)
  with drop_costly_sound [OF ys s(2)] s(1) have "map fst result = SECONDS_NAMES" by (simp add: r)
  moreover have "ev_strategy x = n \<and> (ev_state x = ''SIGNAL'' \<longrightarrow>
      executable (mo_books mo) (mo_budget mo) (mo_at mo) x \<and> executable (mo_books mo) 1000000000 (mo_at mo) x)"
    if nx: "(n, x) \<in> set result" for n x
  proof -
    from nx r obtain m e where me: "(m, e) \<in> set ys" "(n, x) = diagnose mo sc (m, e)" by auto
    then have "n = m" "x = snd (diagnose mo sc (m, e))" using diagnose_sound(1) by (metis fst_conv, metis snd_conv)
    with me(1) drop_costly_sound [OF ys s(2)] show ?thesis by (auto simp: diagnose_sound)
  qed
  ultimately show ?thesis by (auto simp: sound_result_def)
qed

definition quiet :: "(string \<times> evaluation) list \<Rightarrow> bool" where
  "quiet result = (map fst result = SECONDS_NAMES \<and> (\<forall>(n, x) \<in> set result. ev_strategy x = n \<and> ev_state x \<noteq> ''SIGNAL''))"

lemma quiet_simps [simp]:
  "quiet (map (\<lambda>n. (n, plain_evaluation n ''NOT_APPLICABLE'' r now d)) SECONDS_NAMES)"
  "quiet (unready now ''UNKNOWN'' r d)" "quiet (unready now ''WAITING'' r d)"
  by (auto simp: quiet_def unready_def plain_evaluation_def comp_def)

lemma quiet_sound: "quiet result \<Longrightarrow> sound_result books budget now result"
  by (auto simp: quiet_def sound_result_def)

lemma tape_evaluate_cases:
  assumes "tape_evaluate h now books cal event budget t = Inr (result, t')"
  obtains "quiet result"
  | c closes old u where "cal = Some c" "is_open c now" "future_current t now"
      "run_rules h (make_moment now books closes budget event old u) u = Inr (result, t')"
proof (cases "session_over cal now \<or> \<not> future_current t now \<or> cal = None")
  case True
  with assms that(1) show ?thesis by (auto simp: tape_evaluate_def split: if_splits)
next
  case False
  then obtain c where c: "cal = Some c" by blast
  show ?thesis
  proof (cases "cal_fresh c now")
    case True
    with False c have "is_open c now" by (simp add: session_over_def)
    with False c True assms that show ?thesis
      by (auto simp: tape_evaluate_def Let_def split: if_splits option.splits)
  qed (use False c assms that(1) in \<open>auto simp: tape_evaluate_def\<close>)
qed

lemma tape_evaluate_sound:
  assumes "tape_evaluate h now books cal event budget t = Inr (result, t')"
  shows "sound_result books (case budget of Some x \<Rightarrow> x | None \<Rightarrow> 1000000000) now result
    \<and> ((\<exists>(n, x) \<in> set result. ev_state x = ''SIGNAL'') \<longrightarrow> future_current t now \<and> (\<exists>c. cal = Some c \<and> is_open c now))"
  using assms
proof (cases rule: tape_evaluate_cases)
  case 1
  then show ?thesis using quiet_sound by (auto simp: quiet_def)
next
  case (2 c closes old u)
  with run_rules_sound [OF 2(4)] show ?thesis by (simp add: make_moment_def Let_def)
qed

section \<open>One evaluation in the kernel\<close>

text \<open>A tape on which an option's rising premium and volume make the flow rule fire.\<close>

definition flow_book :: option_book where
  "flow_book = demo_book\<lparr>bids := [\<lparr>lv_price = 1009 / 10, lv_qty = 900\<rparr>], asks := [\<lparr>lv_price = 101, lv_qty = 150\<rparr>],
     bk_received_ns := 1728034799900000000,
     bk_statistics := Some \<lparr>last_price = 101, last_quantity = 75, average_price = 100, volume = 2000, total_sell_quantity = 150,
       total_buy_quantity = 900, open_interest = 10000, oi_day_high = 10000, oi_day_low = 10000, day_open = 90, day_close = None,
       day_high = 101, day_low = 60\<rparr>\<rparr>"

definition flow_row :: "int \<Rightarrow> decimal \<Rightarrow> int \<Rightarrow> quote_row" where
  "flow_row stamp mid vol = \<lparr>qr_stamp = stamp, qr_mid = mid, qr_volume = Some vol, qr_bid = 900, qr_ask = 150\<rparr>"

definition flow_tape :: tape where
  "flow_tape = tape_reset\<lparr>tp_future := [(1728034739000000000, 24000), (1728034797000000000, 24000), (1728034799500000000, 24010)],
     tp_options := [(''1'', [flow_row 1728034797000000000 60 1000, flow_row 1728034799100000000 98 1500, flow_row 1728034799400000000 99 1700])],
     tp_epoch := Some ''e'', tp_usable := True\<rparr>"

definition flow_now :: instant where "flow_now = ist_at 20000 (clock 15 10)"

lemma flow_ns: "ns flow_now = 1728034800000000000"
  by code_simp

lemma flow_fees: "fee_buy default_fees (15165 / 2) 1 = Inr (2781 / 100)" "fee_sell default_fees (21285 / 2) 3 = Inr (467 / 5)"
  "worst_case_entry_cash default_fees 75 (1011 / 10) 1 = Inr (761031 / 100)"
  by (simp_all add: price_rules ceiling_div ceiling_inverse)

lemma flow_sums: "dmul 75 (1419 / 10) = 21285 / 2" "dsub (21285 / 2) (467 / 5) = 105491 / 10" "dsub (105491 / 10) (761031 / 100) = 293879 / 100"
  by code_simp+

definition flow_facts :: details where
  "flow_facts = [(''entry_cash'', DDec (761031 / 100)), (''exit_fee_reserve'', DDec (467 / 5)), (''cash_budget'', DDec 1000000000),
     (''entry_limit_policy'', DText ''SPREAD_BOUNDED_IOC''), (''limit_price'', DDec (1011 / 10)),
     (''net_at_target'', DDec (293879 / 100)), (''minimum_net_edge'', DDec (12121 / 100))]"

lemma flow_assessed: "assess_price 75 (1419 / 10) (467 / 5) 1000000000 (1011 / 10) = Inr (''READY'', flow_facts)"
  by (simp add: assess_price_def flow_fees flow_sums flow_facts_def Let_def)

lemma flow_limits: "minimum_limit flow_book = 1011 / 10" "limit_ceiling flow_book = 1011 / 10" "price_at flow_book 0 = 1011 / 10"
  "trunc (ddiv 0 (tick_size demo_instrument)) = 0" "instr flow_book = demo_instrument" "lot_size demo_instrument = 75"
  by code_simp+

definition flow_found :: entry_check where
  "flow_found = \<lparr>ec_candidate = Some (demo_instrument, 75, 1011 / 10, flow_book), ec_reason = ''READY'', ec_details = flow_facts\<rparr>"

lemma flow_searched: "search_price flow_book 75 (1419 / 10) (467 / 5) 1000000000 = Inr flow_found"
  by (simp add: search_price_def flow_limits flow_assessed search_steps.simps flow_found_def Let_def)

definition flow_tape2 :: tape where
  "flow_tape2 = flow_tape\<lparr>tp_selected := [''1''], tp_options := [(''1'', [flow_row 1728034797000000000 60 1000,
     flow_row 1728034799100000000 98 1500, flow_row 1728034799400000000 99 1700, flow_row 1728034799900000000 (2019 / 20) 2000])]\<rparr>"

definition flow_moment :: moment where
  "flow_moment = \<lparr>mo_at = 1728034800000000, mo_stamp = 1728034800000000000, mo_books = [(''1'', flow_book)], mo_eligible = [flow_book],
     mo_budget = 1000000000, mo_closes = 1728036000000000, mo_future = 24010, mo_move = 10, mo_previous = [24000],
     mo_breakout = 0, mo_event = None\<rparr>"

lemma flow_ingest: "ingest [(''1'', flow_book)] flow_now flow_tape = flow_tape2"
  by code_simp

lemma flow_make: "make_moment flow_now [(''1'', flow_book)] 1728036000000000 None None 24000 flow_tape2 = flow_moment"
  by code_simp
definition flow_sample :: evaluation where
  "flow_sample = seconds_setup (\<lambda>_. ''h'') flow_moment flow_tape2 NAME_FLOW flow_book (1419 / 10) []"

lemma flow_quotes: "ask_price flow_book = 101" "bid_price flow_book = 1009 / 10" "midpoint flow_book = 2019 / 20"
  "\<not> 1 < ddiv (1 / 10) (2019 / 20) * 100" "bid_quantity flow_book = 900" "ask_quantity flow_book = 150"
  "below_band demo_instrument (1011 / 10) = False" "security_id demo_instrument = ''1''"
  by code_simp+

lemma flow_tops: "top_bid flow_book = Some \<lparr>lv_price = 1009 / 10, lv_qty = 900\<rparr>" "top_ask flow_book = Some \<lparr>lv_price = 101, lv_qty = 150\<rparr>"
  "bk_received_ns flow_book = 1728034799900000000" "expiry demo_instrument = 20000" "flow_now div DAY_US = 20000"
  by code_simp+

lemma flow_current: "current flow_book flow_now"
  by (simp add: current_def flow_ns flow_quotes flow_limits flow_tops)

lemma flow_setup: "ev_strategy flow_sample \<in> set SECONDS_NAMES" "ev_state flow_sample = ''SIGNAL''" "ev_at flow_sample = flow_now"
  "dget ''security_id'' (ev_details flow_sample) = DText ''1''" "ev_side flow_sample = Some (otype demo_instrument)"
  "ev_minimum_expiry flow_sample = Some (expiry demo_instrument)"
  "detail_decimal ''target_price'' (ev_details flow_sample) = Inr (Some (1419 / 10))"
  by code_simp+

lemma flow_found_by: "entry_assessment flow_sample [(''1'', flow_book)] 1000000000 flow_now = Inr flow_found"
  by (simp add: entry_assessment_def flow_setup flow_quotes flow_current flow_limits flow_sums flow_fees flow_searched seconds_def Let_def)

lemma flow_target: "dadd (2019 / 20) (max 0 (dsub (2019 / 20) 60)) = 1419 / 10"
  by code_simp

definition flow_start :: scan where "flow_start = scan_start flow_moment flow_tape2"

definition flow_final :: evaluation where
  "flow_final = flow_sample\<lparr>ev_details := dmerge (ev_details flow_sample)
     [(''contract_selection'', DText ''MAX_QUALIFIED_NET_HEADROOM''), (''qualified_net_headroom'', DDec (293879 / 100)),
      (''entry_limit_policy'', DText ''SPREAD_BOUNDED_IOC'')]\<rparr>"

definition flow_end :: scan where
  "flow_end = put_result NAME_FLOW flow_final (flow_start\<lparr>sc_flow := 1\<rparr>)"

lemma flow_scans:
  "scan_fitted (\<lambda>_. ''h'') flow_moment flow_book flow_start = Inr flow_start"
  "scan_curve (\<lambda>_. ''h'') flow_moment flow_book flow_end = Inr flow_end"
  "anchor_row 1728034800000000000 (owned ''1'' (tp_options flow_tape2)) = Some (flow_row 1728034797000000000 60 1000)"
  "flow_ready flow_moment flow_book (owned ''1'' (tp_options flow_tape2)) (Some (flow_row 1728034797000000000 60 1000))"
  "ev_state (result_of (flow_start\<lparr>sc_flow := 1\<rparr>) NAME_FLOW) = ''NO_SIGNAL''"
  "sc_flow flow_start = 0" "sc_tape (flow_start\<lparr>sc_flow := 1\<rparr>) = flow_tape2" "sc_tape flow_start = flow_tape2"
  by code_simp+

lemma flow_parts: "mo_books flow_moment = [(''1'', flow_book)]" "mo_budget flow_moment = 1000000000" "mo_at flow_moment = flow_now"
  "mo_stamp flow_moment = 1728034800000000000" "mo_eligible flow_moment = [flow_book]" "qr_mid (flow_row 1728034797000000000 60 1000) = 60"
  "dget ''net_at_target'' flow_facts = DDec (293879 / 100)" "dget ''entry_limit_policy'' flow_facts = DText ''SPREAD_BOUNDED_IOC''"
  by code_simp+

lemma flow_emitted: "emit (\<lambda>_. ''h'') flow_moment NAME_FLOW flow_book (1419 / 10) [] (flow_start\<lparr>sc_flow := 1\<rparr>) = Inr flow_end"
proof -
  have "ec_candidate flow_found = Some (demo_instrument, 75, 1011 / 10, flow_book)" "ec_details flow_found = flow_facts" by (simp_all add: flow_found_def)
  then show ?thesis
    by (simp add: emit_def flow_scans flow_parts flow_sample_def [symmetric] flow_found_by flow_end_def flow_final_def Let_def)
qed

lemma flow_flowed: "scan_flow (\<lambda>_. ''h'') flow_moment flow_book flow_start = Inr flow_end"
  by (simp add: scan_flow_def flow_scans flow_parts flow_limits flow_quotes flow_target flow_emitted Let_def)

lemma flow_rules: "\<exists>r. run_rules (\<lambda>_. ''h'') flow_moment flow_tape2 = Inr r \<and> (\<exists>x. (NAME_FLOW, x) \<in> set (fst r) \<and> ev_state x = ''SIGNAL'')"
proof -
  have "entry_assessment flow_final [(''1'', flow_book)] 1000000000 flow_now = Inr flow_found"
    unfolding flow_found_by [symmetric]
    by (rule entry_assessment_cong; simp add: flow_final_def map_of_dmerge)
  then have final: "entry_candidate flow_final [(''1'', flow_book)] 1000000000 flow_now
      = Inr (Some (demo_instrument, 75, 1011 / 10, flow_book))" by (simp add: entry_candidate_def flow_found_def)
  have state: "ev_state flow_final = ''SIGNAL''" using flow_setup(2) by (simp add: flow_final_def)
  have start: "foldR (scan_book (\<lambda>_. ''h'') flow_moment) (mo_eligible flow_moment) (scan_start flow_moment flow_tape2) = Inr flow_end"
    using flow_scans(1,2) flow_flowed by (simp add: flow_parts scan_book_def flow_start_def)
  let ?plain = "\<lambda>n. plain_evaluation n ''NO_SIGNAL'' ''SECONDS_RULE_NOT_MET'' 1728034800000000 [(''future_move_2s'', DDec 10)]"
  have "mo_move flow_moment = 10" "mo_event flow_moment = None" "mo_at flow_moment = 1728034800000000" by (simp_all add: flow_moment_def)
  then have "sc_result flow_end = [(NAME_CATCHUP, ?plain NAME_CATCHUP), (NAME_BREAKOUT, ?plain NAME_BREAKOUT), (NAME_FLOW, flow_final),
      (NAME_STRIKE, ?plain NAME_STRIKE), (NAME_EVENT, plain_evaluation NAME_EVENT ''UNKNOWN'' ''EVENT_FEED_UNAVAILABLE'' 1728034800000000 [])]"
    by (simp add: flow_end_def put_result_def flow_start_def scan_start_def SECONDS_NAMES_def
        NAME_CATCHUP_def NAME_BREAKOUT_def NAME_FLOW_def NAME_STRIKE_def NAME_EVENT_def)
  then have "mapR (drop_costly [(''1'', flow_book)] flow_now) (sc_result flow_end) = Inr (sc_result flow_end)"
    "(NAME_FLOW, flow_final) \<in> set (sc_result flow_end)"
    by (simp_all add: drop_costly_def final state plain_evaluation_def)
  moreover have "diagnose flow_moment flow_end (NAME_FLOW, flow_final) = (NAME_FLOW, snd (diagnose flow_moment flow_end (NAME_FLOW, flow_final)))"
    "ev_state (snd (diagnose flow_moment flow_end (NAME_FLOW, flow_final))) = ''SIGNAL''"
    using state by (simp_all add: diagnose_def)
  ultimately show ?thesis
    using start by (force simp: run_rules_def flow_parts)
qed

lemma flow_gates: "\<not> session_over (Some demo_calendar) flow_now" "future_current flow_tape flow_now" "cal_fresh demo_calendar flow_now"
  "tp_selected flow_tape2 = [''1'']" "\<not> ddiv (of_int (ns flow_now - fst (hd (tp_future flow_tape2)))) 1000000000 < 60"
  "future_at flow_tape2 1728034798000000000 = Some 24000" "cl_closes demo_calendar = Some 1728036000000000"
  by code_simp+

lemma flow_evaluated: "\<exists>r. tape_evaluate (\<lambda>_. ''h'') flow_now [(''1'', flow_book)] (Some demo_calendar) None None flow_tape = Inr r
    \<and> (\<exists>x. (NAME_FLOW, x) \<in> set (fst r) \<and> ev_state x = ''SIGNAL'')"
  using flow_rules flow_gates(5) by (simp add: tape_evaluate_def flow_gates flow_ingest flow_ns flow_make Let_def)

text \<open>
  C37: Signals of the quote-driven rules. Whatever tape, books, calendar, event and budget it is given, an
  evaluation that returns reports the five rules in their order; and a signal among them comes from an open,
  freshly known session with a current futures quote and can be entered at that instant at the books given,
  within the budget given and with its net edge.
\<close>

theorem seconds_signals_executable:
  assumes "tape_evaluate h now books cal event budget t = Inr (result, t')"
  shows "map fst result = SECONDS_NAMES
    \<and> (\<forall>(name, x) \<in> set result. ev_strategy x = name
        \<and> (ev_state x = ''SIGNAL'' \<longrightarrow>
             future_current t now \<and> (\<exists>c. cal = Some c \<and> is_open c now)
             \<and> (\<exists>i q limit b. entry_candidate x books (case budget of Some y \<Rightarrow> y | None \<Rightarrow> 1000000000) now = Inr (Some (i, q, limit, b)))
             \<and> (\<exists>i q limit b. entry_candidate x books 1000000000 now = Inr (Some (i, q, limit, b)))))"
  using tape_evaluate_sound [OF assms] by (fastforce simp: sound_result_def executable_def)

theorem seconds_signals_executable_witness:
  "\<exists>x i q limit b. ev_strategy x = NAME_FLOW \<and> ev_state x = ''SIGNAL''
     \<and> entry_candidate x [(''1'', flow_book)] 1000000000 flow_now = Inr (Some (i, q, limit, b))"
proof -
  from flow_evaluated obtain result t' x where run: "tape_evaluate (\<lambda>_. ''h'') flow_now [(''1'', flow_book)] (Some demo_calendar) None None flow_tape = Inr (result, t')"
    and x: "(NAME_FLOW, x) \<in> set result" "ev_state x = ''SIGNAL''" by auto
  from seconds_signals_executable [OF run] x show ?thesis by fastforce
qed

theorem entry_assessment_sound_witness:
  "\<exists>found i q limit b. entry_assessment flow_sample [(''1'', flow_book)] 1000000000 flow_now = Inr found
     \<and> books_ok [(''1'', flow_book)] \<and> ec_candidate found = Some (i, q, limit, b) \<and> q = 75
     \<and> minimum_limit flow_book \<le> limit \<and> limit \<le> limit_ceiling flow_book"
proof -
  have ok: "books_ok [(''1'', flow_book)]" by code_simp
  have "ticks_fit flow_book" by code_simp
  with entry_assessment_sound [OF flow_found_by ok] flow_limits(6)
  have "minimum_limit flow_book \<le> 1011 / 10" "1011 / 10 \<le> limit_ceiling flow_book" by (auto simp: flow_found_def)
  moreover have "ec_candidate flow_found = Some (demo_instrument, 75, 1011 / 10, flow_book)" by (simp add: flow_found_def)
  ultimately show ?thesis using flow_found_by ok by blast
qed

text \<open>
  C38: The tape of the quote-driven rules. In every state that ticks, unusable books, reconnections and evaluations
  reach, the futures and every option's rows are in strictly increasing time at least 100 and 200 milliseconds
  apart, at most 1200 and 600 of them, for at most 96 options of which at most 24 are selected; every futures price is
  positive, every remembered response within 0.1 and 0.9, and a usable tape has a price and an epoch.
\<close>

theorem seconds_tape_bounded:
  assumes "tape_reachable t"
  shows "length (tp_future t) \<le> 1200 \<and> sorted_wrt (\<lambda>x y. fst x + 100000000 \<le> fst y) (tp_future t)
    \<and> (\<forall>(stamp, p) \<in> set (tp_future t). 0 < p) \<and> (tp_usable t \<longrightarrow> tp_future t \<noteq> [] \<and> tp_epoch t \<noteq> None)
    \<and> length (tp_options t) \<le> 96 \<and> distinct (map fst (tp_options t))
    \<and> (\<forall>(k, rows) \<in> set (tp_options t). rows \<noteq> [] \<and> length rows \<le> 600
         \<and> sorted_wrt (\<lambda>x y. qr_stamp x + 200000000 \<le> qr_stamp y) rows)
    \<and> length (tp_selected t) \<le> 24 \<and> set (tp_selected t) \<subseteq> fst ` set (tp_options t)
    \<and> (\<forall>(k, stamp, x) \<in> set (tp_beta t). 1 / 10 \<le> \<bar>x\<bar> \<and> \<bar>x\<bar> \<le> 9 / 10)"
proof -
  from assms have ok: "tape_ok t" by (rule reachable_tape_ok)
  moreover have "rows_ok rows" if "(k, rows) \<in> set (tp_options t)" for k rows
    using ok that by (force simp: tape_ok_def options_ok_def)
  ultimately show ?thesis
    by (auto simp: tape_ok_def future_ok_def options_ok_def rows_ok_def spaced_def slope_ok_def)
qed

theorem seconds_tape_bounded_witness:
  "tp_future (future_tick (Some 24010) 900 ''e'' (future_tick (Some 24000) 500 ''e'' tape_reset)) = [(500, 24000)]
   \<and> sorted_wrt (\<lambda>x y. fst x + 100000000 \<le> fst y) [(500 :: int, 24000 :: decimal)]"
proof -
  have run: "tp_future (future_tick (Some 24010) 900 ''e'' (future_tick (Some 24000) 500 ''e'' tape_reset)) = [(500, 24000)]" by code_simp
  have "tape_reachable (future_tick (Some 24010) 900 ''e'' (future_tick (Some 24000) 500 ''e'' tape_reset))"
    by (intro tape_reachable.intros)
  from seconds_tape_bounded [OF this] run show ?thesis by simp
qed

end
