(* ===== verification/FutureInput.thy ===== *)
theory FutureInput
  imports Feeds SecondsProps
begin

text \<open>
  The futures input of \<open>dhan_cas_bot/future_input.py\<close>: messages of the futures contract
  become observations of the tape; a message that cannot be used makes the tape unusable.
\<close>

record future_input =
  fi_tape :: tape
  fi_security :: string
  fi_connected :: bool
  fi_reason :: string
  fi_received :: "int option"

definition future_input_start :: "tape \<Rightarrow> string \<Rightarrow> future_input" where
  "future_input_start t security = \<lparr>fi_tape = t, fi_security = security, fi_connected = False, fi_reason = ''FUTURES_DISCONNECTED'', fi_received = None\<rparr>"

definition future_connect :: "future_input \<Rightarrow> future_input" where
  "future_connect s = s\<lparr>fi_connected := True, fi_tape := tape_reset, fi_reason := ''FUTURES_WARMUP''\<rparr>"

definition future_disconnect :: "future_input \<Rightarrow> future_input" where
  "future_disconnect s = s\<lparr>fi_connected := False, fi_tape := invalidate_future (fi_tape s), fi_reason := ''FUTURES_DISCONNECTED''\<rparr>"

text \<open>One packet of the batch; \<open>epoch\<close> is the option feed's epoch.\<close>

definition future_packet :: "int \<Rightarrow> string \<Rightarrow> bytes \<Rightarrow> (future_input, bool) sm" where
  "future_packet received epoch packet = bindS getS (\<lambda>s.
     if field 0 1 packet \<noteq> 8 then retS False
     else bindS (liftS (decode_full NSE_FNO (fi_security s) (1 / 20) packet)) (\<lambda>p.
          bindS (liftS (future_quote_mid (pk_bids p) (pk_asks p))) (\<lambda>mid.
          bindS (modifyS (\<lambda>s. s\<lparr>fi_tape := future_tick (Some mid) received epoch (fi_tape s), fi_received := Some received, fi_reason := ''CURRENT''\<rparr>))
            (\<lambda>_. retS True))))"

fun future_batch :: "int \<Rightarrow> string \<Rightarrow> bytes list \<Rightarrow> (future_input, bool) sm" where
  "future_batch received epoch [] = retS False"
| "future_batch received epoch (p # ps) = bindS (future_packet received epoch p) (\<lambda>a. bindS (future_batch received epoch ps) (\<lambda>b. retS (a \<or> b)))"

text \<open>The batch is complete before its first packet is used.\<close>

definition future_receive :: "bytes \<Rightarrow> int \<Rightarrow> string \<Rightarrow> (future_input, bool) sm" where
  "future_receive payload received epoch = (\<lambda>s.
     if \<not> fi_connected s then (Inr False, s)
     else case (case packets payload of (ps, None) \<Rightarrow> future_batch received epoch ps s | (ps, Some e) \<Rightarrow> (Inl e, s)) of
         (Inr a, t) \<Rightarrow> (Inr a, t)
       | (Inl (FeedDisconnect c), t) \<Rightarrow> (Inl (FeedDisconnect c), future_disconnect t)
       | (Inl e, t) \<Rightarrow> (Inr False, t\<lparr>fi_tape := invalidate_future (fi_tape t), fi_reason := ''FUTURES_PACKET_REJECTED''\<rparr>))"

definition future_health :: "instant \<Rightarrow> future_input \<Rightarrow> bool \<times> bool \<times> rat option \<times> string" where
  "future_health now s = (let current = fi_connected s \<and> future_current (fi_tape s) now in
     (fi_connected s, current, map_option (\<lambda>r. dbl (of_int (ns now - r) / 1000000)) (fi_received s),
      if current then ''CURRENT'' else if fi_reason s = ''CURRENT'' then ''FUTURES_STALE'' else fi_reason s))"

section \<open>What the tape may be used for\<close>

definition tape_kept :: "future_input \<Rightarrow> future_input \<Rightarrow> bool" where
  "tape_kept s t = ((tape_reachable (fi_tape s) \<longrightarrow> tape_reachable (fi_tape t)) \<and> fi_security t = fi_security s)"

interpretation kept_future: step_closed tape_kept
  by unfold_locales (auto simp: tape_kept_def)

lemma kept_packet: "always tape_kept (future_packet received epoch p)"
  unfolding future_packet_def
  by (intro kept_future.always_rules) (auto simp: always_def tape_kept_def intro: tape_reachable.tick)

lemma kept_batch: "always tape_kept (future_batch received epoch ps)"
proof (induction ps)
  case Nil
  show ?case unfolding future_batch.simps by (rule kept_future.always_ret)
next
  case (Cons p ps)
  show ?case unfolding future_batch.simps by (intro kept_future.always_rules kept_packet Cons)
qed

text \<open>Whatever arrives, the tape stays one that the seconds rules reach, so their bounds on it hold.\<close>

lemma future_receive_reachable:
  assumes "future_receive payload received epoch s = (r, t)" "tape_reachable (fi_tape s)"
  shows "tape_reachable (fi_tape t)"
proof -
  have b: "tape_reachable (fi_tape u) \<and> tape_reachable (invalidate_future (fi_tape u))" if "future_batch received epoch ps s = (x, u)" for ps x u
    using alwaysD [OF kept_batch that] assms(2) by (simp add: tape_kept_def tape_reachable.unusable)
  have "tape_reachable (invalidate_future (fi_tape s))" using assms(2) by (rule tape_reachable.unusable)
  with assms show ?thesis
    by (auto simp: future_receive_def future_disconnect_def split: if_splits prod.splits option.splits sum.splits py_error.splits dest!: b)
qed

text \<open>A message that is not accepted leaves no usable futures, unless it holds no full packet at all.\<close>

lemma future_batch_received:
  "future_batch received epoch ps s = (Inr a, t) \<Longrightarrow> (if a then fi_received t = Some received \<and> fi_reason t = ''CURRENT'' else t = s)"
proof (induction ps arbitrary: s a)
  case (Cons p ps)
  then obtain b u c where b: "future_packet received epoch p s = (Inr b, u)" and c: "future_batch received epoch ps u = (Inr c, t)"
    and a: "a = (b \<or> c)" by (auto simp: bindS_run split: prod.splits sum.splits)
  have "if b then fi_received u = Some received \<and> fi_reason u = ''CURRENT'' else u = s"
    using b by (auto simp: future_packet_def bindS_run split: if_splits sum.splits)
  with Cons.IH [OF c] a show ?case by (auto split: if_splits)
qed simp

lemma future_receive_outcome:
  assumes "future_receive payload received epoch s = (r, t)"
  shows "case r of Inr True \<Rightarrow> fi_received t = Some received \<and> fi_reason t = ''CURRENT''
    | Inr False \<Rightarrow> t = s \<or> \<not> tp_usable (fi_tape t)
    | Inl e \<Rightarrow> \<not> fi_connected t \<and> \<not> tp_usable (fi_tape t)"
  using assms
  by (auto simp: future_receive_def future_disconnect_def invalidate_future_def split: if_splits prod.splits option.splits sum.splits py_error.splits bool.splits
      dest: future_batch_received)

end
