(* ===== verification/ReadScheduler.thy ===== *)
theory ReadScheduler
  imports PyNum "HOL-Library.Multiset"
begin

text \<open>
  The admission of broker reads of \<open>dhan_cas_bot/read_scheduler.py\<close>: readers wait in a heap
  by priority and arrival, a worker lets one through per interval. A waiting future is known
  by the sequence number it drew; it is done once it was let through or given up.
\<close>

type_synonym waiter = "int \<times> nat"

record scheduler =
  sd_interval :: rat
  sd_last :: "rat option"
  sd_waiters :: "waiter list"
  sd_sequence :: nat
  sd_done :: "nat list"

definition scheduler_start :: "rat \<Rightarrow> scheduler" where
  "scheduler_start interval = \<lparr>sd_interval = interval, sd_last = None, sd_waiters = [], sd_sequence = 0, sd_done = []\<rparr>"

definition acquire :: "int \<Rightarrow> scheduler \<Rightarrow> scheduler" where
  "acquire priority s = s\<lparr>sd_waiters := (priority, sd_sequence s) # sd_waiters s, sd_sequence := sd_sequence s + 1\<rparr>"

definition give_up :: "nat \<Rightarrow> scheduler \<Rightarrow> scheduler" where
  "give_up n s = (if n \<in> set (sd_done s) then s else s\<lparr>sd_done := n # sd_done s\<rparr>)"

text \<open>The worker's sleep before it lets the next reader through.\<close>

definition drain_delay :: "rat \<Rightarrow> scheduler \<Rightarrow> rat" where
  "drain_delay reading s = (case sd_last s of None \<Rightarrow> 0 | Some t \<Rightarrow> max 0 (dbl (sd_interval s - dbl (reading - t))))"

text \<open>\<open>heappop\<close>: the least waiter and the others.\<close>

definition heappop :: "waiter list \<Rightarrow> (waiter \<times> waiter list) option" where
  "heappop ws = (case py_min_by (\<lambda>w. w) ws of None \<Rightarrow> None | Some w \<Rightarrow> Some (w, remove1 w ws))"

lemma heappop_None: "heappop ws = None \<longleftrightarrow> ws = []"
  by (cases ws) (auto simp: heappop_def)

lemma heappop_Some:
  assumes "heappop ws = Some (w, rest)"
  shows "w \<in> set ws \<and> (\<forall>v \<in> set ws. w \<le> v) \<and> rest = remove1 w ws"
  using assms py_min_by_in [of "\<lambda>w. w" ws w] py_min_by_le [of "\<lambda>w. w" ws w]
  by (auto simp: heappop_def split: option.splits)

lemma heappop_length: "heappop ws = Some (w, rest) \<Longrightarrow> length rest < length ws"
  using heappop_Some [of ws w rest] by (auto simp: length_remove1) (metis Suc_pred length_pos_if_in_set lessI)

text \<open>The inner loop: futures already done are skipped.\<close>

function grant :: "rat \<Rightarrow> scheduler \<Rightarrow> nat option \<times> scheduler" where
  "grant reading s = (case heappop (sd_waiters s) of
     None \<Rightarrow> (None, s)
   | Some ((p, n), rest) \<Rightarrow>
       if n \<in> set (sd_done s) then grant reading (s\<lparr>sd_waiters := rest\<rparr>)
       else (Some n, s\<lparr>sd_waiters := rest, sd_last := Some reading, sd_done := n # sd_done s\<rparr>))"
  by pat_completeness auto
termination
  by (relation "measure (\<lambda>(reading, s). length (sd_waiters s))") (auto dest: heappop_length)

declare grant.simps [simp del]

text \<open>The worker, with the clock readings at which it lets readers through and no arrival meanwhile.\<close>

fun drain :: "rat list \<Rightarrow> scheduler \<Rightarrow> nat list \<times> scheduler" where
  "drain [] s = ([], s)"
| "drain (r # rs) s = (case grant r s of (None, t) \<Rightarrow> ([], t) | (Some n, t) \<Rightarrow> (let (ns, u) = drain rs t in (n # ns, u)))"

section \<open>Priority, then arrival\<close>

definition waiting :: "scheduler \<Rightarrow> waiter list" where
  "waiting s = filter (\<lambda>(p, n). n \<notin> set (sd_done s)) (sd_waiters s)"

definition scheduler_ok :: "scheduler \<Rightarrow> bool" where
  "scheduler_ok s = (distinct (map snd (sd_waiters s)) \<and> (\<forall>(p, n) \<in> set (sd_waiters s). n < sd_sequence s))"

lemma scheduler_ok_ops:
  "scheduler_ok (scheduler_start i)" "scheduler_ok s \<Longrightarrow> scheduler_ok (acquire p s)" "scheduler_ok s \<Longrightarrow> scheduler_ok (give_up n s)"
  by (force simp: scheduler_ok_def scheduler_start_def acquire_def give_up_def)+

lemma grant_spec:
  assumes "scheduler_ok s" "grant r s = (x, t)"
  shows "scheduler_ok t \<and> (case x of
      None \<Rightarrow> waiting s = []
    | Some n \<Rightarrow> sd_last t = Some r \<and> (\<exists>p. (p, n) \<in> set (waiting s) \<and> (\<forall>w \<in> set (waiting s). (p, n) \<le> w)
        \<and> waiting t = remove1 (p, n) (waiting s)))"
  using assms
proof (induction r s arbitrary: x t rule: grant.induct)
  case (1 r s)
  show ?case
  proof (cases "heappop (sd_waiters s)")
    case None
    then have "sd_waiters s = []" "x = None" "t = s" using 1(3) by (simp_all add: grant.simps [of r s] heappop_None [symmetric])
    then show ?thesis using 1(2) by (simp add: waiting_def)
  next
    case (Some q)
    obtain p n rest where q: "q = ((p, n), rest)" by (metis surj_pair)
    from heappop_Some [of "sd_waiters s" "(p, n)" rest] Some q
    have h: "(p, n) \<in> set (sd_waiters s)" "\<forall>v \<in> set (sd_waiters s). (p, n) \<le> v" "rest = remove1 (p, n) (sd_waiters s)" by simp_all
    have d: "distinct (sd_waiters s)" "distinct (map snd (sd_waiters s))" using 1(2) by (auto simp: scheduler_ok_def distinct_map)
    have rest: "rest = filter (\<lambda>w. (p, n) \<noteq> w) (sd_waiters s)" using h(3) d(1) by (simp add: distinct_remove1_removeAll removeAll_filter_not_eq)
    have other: "m \<noteq> n" if "(q, m) \<in> set (sd_waiters s)" "(q, m) \<noteq> (p, n)" for q m
      using inj_onD [of snd "set (sd_waiters s)" "(q, m)" "(p, n)"] d(2) that h(1) by (auto simp: distinct_map)
    have ok: "scheduler_ok (s\<lparr>sd_waiters := rest\<rparr>)" using 1(2) by (auto simp: scheduler_ok_def rest distinct_map_filter)
    show ?thesis
    proof (cases "n \<in> set (sd_done s)")
      case True
      then have run: "grant r (s\<lparr>sd_waiters := rest\<rparr>) = (x, t)" using 1(3) Some q by (simp add: grant.simps [of r s])
      have "waiting (s\<lparr>sd_waiters := rest\<rparr>) = waiting s" using True by (auto simp: waiting_def rest intro!: filter_cong)
      with 1(1) [OF Some q [symmetric] refl True ok run] show ?thesis by (simp only:)
    next
      case False
      then have t: "x = Some n" "t = s\<lparr>sd_waiters := rest, sd_last := Some r, sd_done := n # sd_done s\<rparr>"
        using 1(3) Some q by (simp_all add: grant.simps [of r s])
      have "waiting t = filter (\<lambda>w. (p, n) \<noteq> w) (waiting s)"
        using other by (auto simp: waiting_def t rest intro!: filter_cong)
      also have "\<dots> = remove1 (p, n) (waiting s)"
        using d(1) by (simp add: waiting_def distinct_remove1_removeAll removeAll_filter_not_eq)
      finally show ?thesis using ok False h(1,2) t by (auto simp: scheduler_ok_def waiting_def intro!: exI [of _ p])
    qed
  qed
qed

lemma sort_least:
  assumes "x \<in> set xs" "\<forall>y \<in> set xs. x \<le> (y :: 'a::linorder)"
  shows "sort xs = x # sort (remove1 x xs)"
proof -
  have "sorted (x # sort (remove1 x xs))"
    using assms(2) by (auto dest: notin_set_remove1 set_remove1_subset [THEN subsetD])
  moreover have "mset (x # sort (remove1 x xs)) = mset xs" using assms(1) by simp
  ultimately show ?thesis by (rule properties_for_sort [OF _ _, rotated])
qed

text \<open>
  Readers are let through by priority, and within one by arrival; with a turn for each of
  them nobody who still waits is left out, and nobody who gave up is let through.
\<close>

theorem drain_serves_in_order:
  assumes "scheduler_ok s" "length (waiting s) \<le> length rs"
  shows "fst (drain rs s) = map snd (sort (waiting s))"
  using assms
proof (induction rs arbitrary: s)
  case (Cons r rs)
  obtain x t where g: "grant r s = (x, t)" by force
  from grant_spec [OF Cons.prems(1) g] show ?case
  proof (cases x)
    case None
    with grant_spec [OF Cons.prems(1) g] g show ?thesis by simp
  next
    case (Some n)
    with grant_spec [OF Cons.prems(1) g] obtain p where p: "scheduler_ok t" "(p, n) \<in> set (waiting s)" "\<forall>w \<in> set (waiting s). (p, n) \<le> w"
      "waiting t = remove1 (p, n) (waiting s)" by auto
    have "length (waiting t) \<le> length rs" using Cons.prems(2) p(2) by (simp add: p(4) length_remove1)
    from Cons.IH [OF p(1) this] sort_least [OF p(2,3)] g Some show ?thesis by (cases "drain rs t") (simp add: p(4))
  qed
qed simp

end
