(* ===== verification/Submitted.thy ===== *)
theory Submitted
  imports Orders
begin

text \<open>
  What the handlers of \<open>orders.py\<close> leave alone. The locale states the interface: a relation
  that every single write keeps is kept by a whole submission or reconciliation.
\<close>

locale order_writes = step_closed R for R :: "oms \<Rightarrow> oms \<Rightarrow> bool" +
  fixes known :: "string \<Rightarrow> bool"
  assumes attempt: "known i \<Longrightarrow> always R (onledger (record_attempt now a i st resp))"
    and state: "known i \<Longrightarrow> always R (onledger (set_intent_state i st))"
    and order: "known i \<Longrightarrow> always R (onledger (record_order oid i account st payload))"
    and rate: "always R (onledger (rate_attempt n a ts))"
    and changed: "always R account_changed"
begin

lemma always_claim:
  assumes "known (in_id n)"
  shows "always R (claim_rate n a ts)"
proof (rule alwaysI)
  fix s r t assume run: "claim_rate n a ts s = (r, t)"
  have aborts: "always R (bindS (onledger (set_intent_state (in_id n) ''ABORTED'')) (\<lambda>_. raiseS e))" for e
    by (intro always_rules state assms)
  obtain x u where x: "onledger (rate_attempt n a ts) s = (x, u)" by force
  have "R s u" by (rule alwaysD [OF rate x])
  with run x show "R s t"
    by (cases x) (auto simp: claim_rate_def split: if_splits dest!: alwaysD [OF aborts] intro: trans)
qed

lemma always_dispatch: "known (in_id n) \<Longrightarrow> always R (dispatch now account n a answer)"
  unfolding dispatch_def by (cases answer) (auto intro!: always_rules attempt order changed split: option.splits)

lemma lift_always: "(\<And>x. v = Inr x \<Longrightarrow> always R (f x)) \<Longrightarrow> always R (bindS (liftS v) f)"
  by (auto simp: always_def bind_lift refl split: sum.splits)

lemma always_submit:
  assumes known: "known (in_id n)" and create: "check_reservation n reserved = Inr () \<Longrightarrow> always R (onledger (create_intent n reserved))"
  shows "always R (submit account now ts a n reserved ready positions answer)"
proof -
  have "always R (bindS (guardS ready e) (\<lambda>_. bindS getS (\<lambda>s. bindS (liftS (check_sale n positions (om_ledger s))) (\<lambda>_.
      bindS (onledger (create_intent n reserved)) (\<lambda>_. bindS (claim_rate n a ts) (\<lambda>_.
      bindS (onledger (record_attempt now a (in_id n) ''STARTED'' [])) (\<lambda>_. account_changed)))))))"
    if "check_reservation n reserved = Inr ()" for e
    by (intro always_rules create that always_claim attempt changed known)
  then have "always R (prepare account now ts a n reserved ready positions)"
    unfolding prepare_def by (intro always_bind [OF always_lift] lift_always) simp
  then show ?thesis unfolding submit_def by (intro always_bind always_dispatch known)
qed

text \<open>A reconciliation also records fills and charges, for every intent it read.\<close>

lemma always_reconcile:
  assumes known: "\<And>i. known i" and fill: "\<And>f i. always R (onledger (record_fill_once f i))"
    and charges: "\<And>oid i fees c. always R (onledger (record_order_charges oid i fees c))"
  shows "always R (reconcile_commit now account revision rows resolved trades historical positions)"
proof -
  note writes = always_rules fill charges state [OF known] order [OF known] changed
  have "always R (apply_trade now account oid row trade)" for oid row trade
    unfolding apply_trade_def by (intro writes)
  moreover have "always R (confirm_historical account row b records)" for row b records
    unfolding confirm_historical_def Let_def by (intro writes)
  moreover have "always R (settle_intent oid row b)" for oid row b
    unfolding settle_intent_def Let_def by (intro writes)
  ultimately have "always R (apply_order now account trades historical row b)" for row b
    unfolding apply_order_def Let_def by (intro writes)
  then have "always R (apply_intent now account trades historical resolved row)" for row
    unfolding apply_intent_def by (cases "resolved (ir_id row)") (auto intro!: writes)
  then show ?thesis unfolding reconcile_commit_def by (intro writes)
qed

end

section \<open>The tables an order does not touch\<close>

definition same_tables :: "oms \<Rightarrow> oms \<Rightarrow> bool" where
  "same_tables s t = (lg_metadata (om_ledger t) = lg_metadata (om_ledger s) \<and> lg_lifecycles (om_ledger t) = lg_lifecycles (om_ledger s)
     \<and> lg_counters (om_ledger t) = lg_counters (om_ledger s))"

lemma same_tables_onledger:
  assumes "\<And>l x l'. f l = Inr (x, l') \<Longrightarrow>
    lg_metadata l' = lg_metadata l \<and> lg_lifecycles l' = lg_lifecycles l \<and> lg_counters l' = lg_counters l"
  shows "always same_tables (onledger f)"
  using assms by (auto simp: always_def same_tables_def onledger_run split: sum.splits)

interpretation tables: order_writes same_tables "\<lambda>i. True"
proof unfold_locales
  show "always same_tables (onledger (record_attempt now a i st resp))" for now a i st resp
    by (rule same_tables_onledger) (auto simp: record_attempt_def)
  show "always same_tables (onledger (set_intent_state i st))" for i st
    by (rule same_tables_onledger) (auto simp: set_intent_state_def)
  show "always same_tables (onledger (record_order oid i account st payload))" for oid i account st payload
    by (rule same_tables_onledger) (auto simp: record_order_def reopen_recovery_closed_def Let_def split: option.splits if_splits)
  show "always same_tables (onledger (rate_attempt n a ts))" for n a ts
    by (rule same_tables_onledger) (auto dest!: rate_attempt_Inr(1))
qed (auto simp: same_tables_def always_def account_changed_def)

lemma tables_submit: "always same_tables (submit account now ts a n reserved ready positions answer)"
proof (rule tables.always_submit)
  show "always same_tables (onledger (create_intent n reserved))"
    by (rule same_tables_onledger) (auto dest!: create_intent_Inr)
qed simp

section \<open>A submission records its own intent at most\<close>

definition with_own :: "intent_row list \<Rightarrow> intent \<Rightarrow> decimal \<Rightarrow> intent_row list \<Rightarrow> bool" where
  "with_own rows n reserved xs = (xs = rows \<or> (\<exists>st. xs = rows @ [new_row n reserved st]))"

definition own_kept :: "intent_row list \<Rightarrow> intent \<Rightarrow> decimal \<Rightarrow> oms \<Rightarrow> oms \<Rightarrow> bool" where
  "own_kept rows n reserved s t = (with_own rows n reserved (lg_intents (om_ledger s)) \<longrightarrow> with_own rows n reserved (lg_intents (om_ledger t)))"

lemma with_own_update:
  assumes "with_own rows n reserved xs" "\<And>x. x \<in> set rows \<Longrightarrow> \<not> p x"
  shows "with_own rows n reserved (update_where p (with_state st) xs)"
proof -
  have rows: "map (\<lambda>x. if p x then with_state st x else x) rows = rows" using assms(2) by (auto intro: map_idI)
  from assms(1) consider "xs = rows" | st' where "xs = rows @ [new_row n reserved st']" by (auto simp: with_own_def)
  then show ?thesis
  proof cases
    case 1
    with rows show ?thesis by (simp add: with_own_def update_where_def)
  next
    case 2
    with rows show ?thesis
      by (cases "p (new_row n reserved st')") (auto simp add: with_own_def update_where_def simp del: append_same_eq)
  qed
qed

lemma own_onledger:
  assumes "\<And>l x l'. f l = Inr (x, l') \<Longrightarrow> with_own rows n reserved (lg_intents l) \<Longrightarrow> with_own rows n reserved (lg_intents l')"
  shows "always (own_kept rows n reserved) (onledger f)"
  using assms by (auto simp: always_def own_kept_def onledger_run split: sum.splits)

lemma own_writes:
  assumes "in_id n \<notin> ir_id ` set rows"
  shows "order_writes (own_kept rows n reserved) (\<lambda>i. i = in_id n)"
proof unfold_locales
  have other: "x \<in> set rows \<Longrightarrow> ir_id x \<noteq> in_id n" for x using assms by (metis image_eqI)
  show "always (own_kept rows n reserved) (onledger (record_attempt now a i st resp))" if "i = in_id n" for now a i st resp
    using other that by (intro own_onledger) (auto simp: record_attempt_def intro!: with_own_update)
  show "always (own_kept rows n reserved) (onledger (set_intent_state i st))" if "i = in_id n" for i st
    using other that by (intro own_onledger) (auto simp: set_intent_state_def intro!: with_own_update)
  show "always (own_kept rows n reserved) (onledger (record_order oid i account st payload))" if "i = in_id n" for oid i account st payload
    using other that by (intro own_onledger)
      (auto simp: record_order_def reopen_recovery_closed_def Let_def intro!: with_own_update split: option.splits if_splits)
  show "always (own_kept rows n reserved) (onledger (rate_attempt m a ts))" for m a ts
    by (rule own_onledger) (auto dest!: rate_attempt_Inr(1))
qed (auto simp: own_kept_def always_def account_changed_def)

lemma submit_adds_own:
  assumes "submit account now ts a n reserved ready positions answer s = (r, t)"
  shows "with_own (lg_intents (om_ledger s)) n reserved (lg_intents (om_ledger t))"
proof (cases "in_id n \<in> ir_id ` set (lg_intents (om_ledger s))")
  case True
  then have "\<not> ok (create_intent n reserved (om_ledger s))"
    by (cases "create_intent n reserved (om_ledger s)") (auto dest!: create_intent_Inr)
  then have "t = s" using assms
    by (auto simp: submit_def prepare_def bindS_run guardR_def onledger_run split: sum.splits prod.splits if_splits)
  then show ?thesis by (simp add: with_own_def)
next
  case False
  let ?rows = "lg_intents (om_ledger s)"
  have "always (own_kept ?rows n reserved) (onledger (create_intent n reserved))"
    by (rule own_onledger) (auto simp: with_own_def dest!: create_intent_Inr)
  from alwaysD [OF order_writes.always_submit [OF own_writes [OF False] refl this] assms]
  show ?thesis by (simp add: own_kept_def with_own_def)
qed

end
