(* ===== verification/Route.thy ===== *)
theory Route
  imports Submitted Sessions
begin

text \<open>
  The route probe of \<open>dhan_cas_bot/route.py\<close>: a one-lot buy order far below the market that
  shows the broker accepts orders from this host, under budgets kept in the ledger's
  counters; and the predicates that say whether an earlier order already shows it.
\<close>

section \<open>Which contracts may be probed\<close>

text \<open>The books that pass the liquidity filter, the most open interest first.\<close>

definition probe_floor :: "instrument \<Rightarrow> decimal" where
  "probe_floor i = max (tick_size i) (case lower_limit i of None \<Rightarrow> 0 | Some x \<Rightarrow> x)"

definition probe_cost :: "instrument \<Rightarrow> decimal \<Rightarrow> decimal res" where
  "probe_cost i limit = bindR (worst_case_entry_cash default_fees (lot_size i) limit 1) (\<lambda>x. Inr (reserve_cash x))"

definition probe_liquid :: "instant \<Rightarrow> string \<Rightarrow> string list \<Rightarrow> option_book \<Rightarrow> bool" where
  "probe_liquid now epoch rejected b = (let i = instr b in case (top_bid b, top_ask b, bk_statistics b) of
     (Some bid, Some ask, Some st) \<Rightarrow>
       security_id i \<notin> set rejected \<and> bk_epoch b = epoch \<and> 0 \<le> ns now - bk_received_ns b \<and> ns now - bk_received_ns b \<le> 2000000000
       \<and> ist_date now \<le> expiry i \<and> lot_size i \<le> lv_qty bid \<and> lot_size i \<le> lv_qty ask \<and> lv_price bid \<le> lv_price ask
       \<and> ddiv (lv_price ask - lv_price bid) (lv_price bid) \<le> 2 / 100
       \<and> 100 * lot_size i \<le> open_interest st \<and> 100 * lot_size i \<le> volume st
       \<and> probe_floor i < lv_price bid \<and> (case upper_limit i of None \<Rightarrow> True | Some u \<Rightarrow> probe_floor i \<le> u)
   | _ \<Rightarrow> False)"

definition probe_affordable :: "decimal option \<Rightarrow> option_book \<Rightarrow> bool res" where
  "probe_affordable remaining_debit b = bindR (probe_cost (instr b) (probe_floor (instr b)))
     (\<lambda>cost. Inr (case remaining_debit of None \<Rightarrow> True | Some r \<Rightarrow> cost \<le> r))"

definition probe_rank :: "option_book \<Rightarrow> int \<times> int \<times> decimal \<times> day \<times> int" where
  "probe_rank b = (case (top_bid b, top_ask b, bk_statistics b) of
     (Some bid, Some ask, Some st) \<Rightarrow>
       (- open_interest st, - volume st, ddiv (lv_price ask - lv_price bid) (lv_price bid), expiry (instr b), digits_val (security_id (instr b)))
   | _ \<Rightarrow> (0, 0, 0, 0, 0))"

fun probe_keep :: "decimal option \<Rightarrow> option_book list \<Rightarrow> option_book list res" where
  "probe_keep remaining_debit [] = Inr []"
| "probe_keep remaining_debit (b # bs) = bindR (probe_affordable remaining_debit b) (\<lambda>yes.
     bindR (probe_keep remaining_debit bs) (\<lambda>rest. Inr (if yes then b # rest else rest)))"

definition probe_candidates ::
  "option_book list \<Rightarrow> instant \<Rightarrow> string \<Rightarrow> string list \<Rightarrow> decimal option \<Rightarrow> option_book list res" where
  "probe_candidates books now epoch rejected remaining_debit =
     bindR (probe_keep remaining_debit (filter (probe_liquid now epoch rejected) books)) (\<lambda>bs.
       if list_all (\<lambda>b. security_id (instr b) \<noteq> [] \<and> list_all is_digit (security_id (instr b))) bs
       then Inr (sort_key probe_rank bs) else Inl (ValueError ''int''))"

section \<open>What earlier probes showed\<close>

definition probe_today :: "instant \<Rightarrow> instant \<Rightarrow> bool" where
  "probe_today now t = (t \<le> now \<and> ist_date t = ist_date now)"

text \<open>The intents joined with their orders, the newest first.\<close>

definition placed :: "ledger \<Rightarrow> (intent_row \<times> order_row) list" where
  "placed l = sort_key (\<lambda>(r, q). - ir_created r)
     (concat (map (\<lambda>r. map (Pair r) (filter (\<lambda>q. or_intent q = ir_id r) (lg_orders l))) (lg_intents l)))"

definition rejected_probe_contracts :: "ledger \<Rightarrow> instant \<Rightarrow> string list" where
  "rejected_probe_contracts l now = map (\<lambda>(r, q). ir_security r) (filter (\<lambda>(r, q). probe_today now (ir_created r))
     (take 128 (filter (\<lambda>(r, q). ir_lifecycle r = ''route-probe'' \<and> or_state q = ''REJECTED'') (placed l))))"

definition rejected_probe_resolved :: "ledger \<Rightarrow> string \<Rightarrow> string \<Rightarrow> instant \<Rightarrow> bool res" where
  "rejected_probe_resolved l account epoch now =
     (case metadata ''route_probe'' l of
        Some (MData d rows) \<Rightarrow>
          if dget ''epoch'' d \<noteq> DText epoch then Inr False
          else (case find (\<lambda>(r, q). DText (ir_id r) = dget ''intent_id'' d) (placed l) of
            None \<Rightarrow> Inr False
          | Some (r, q) \<Rightarrow>
              if ir_lifecycle r \<noteq> ''route-probe'' \<or> ir_side r \<noteq> BUY \<or> ir_state r \<noteq> ''REJECTED'' \<or> or_state q \<noteq> ''REJECTED''
                 \<or> or_account q \<noteq> account \<or> \<not> probe_today now (ir_created r) \<or> fills_of l (ir_id r) \<noteq> []
              then Inr False
              else bindR (lifecycle_totals ''route-probe'' l) (\<lambda>t. Inr (\<not> unresolved t \<and> held t = 0 \<and> reserved_total t = 0)))
      | _ \<Rightarrow> Inr False)"

definition extra_key :: "string \<Rightarrow> string" where
  "extra_key session = ''probe.extra_attempt:'' @ session"

definition extra_attempts :: "ledger \<Rightarrow> string \<Rightarrow> int \<Rightarrow> instant \<Rightarrow> int" where
  "extra_attempts l session normal_limit now =
     (if session \<noteq> isoformat (ist_date now) then 0
      else case metadata (extra_key session) l of
        Some (MData d rows) \<Rightarrow>
          if dget ''extra'' d = DInt 1 \<and> dget ''normal_limit'' d = DInt normal_limit \<and> dget ''operator_requested'' d = DBool True
             \<and> (case dget ''recorded_at'' d of DTime t \<Rightarrow> t \<le> now \<and> isoformat (ist_date t) = session | _ \<Rightarrow> False)
          then 1 else 0
      | _ \<Rightarrow> 0)"

definition grant_extra_attempt :: "string \<Rightarrow> int \<Rightarrow> instant \<Rightarrow> ledger \<Rightarrow> (unit \<times> ledger) res" where
  "grant_extra_attempt session normal_limit now l =
     (if session \<noteq> isoformat (ist_date now) \<or> normal_limit \<le> 0
      then Inl (ValueError ''extra attempt must name the current IST date and existing normal limit'')
      else if extra_attempts l session normal_limit now \<noteq> 0 then Inr ((), l)
      else if metadata (extra_key session) l \<noteq> None then Inl (ValueError ''existing different extra-attempt record'')
      else put_metadata (extra_key session) (MData [(''extra'', DInt 1), (''normal_limit'', DInt normal_limit),
             (''operator_requested'', DBool True), (''recorded_at'', DTime now)] []) l)"

text \<open>
  A reduction of a managed position on this connection shows the route as well. \<open>echoed\<close>
  holds the order updates the socket received, with the epoch they came in.
\<close>

definition reduction_seen :: "ledger \<Rightarrow> string \<Rightarrow> string \<Rightarrow> instant \<Rightarrow> (string \<times> (string \<times> string)) list \<Rightarrow> intent_row \<times> order_row \<Rightarrow> bool" where
  "reduction_seen l account epoch connected_at echoed p = (case p of (r, q) \<Rightarrow>
     let fs = filter (\<lambda>f. fr_order f = or_id q \<and> fr_intent f = ir_id r) (lg_fills l); sold = sum_by fr_quantity fs in
     connected_at \<le> ir_created r \<and> or_account q = account \<and> ir_state r \<in> {''FILLED'', ''CANCELLED'', ''EXPIRED''} \<and> or_state q \<noteq> ''REJECTED''
     \<and> (case map_of echoed (or_id q) of None \<Rightarrow> False | Some (e, st) \<Rightarrow> e = epoch \<and> st \<in> {''PART_TRADED'', ''TRADED'', ''CANCELLED'', ''EXPIRED''})
     \<and> fs \<noteq> [] \<and> list_all (\<lambda>f. fr_security f = ir_security r \<and> 0 < fr_quantity f) fs \<and> 0 < sold \<and> sold \<le> ir_quantity r)"

definition managed_exit_route ::
  "ledger \<Rightarrow> string \<Rightarrow> string \<Rightarrow> instant option \<Rightarrow> (string \<times> (string \<times> string)) list \<Rightarrow> string option" where
  "managed_exit_route l account epoch since echoed = (case since of
     None \<Rightarrow> None
   | Some t \<Rightarrow> if epoch = [] then None
       else map_option (\<lambda>(r, q). or_id q) (find (reduction_seen l account epoch t echoed)
         (take 64 (filter (\<lambda>(r, q). ir_side r = SELL \<and> ir_lifecycle r \<noteq> ''route-probe''
            \<and> list_ex (\<lambda>c. lc_id c = ir_lifecycle r \<and> lc_security c = ir_security r) (lg_lifecycles l)) (placed l)))))"

section \<open>The probe\<close>

record qualifier =
  ql_session :: string
  ql_max_attempts :: int
  ql_debit_cap :: decimal
  ql_spend_cap :: decimal

definition new_qualifier :: "string \<Rightarrow> int \<Rightarrow> decimal \<Rightarrow> decimal \<Rightarrow> qualifier res" where
  "new_qualifier session max_attempts debit_cap spend_cap =
     (if max_attempts \<le> 0 \<or> debit_cap \<le> 0 \<or> spend_cap \<le> 0 then Inl (ContractError ''qualification budgets must be finite and positive'')
      else Inr \<lparr>ql_session = session, ql_max_attempts = max_attempts, ql_debit_cap = debit_cap, ql_spend_cap = spend_cap\<rparr>)"

record route_proof =
  rp_epoch :: string
  rp_order :: string
  rp_account :: string
  rp_accepted :: instant
  rp_zero_fill :: bool

text \<open>The clock, the drawn identity, the broker's answers, and what happens while they are awaited.\<close>

record route_world =
  rw_account :: string
  rw_now :: instant
  rw_created :: instant
  rw_proved :: instant
  rw_uuid :: string
  rw_client :: string
  rw_timestamp :: decimal
  rw_attempt :: string
  rw_funds :: "funds_snapshot res"
  rw_reply :: reply
  rw_funds_gap :: "oms \<Rightarrow> oms"
  rw_order_gap :: "oms \<Rightarrow> oms"

definition attempts_key :: "qualifier \<Rightarrow> string" where
  "attempts_key q = ''probe.attempts:'' @ ql_session q"

definition debit_key :: "qualifier \<Rightarrow> string" where
  "debit_key q = ''probe.debit:'' @ ql_session q"

definition probe_limit :: "instrument \<Rightarrow> decimal" where
  "probe_limit i = of_int \<lceil>ddiv (probe_floor i) (tick_size i)\<rceil> * tick_size i"

definition probe_intent :: "route_world \<Rightarrow> instrument \<Rightarrow> intent" where
  "probe_intent w i = \<lparr>in_id = ''probe-'' @ rw_uuid w, in_side = BUY, in_instrument = i, in_quantity = lot_size i, in_limit_price = probe_limit i,
     in_client_order_id = CHR ''p'' # take 28 (rw_client w), in_created_at = rw_created w, in_lifecycle_id = ''route-probe''\<rparr>"

text \<open>The counters and the note that are durable before the order is sent.\<close>

definition book_probe :: "qualifier \<Rightarrow> string \<Rightarrow> int \<Rightarrow> decimal \<Rightarrow> decimal \<Rightarrow> intent \<Rightarrow> (oms, unit) sm" where
  "book_probe q epoch attempts spent debit n =
     bindS (onledger (set_counter (attempts_key q) (of_int attempts))) (\<lambda>_.
     bindS (onledger (set_counter ''probe.spent'' spent)) (\<lambda>_.
     bindS (onledger (set_counter (debit_key q) debit)) (\<lambda>_.
       onledger (put_metadata ''route_probe'' (MData [(''epoch'', DText epoch), (''correlation_id'', DText (in_client_order_id n)),
         (''intent_id'', DText (in_id n))] [])))))"

definition accept_probe :: "route_world \<Rightarrow> string \<Rightarrow> jrow \<Rightarrow> route_proof res" where
  "accept_probe w epoch response =
     (if jget_or ''accountId'' (JStr (rw_account w)) response \<noteq> JStr (rw_account w)
      then Inl (ContractError ''qualification response account mismatch'')
      else if jget ''orderStatus'' response = Some (JStr ''REJECTED'') then Inl (ContractError ''rejected probe cannot qualify route'')
      else Inr \<lparr>rp_epoch = epoch, rp_order = py_str (jget_or ''orderId'' JNull response), rp_account = rw_account w, rp_accepted = rw_proved w,
             rp_zero_fill = False\<rparr>)"

definition send_probe :: "route_world \<Rightarrow> qualifier \<Rightarrow> string \<Rightarrow> instrument \<Rightarrow> int \<Rightarrow> decimal \<Rightarrow> decimal \<Rightarrow> decimal \<Rightarrow> (oms, route_proof) sm" where
  "send_probe w q epoch i attempts spent debit cost =
     bindS (modifyS (rw_funds_gap w)) (\<lambda>_.
     bindS (liftS (rw_funds w)) (\<lambda>f.
     bindS (guardS (broker_account f = rw_account w \<and> cost \<le> spendable_cash f) (ContractError ''qualification cash unavailable'')) (\<lambda>_.
     bindS (liftS (check_intent (probe_intent w i))) (\<lambda>n.
     bindS (book_probe q epoch (attempts + 1) (spent + cost) (debit + cost) n) (\<lambda>_.
     bindS (modifyS (rw_order_gap w)) (\<lambda>_.
     bindS (submit (rw_account w) (rw_created w) (rw_timestamp w) (rw_attempt w) n cost True (Inr []) (rw_reply w)) (\<lambda>response.
       liftS (accept_probe w epoch response))))))))"

definition qualify :: "route_world \<Rightarrow> qualifier \<Rightarrow> option_book \<Rightarrow> string \<Rightarrow> (oms, route_proof) sm" where
  "qualify w q b epoch = bindS getS (\<lambda>s. let l = om_ledger s; i = instr b; limit = probe_limit i;
       attempts = trunc (counter (attempts_key q) l); debit = counter (debit_key q) l in
     bindS (liftS (lifecycle_totals ''route-probe'' l)) (\<lambda>t. let spent = entry_debit_total t + reserved_total t in
     bindS (guardS (attempts < ql_max_attempts q + extra_attempts l (ql_session q) (ql_max_attempts q) (rw_now w))
       (ContractError ''qualification attempt budget exhausted'')) (\<lambda>_.
     case top_bid b of None \<Rightarrow> raiseS (ContractError ''no one-lot bid for qualification'')
     | Some bid \<Rightarrow>
         bindS (guardS (lot_size i \<le> lv_qty bid) (ContractError ''no one-lot bid for qualification'')) (\<lambda>_.
         bindS (guardS (limit < lv_price bid) (ContractError ''no positive non-marketable probe price'')) (\<lambda>_.
         bindS (liftS (probe_cost i limit)) (\<lambda>cost.
         bindS (guardS (debit + cost \<le> ql_debit_cap q \<and> spent + cost \<le> ql_spend_cap q) (ContractError ''qualification debit budget exhausted''))
           (\<lambda>_. send_probe w q epoch i attempts spent debit cost)))))))"


section \<open>Budgets\<close>

definition order_count :: "ledger \<Rightarrow> int" where
  "order_count l = int (length (filter (\<lambda>x. x = ''route-probe'') (map ir_lifecycle (lg_intents l))))"

text \<open>A submission adds its own order at most and touches no counter.\<close>

lemma submit_order_count:
  assumes "submit account now ts a n reserved ready positions answer s = (r, t)"
  shows "counter k (om_ledger t) = counter k (om_ledger s)" "order_count (om_ledger t) \<le> order_count (om_ledger s) + 1"
proof -
  show "counter k (om_ledger t) = counter k (om_ledger s)"
    using alwaysD [OF tables_submit assms] by (simp add: same_tables_def counter_def)
  show "order_count (om_ledger t) \<le> order_count (om_ledger s) + 1"
    using submit_adds_own [OF assms] by (auto simp: with_own_def order_count_def)
qed

lemma row_with_upserted: "row_with fst k (upsert_row fst (\<lambda>old r. r) (k', v) rows) = (if k = k' then Some (k', v) else row_with fst k rows)"
proof -
  have upd: "row_with fst k (update_where (\<lambda>x. fst x = k') (\<lambda>old. (k', v)) rows)
      = map_option (\<lambda>x. if fst x = k' then (k', v) else x) (row_with fst k rows)"
    by (rule row_with_update_where) simp
  then show ?thesis
    by (cases "k = k'"; cases "row_with fst k rows") (auto simp: upsert_row_def row_with_append dest: row_with_SomeD)
qed

lemma counter_set: "counter k (l\<lparr>lg_counters := upsert_row fst (\<lambda>old r. r) (k', v) rows\<rparr>) = (if k = k' then v else counter k (l\<lparr>lg_counters := rows\<rparr>))"
  by (simp add: counter_def row_with_upserted)

text \<open>What others may do between the steps of the probe: anything but touch its budgets.\<close>

definition elsewhere :: "qualifier \<Rightarrow> oms \<Rightarrow> oms \<Rightarrow> bool" where
  "elsewhere q s t = (counter (attempts_key q) (om_ledger t) = counter (attempts_key q) (om_ledger s)
     \<and> counter (debit_key q) (om_ledger t) = counter (debit_key q) (om_ledger s)
     \<and> order_count (om_ledger t) = order_count (om_ledger s))"

definition probe_gaps :: "qualifier \<Rightarrow> route_world \<Rightarrow> bool" where
  "probe_gaps q w = (\<forall>s. elsewhere q s (rw_funds_gap w s) \<and> elsewhere q s (rw_order_gap w s))"

definition probe_within :: "qualifier \<Rightarrow> int \<Rightarrow> oms \<Rightarrow> bool" where
  "probe_within q n s = (\<exists>k. counter (attempts_key q) (om_ledger s) = of_int k \<and> k \<le> ql_max_attempts q + 1
     \<and> order_count (om_ledger s) \<le> n + k \<and> counter (debit_key q) (om_ledger s) \<le> ql_debit_cap q)"

lemma probe_budget_elsewhere: "elsewhere q s t \<Longrightarrow> probe_within q n s \<Longrightarrow> probe_within q n t"
  by (auto simp: elsewhere_def probe_within_def)

lemma probe_keys: "attempts_key q \<noteq> debit_key q" "attempts_key q \<noteq> ''probe.spent''" "debit_key q \<noteq> ''probe.spent''"
  "debit_key q \<noteq> attempts_key q" "''probe.spent'' \<noteq> attempts_key q" "''probe.spent'' \<noteq> debit_key q"
  by (simp_all add: attempts_key_def debit_key_def)

lemma put_metadata_counters: "counter k (l\<lparr>lg_metadata := x\<rparr>) = counter k l" "order_count (l\<lparr>lg_metadata := x\<rparr>) = order_count l"
  "order_count (l\<lparr>lg_counters := y\<rparr>) = order_count l"
  by (simp_all add: counter_def order_count_def)

lemma book_probe_run:
  assumes "book_probe q epoch a sp d x s = (r, t)"
  shows "r = Inr () \<and> counter (attempts_key q) (om_ledger t) = of_int a \<and> counter (debit_key q) (om_ledger t) = d
    \<and> order_count (om_ledger t) = order_count (om_ledger s)"
  using assms
  by (auto simp: book_probe_def bindS_run onledger_run set_counter_def put_metadata_def counter_set probe_keys put_metadata_counters)

lemma send_probe_budget:
  assumes g: "probe_gaps q w" and s: "counter (attempts_key q) (om_ledger s) = of_int k" "order_count (om_ledger s) \<le> n + k"
    "counter (debit_key q) (om_ledger s) = debit" "debit \<le> ql_debit_cap q"
    and k: "k \<le> ql_max_attempts q" and c: "debit + cost \<le> ql_debit_cap q"
    and run: "send_probe w q epoch i k spent debit cost s = (r, t)"
  shows "probe_within q n t"
proof -
  let ?s1 = "rw_funds_gap w s"
  have e1: "elsewhere q s ?s1" using g by (simp add: probe_gaps_def)
  have b1: "probe_within q n ?s1" using e1 s k by (auto simp: elsewhere_def probe_within_def)
  from run consider "t = ?s1"
    | x s2 where "book_probe q epoch (k + 1) (spent + cost) (debit + cost) x ?s1 = (Inr (), s2)"
        "bindS (submit (rw_account w) (rw_created w) (rw_timestamp w) (rw_attempt w) x cost True (Inr []) (rw_reply w))
           (\<lambda>response. liftS (accept_probe w epoch response)) (rw_order_gap w s2) = (r, t)"
    by (auto simp: send_probe_def bindS_run guardR_def split: prod.splits sum.splits if_splits dest: book_probe_run)
  then show ?thesis
  proof cases
    case 1
    with b1 show ?thesis by simp
  next
    case 2
    let ?s3 = "rw_order_gap w s2"
    have "elsewhere q s2 ?s3" using g by (simp add: probe_gaps_def)
    with book_probe_run [OF 2(1)] e1 s have s3: "counter (attempts_key q) (om_ledger ?s3) = of_int (k + 1)"
      "counter (debit_key q) (om_ledger ?s3) = debit + cost" "order_count (om_ledger ?s3) \<le> n + k"
      by (auto simp: elsewhere_def)
    obtain v u where sub: "submit (rw_account w) (rw_created w) (rw_timestamp w) (rw_attempt w) x cost True (Inr []) (rw_reply w) ?s3 = (v, u)" by force
    with 2(2) have "t = u" by (auto simp: bindS_run split: sum.splits)
    note t = submit_order_count [OF sub [folded this]]
    with s3 k c show ?thesis unfolding probe_within_def using t by (intro exI [of _ "k + 1"]) simp
  qed
qed

lemma trunc_int: "trunc (of_int k) = k"
  by (simp add: trunc_def)

lemma extra_one: "extra_attempts l session m now \<le> 1"
  by (simp add: extra_attempts_def split: option.splits meta.splits)

lemma qualify_budget:
  assumes g: "probe_gaps q w" and b: "probe_within q n s" and run: "qualify w q book epoch s = (r, t)"
  shows "probe_within q n t"
proof -
  from b obtain k where k: "counter (attempts_key q) (om_ledger s) = of_int k" "order_count (om_ledger s) \<le> n + k"
    "counter (debit_key q) (om_ledger s) \<le> ql_debit_cap q" by (auto simp: probe_within_def)
  let ?debit = "counter (debit_key q) (om_ledger s)"
  from run consider "t = s" | i spent cost where "k < ql_max_attempts q + extra_attempts (om_ledger s) (ql_session q) (ql_max_attempts q) (rw_now w)"
      "?debit + cost \<le> ql_debit_cap q" "send_probe w q epoch i k spent ?debit cost s = (r, t)"
    by (auto simp: qualify_def bindS_run guardR_def k(1) trunc_int Let_def split: prod.splits sum.splits if_splits option.splits)
  then show ?thesis
  proof cases
    case 1
    with b show ?thesis by simp
  next
    case 2
    have "k \<le> ql_max_attempts q" using 2(1) extra_one [of "om_ledger s" "ql_session q" "ql_max_attempts q" "rw_now w"] by linarith
    from send_probe_budget [OF g k(1,2) refl k(3) this 2(2,3)] show ?thesis .
  qed
qed

inductive probe_step :: "qualifier \<Rightarrow> oms \<Rightarrow> oms \<Rightarrow> bool" for q where
  probe: "probe_gaps q w \<Longrightarrow> qualify w q book epoch s = (r, t) \<Longrightarrow> probe_step q s t"
| other: "elsewhere q s t \<Longrightarrow> probe_step q s t"

text \<open>
  The probe's budgets hold whatever the broker answers. However often the route is
  qualified in a session, with whatever order book, clock and answers, with funds reads that
  fail, orders that are refused or never answered, and anything else that leaves the probe's
  counters alone happening in between: at most the configured number of probe orders, and
  one more where an operator granted it, is ever recorded, and the cash the session's probes
  may cost never exceeds the session's cap.
\<close>

lemma probe_budget:
  assumes "(probe_step q)\<^sup>*\<^sup>* s t" "counter (attempts_key q) (om_ledger s) = 0" "counter (debit_key q) (om_ledger s) = 0"
    "0 < ql_max_attempts q" "0 < ql_debit_cap q"
  shows "order_count (om_ledger t) \<le> order_count (om_ledger s) + ql_max_attempts q + 1 \<and> counter (debit_key q) (om_ledger t) \<le> ql_debit_cap q"
proof -
  have "probe_within q (order_count (om_ledger s)) s" using assms(2-5) by (auto simp: probe_within_def intro: exI [of _ 0])
  with assms(1) have "probe_within q (order_count (om_ledger s)) t"
    by (induction rule: rtranclp_induct) (auto elim!: probe_step.cases intro: qualify_budget probe_budget_elsewhere)
  then show ?thesis by (auto simp: probe_within_def)
qed

end
