(* ===== verification/Reserved.thy ===== *)
theory Reserved
  imports Submitted
begin

text \<open>
  The cash behind the buys of the order manager (\<open>orders.py\<close>, \<open>ledger.py\<close>): every buy it
  records is reserved for in full, so what a lifecycle spends and still reserves stays
  within its reservations.
\<close>

section \<open>Every recorded buy is reserved for\<close>

text \<open>An intent's economics never change, so only a new intent can lack a reservation.\<close>

lemma well_reserved_core: "well_reserved (core r) = well_reserved r"
  by (simp add: well_reserved_def)

definition reserves :: "oms \<Rightarrow> oms \<Rightarrow> bool" where
  "reserves s t = (list_all well_reserved (map core (lg_intents (om_ledger s)))
     \<longrightarrow> list_all well_reserved (map core (lg_intents (om_ledger t))))"

lemma reserves_onledger:
  assumes "\<And>l x l'. f l = Inr (x, l') \<Longrightarrow> map core (lg_intents l') = map core (lg_intents l)"
  shows "always reserves (onledger f)"
  using assms by (auto simp: always_def onledger_run reserves_def split: sum.splits)

interpretation reserves: order_writes reserves "\<lambda>i. True"
proof unfold_locales
  show "always reserves (onledger (record_attempt now a i st resp))" for now a i st resp
    by (rule reserves_onledger) (auto simp: record_attempt_def)
  show "always reserves (onledger (set_intent_state i st))" for i st
    by (rule reserves_onledger) (auto simp: set_intent_state_def)
  show "always reserves (onledger (record_order oid i account st payload))" for oid i account st payload
    by (rule reserves_onledger) (simp add: same_record_order)
  show "always reserves (onledger (rate_attempt n a ts))" for n a ts
    by (rule reserves_onledger) (auto dest!: rate_attempt_Inr(1))
qed (auto simp: reserves_def always_def account_changed_def)

lemma reserves_create:
  assumes n: "check_intent n = Inr n" and r: "check_reservation n reserved = Inr ()"
  shows "always reserves (onledger (create_intent n reserved))"
proof -
  have pos: "0 < in_quantity n" "0 < in_limit_price n" using n by (auto simp: check_intent_def split: if_splits)
  note worst = worst_case_entry_cash_eq [OF fees_ok_default pos order.refl]
  have "well_reserved (new_row n reserved ''PENDING_SEND'')"
    using r by (auto simp: well_reserved_def check_reservation_def bindR_Inr_iff guardR_Inr_iff worst split: if_splits)
  then show ?thesis
    by (auto simp: always_def onledger_run reserves_def well_reserved_core split: sum.splits dest!: create_intent_Inr)
qed

lemma reserves_submit:
  "check_intent n = Inr n \<Longrightarrow> always reserves (submit account now ts a n reserved ready positions answer)"
  by (rule reserves.always_submit [OF TrueI reserves_create])

lemma reserves_reconcile: "always reserves (reconcile_commit now account revision rows resolved trades historical positions)"
proof (rule reserves.always_reconcile)
  show "always reserves (onledger (record_order_charges oid i fees c))" for oid i fees c
    by (rule reserves_onledger) (simp add: same_charges)
  show "always reserves (onledger (record_fill_once f i))" for f i
    by (rule reserves_onledger) (auto simp: record_fill_once_def Let_def split: option.splits if_splits)
qed simp

lemma om_steps_reserve:
  assumes "om_step\<^sup>*\<^sup>* s t"
  shows "reserves s t"
  using assms
proof (induction rule: rtranclp_induct)
  case (step t u)
  from step(2) have "reserves t u" by (auto elim!: om_stepE dest: alwaysD [OF reserves_submit] alwaysD [OF reserves_reconcile])
  with step(3) show ?case by (rule reserves.trans)
qed (rule reserves.refl)

section \<open>Properties\<close>

text \<open>
  C9: What a lifecycle has spent and still reserves never exceeds what its buys reserved.
  From an empty ledger, whatever is submitted, answered and reconciled: the order manager
  refuses a buy whose reservation does not cover the worst case, an intent's economics never
  change, and the partial fills of an unresolved order release exactly what they used. The
  broker is taken to keep a limit order's terms: its fills of the lifecycle's buys are at or
  below the limit, and it reports no more charges than the schedule's for the whole order.
\<close>

theorem spent_and_reserved_within_reservation:
  assumes reach: "om_step\<^sup>*\<^sup>* start s" and run: "lifecycle_totals k (om_ledger s) = Inr t"
    and broker: "\<forall>r \<in> set (intents_on (om_ledger s) BUY k). honoured (om_ledger s) r"
  shows "entry_debit_total t + reserved_total t \<le> sum_by ir_reserved (intents_on (om_ledger s) BUY k)"
proof -
  let ?l = "om_ledger s"
  have "wf_ledger ?l" using om_steps_wf [OF reach] wf_empty by (simp add: start_def)
  moreover have "list_all well_reserved (lg_intents ?l)"
    using om_steps_reserve [OF reach] by (simp add: reserves_def start_def empty_ledger_def list_all_iff well_reserved_core)
  then have "\<forall>r \<in> set (lg_intents ?l). ir_lifecycle r = k \<longrightarrow> ir_side r = BUY \<longrightarrow> within_limit ?l r"
    using broker by (auto simp: within_limit_def list_all_iff intents_on_def)
  ultimately show ?thesis using spent_and_reserved [OF _ run] by (simp add: intents_on_def)
qed

theorem spent_and_reserved_within_reservation_witness:
  "\<exists>t. lifecycle_totals ''l1'' (om_ledger demo_reconciled) = Inr t \<and> entry_debit_total t + reserved_total t \<le> 7700"
proof -
  have n: "check_intent demo_intent = Inr demo_intent" by code_simp
  have "om_step start demo_sent" "om_step demo_sent demo_reconciled"
    by (rule om_step.submission [OF n demo_sent_run [unfolded demo_submit_def]], rule om_step.reconciliation [OF subset_refl demo_reconciled_run])
  then have reach: "om_step\<^sup>*\<^sup>* start demo_reconciled" by auto
  have "ok (lifecycle_totals ''l1'' (om_ledger demo_reconciled))" by code_simp
  then obtain t where t: "lifecycle_totals ''l1'' (om_ledger demo_reconciled) = Inr t"
    by (cases "lifecycle_totals ''l1'' (om_ledger demo_reconciled)") auto
  have "list_all (honoured (om_ledger demo_reconciled)) (intents_on (om_ledger demo_reconciled) BUY ''l1'')" by code_simp
  then have "\<forall>r \<in> set (intents_on (om_ledger demo_reconciled) BUY ''l1''). honoured (om_ledger demo_reconciled) r"
    by (simp add: list_all_iff)
  from spent_and_reserved_within_reservation [OF reach t this]
  have "entry_debit_total t + reserved_total t \<le> sum_by ir_reserved (intents_on (om_ledger demo_reconciled) BUY ''l1'')" .
  also have "\<dots> = 7700" by code_simp
  finally show ?thesis using t by blast
qed

end
