(* ===== verification/ExitOrders.thy ===== *)
theory ExitOrders
  imports Exits Orders
begin

text \<open>
  An exit on its way to the broker: the quantity and limit that \<open>exit_manager.py\<close> and
  \<open>exits.py\<close> choose, and the checks that \<open>orders.py\<close> makes of the request.
\<close>

lemma reduce_order_Inr:
  "reduce_order i quantity b emergency = Inr (q, limit)
     \<Longrightarrow> sell_limit b emergency = Inr limit \<and> q = min quantity (whole_lots i) \<and> 0 < quantity"
  by (auto simp: reduce_order_def bindR_Inr_iff split: if_splits)

lemma whole_lots_le: "0 < lot_size i \<Longrightarrow> 0 \<le> freeze_qty i \<Longrightarrow> whole_lots i \<le> freeze_qty i"
  by (simp add: whole_lots_def pos_mod_sign minus_mod_eq_div_mult [symmetric])

text \<open>
  C19: Whether the order manager takes the order an exit asks for, normal or emergency, is
  decided by the upper band alone. The child quantity never exceeds the freeze, the limit is
  on a tick and above the lower band; so the request is built, with the exit's own quantity
  and price, exactly when there is no upper band or some tick lies between the price aimed at
  and that band. Otherwise every attempt to reduce the holding at this book is refused before
  it is recorded, with \<open>order price outside instrument band\<close>.
\<close>

theorem exit_request_refused_iff:
  assumes ok: "instrument_ok (instr b)" and run: "reduce_order (instr b) quantity b emergency = Inr (q, limit)"
    and n: "in_instrument n = instr b" "in_side n = SELL" "in_quantity n = q" "in_limit_price n = limit" "length (in_client_order_id n) \<le> 30"
    and band: "\<forall>l u. lower_limit (instr b) = Some l \<longrightarrow> upper_limit (instr b) = Some u \<longrightarrow> l \<le> u"
      "\<forall>u. upper_limit (instr b) = Some u \<longrightarrow> 0 < u"
    and digits: "ctx28 (exit_target b emergency / tick_size (instr b)) = exit_target b emergency / tick_size (instr b)"
  shows "if \<forall>u. upper_limit (instr b) = Some u \<longrightarrow>
              (\<exists>k. exit_target b emergency \<le> of_int k * tick_size (instr b) \<and> of_int k * tick_size (instr b) \<le> u)
         then \<exists>rq. order_request n account = Inr rq \<and> rq_quantity rq = q \<and> rq_price rq = limit \<and> rq_side rq = SELL
         else order_request n account = Inl (ContractError ''order price outside instrument band'')"
proof -
  note r = reduce_order_Inr [OF run]
  have s: "sell_limit b emergency = Inr limit" using r by simp
  note lim = sell_limit_bounds [OF ok s band digits]
  have "q \<le> freeze_qty (instr b)"
    using r whole_lots_le [of "instr b"] instrument_okD(1,2) [OF ok] by (auto simp: min_def)
  moreover obtain k where "tick (instr b) limit = Inr k" using s by (auto simp: sell_limit_Inr)
  ultimately show ?thesis using n lim by (auto simp: order_request_def Let_def split: option.splits)
qed

text \<open>Two books: one in a band on ticks, whose exit is sent, and one whose band ends between two ticks.\<close>

definition exit_intent :: "option_book \<Rightarrow> decimal \<Rightarrow> intent" where
  "exit_intent b limit = \<lparr>in_id = ''x1'', in_side = SELL, in_instrument = instr b, in_quantity = 75, in_limit_price = limit,
     in_client_order_id = ''x1'', in_created_at = 5, in_lifecycle_id = ''l1''\<rparr>"

theorem exit_request_refused_iff_witness:
  "order_request (exit_intent unaligned_book (1005 / 100)) ''A'' = Inl (ContractError ''order price outside instrument band'')
   \<and> (\<exists>rq. order_request (exit_intent demo_book (999 / 10)) ''A'' = Inr rq \<and> rq_price rq = 999 / 10)"
proof
  have run: "reduce_order (instr unaligned_book) 75 unaligned_book False = Inr (75, 1005 / 100)" by code_simp
  have d: "lower_limit demo_instrument = Some (1 / 20)" "upper_limit demo_instrument = Some 500" "tick_size demo_instrument = 1 / 20"
    by (simp_all add: demo_instrument_def)
  have none: "\<not> (1002 / 100 \<le> of_int k * (1 / 20 :: decimal) \<and> of_int k * (1 / 20) \<le> (1002 / 100 :: decimal))" for k :: int
  proof
    assume "1002 / 100 \<le> of_int k * (1 / 20 :: decimal) \<and> of_int k * (1 / 20) \<le> (1002 / 100 :: decimal)"
    then have "of_int (k * 5) = (1002 :: decimal)" by simp
    then have "k * 5 = 1002" by (simp only: of_int_eq_numeral_iff)
    then show False by presburger
  qed
  let ?n = "exit_intent unaligned_book (1005 / 100)"
  have n: "in_instrument ?n = instr unaligned_book" "in_side ?n = SELL" "in_quantity ?n = 75" "in_limit_price ?n = 1005 / 100"
    "length (in_client_order_id ?n) \<le> 30" by (simp_all add: exit_intent_def)
  have "\<not> (\<forall>u. upper_limit (instr unaligned_book) = Some u \<longrightarrow> (\<exists>k. exit_target unaligned_book False
      \<le> of_int k * tick_size (instr unaligned_book) \<and> of_int k * tick_size (instr unaligned_book) \<le> u))"
    using none by (auto simp only: unaligned_facts(3) unaligned_band(1,2) option.inject)
  with exit_request_refused_iff [OF unaligned_facts(1) run n unaligned_band(3,4) unaligned_facts(4)]
  show "order_request ?n ''A'' = Inl (ContractError ''order price outside instrument band'')" by simp
  have i: "instr demo_book = demo_instrument" by (simp add: demo_book_def)
  have run: "reduce_order (instr demo_book) 75 demo_book False = Inr (75, 999 / 10)" by code_simp
  have t: "exit_target demo_book False = 999 / 10" by code_simp
  have e: "ctx28 (exit_target demo_book False / tick_size (instr demo_book)) = exit_target demo_book False / tick_size (instr demo_book)" by code_simp
  have "\<exists>k. 999 / 10 \<le> of_int k * (1 / 20 :: decimal) \<and> of_int k * (1 / 20 :: decimal) \<le> 500"
    by (rule exI [of _ 1998]) simp
  then show "\<exists>rq. order_request (exit_intent demo_book (999 / 10)) ''A'' = Inr rq \<and> rq_price rq = 999 / 10"
    using exit_request_refused_iff [OF _ run, of "exit_intent demo_book (999 / 10)" "''A''"] e demo_instrument_ok
    by (auto simp: t i d exit_intent_def)
qed

end
