(* ===== verification/EngineProps.thy ===== *)
theory EngineProps
  imports EngineDemo Submitted
begin

text \<open>
  What the session engine of \<open>dhan_cas_bot/engine.py\<close> guarantees: the streaks its feed
  callbacks keep, the allocation of a lifecycle, the reconciliation that precedes every
  order of an open position and the gate every entry passes.
\<close>

section \<open>Streaks are unbroken runs of the latest observations\<close>

definition lags_now :: "(string \<times> option_book) list \<Rightarrow> (decimal \<times> string) list \<Rightarrow> string \<Rightarrow> bool" where
  "lags_now books observations security =
     (case map_of books security of None \<Rightarrow> False | Some b \<Rightarrow> lagging b (fst (last observations)))"

definition streaks_ok :: "'z engine_scheme \<Rightarrow> bool" where
  "streaks_ok s = (distinct (map fst (en_books s))
     \<and> (\<forall>(security, h) \<in> set (en_streaks s). h \<noteq> [] \<and> suffix h (en_observations s) \<and> lags_now (en_books s) (en_observations s) security))"

text \<open>One callback of a feed, whatever it answers.\<close>

inductive feed_step :: "engine \<Rightarrow> engine \<Rightarrow> bool" where
  signal: "signal_reconnect e s = (r, s') \<Longrightarrow> feed_step s s'"
| market: "market_reconnect e s = (r, s') \<Longrightarrow> feed_step s s'"
| status: "on_status st u s = (r, s') \<Longrightarrow> feed_step s s'"
| ltp: "on_ltp x s = (r, s') \<Longrightarrow> feed_step s s'"
| iep: "observe_iep x value_text s = (r, s') \<Longrightarrow> feed_step s s'"
| book: "on_book b s = (r, s') \<Longrightarrow> feed_step s s'"
| final: "on_final now f s = (r, s') \<Longrightarrow> feed_step s s'"

inductive_cases feed_stepE: "feed_step s s'"

text \<open>Handlers that touch neither books, observations nor streaks.\<close>

definition same_signal :: "'z engine_scheme \<Rightarrow> 'z engine_scheme \<Rightarrow> bool" where
  "same_signal s s' = (en_books s' = en_books s \<and> en_observations s' = en_observations s \<and> en_streaks s' = en_streaks s)"

interpretation quiet: step_closed same_signal
  by unfold_locales (auto simp: same_signal_def)

lemma quiet_runtime:
  "always same_signal (set_status f)" "always same_signal (set_state st)" "always same_signal (set_reason rs)"
  "always same_signal (on_oms m)" "always same_signal (put_meta k v)" "always same_signal get_active"
  by (auto simp: always_def same_signal_def on_oms_def put_meta_def get_active_def bindS_run split: prod.splits)

lemma quiet_modify: "(\<And>s. same_signal s (f s)) \<Longrightarrow> always same_signal (modifyS f)"
  by (simp add: always_def)

lemmas quiet_rules = quiet.always_rules quiet_runtime quiet_modify

lemma quiet_on_status: "always same_signal (on_status st u)"
  unfolding on_status_def by (intro quiet_rules) (simp_all add: same_signal_def)

lemma quiet_on_final: "always same_signal (on_final now f)"
  unfolding on_final_def Let_def
  by (intro quiet_rules; auto intro!: quiet_rules simp: same_signal_def split: option.splits iso_time.splits)

lemma streaks_ok_same: "same_signal s s' \<Longrightarrow> streaks_ok s \<Longrightarrow> streaks_ok s'"
  by (simp add: same_signal_def streaks_ok_def)

lemma suffix_last_n_mono: "suffix xs ys \<Longrightarrow> suffix (last_n n xs) (last_n n ys)"
proof -
  assume "suffix xs ys"
  then obtain zs where "ys = zs @ xs" by (auto simp: suffix_def)
  then show ?thesis
    by (cases "n \<le> length xs") (auto simp: last_n_def suffix_def drop_append)
qed

lemma last_n_snoc_last: "0 < n \<Longrightarrow> last_n n (xs @ [x]) \<noteq> [] \<and> last (last_n n (xs @ [x])) = x"
  by (simp add: last_n_snoc)

definition keeps_streaks :: "'z engine_scheme \<Rightarrow> 'z engine_scheme \<Rightarrow> bool" where
  "keeps_streaks s s' = (streaks_ok s \<longrightarrow> streaks_ok s')"

interpretation keeps: step_closed keeps_streaks
  by unfold_locales (auto simp: keeps_streaks_def)

lemma keeps_same: "always same_signal m \<Longrightarrow> always keeps_streaks m"
  by (auto simp: always_def keeps_streaks_def dest: streaks_ok_same)

lemma streaks_ok_take:
  assumes "streaks_ok s"
  shows "streaks_ok (take_observation ref obs s)"
proof -
  let ?s = "take_observation ref obs s"
  have l: "last (en_observations ?s) = obs"
    using last_n_snoc_last [of 24 "en_observations s" obs] by (simp add: take_observation_def)
  have "h \<noteq> [] \<and> suffix h (en_observations ?s) \<and> lags_now (en_books ?s) (en_observations ?s) security"
    if "(security, h) \<in> set (en_streaks ?s)" for security h
  proof -
    from that obtain b where m: "(security, b) \<in> set (en_books s)" "lagging b (fst obs)"
      and h: "h = last_n 24 (streak_of security (en_streaks s) @ [obs])"
      by (auto simp: take_observation_def extend_streaks_def)
    from m(1) assms have "map_of (en_books s) security = Some b" by (simp add: streaks_ok_def)
    moreover have "suffix (streak_of security (en_streaks s)) (en_observations s)"
      using assms by (auto simp: streaks_ok_def streak_of_def dest!: map_of_SomeD split: option.splits)
    then have "suffix (streak_of security (en_streaks s) @ [obs]) (en_observations s @ [obs])" by (auto simp: suffix_def)
    then have "suffix h (en_observations ?s)" by (simp add: h take_observation_def suffix_last_n_mono)
    ultimately show ?thesis
      using m(2) last_n_snoc_last [of 24 "streak_of security (en_streaks s)" obs] l
      by (simp add: h lags_now_def take_observation_def)
  qed
  then show ?thesis using assms by (auto simp: streaks_ok_def take_observation_def)
qed

lemma streaks_ok_identities: "streaks_ok s \<Longrightarrow> streaks_ok (s\<lparr>en_identities := ids\<rparr>)"
  by (simp add: streaks_ok_def)

lemma keeps_modify: "(\<And>s. streaks_ok s \<Longrightarrow> streaks_ok (f s)) \<Longrightarrow> always keeps_streaks (modifyS f)"
  by (simp add: always_def keeps_streaks_def)

lemma streaks_ok_last_signal: "streaks_ok s \<Longrightarrow> streaks_ok (s\<lparr>en_last_signal := n\<rparr>)"
  by (simp add: streaks_ok_def)

lemma keeps_iep: "always keeps_streaks (observe_iep x value_text)"
  unfolding observe_iep_def Let_def
proof (rule keeps.always_bind [OF keeps.always_get], goal_cases)
  case (1 s)
  show ?case
    by (cases "en_reference s"; cases "en_cas s"; simp only: prod.case option.case;
      intro keeps.always_rules keeps_modify keeps_same [OF quiet_runtime(4)] streaks_ok_take streaks_ok_identities streaks_ok_last_signal)
qed

lemma streaks_ok_book:
  assumes "on_book b s = (r, s')" "streaks_ok s"
  shows "streaks_ok s'"
proof (cases "s' = s")
  case False
  let ?sec = "security_id (instr b)"
  from False assms(1) have books: "en_books s' = AList.update ?sec b (en_books s)" "en_observations s' = en_observations s"
    and streaks: "en_streaks s' = (if map_of (en_streaks s) ?sec \<noteq> None \<and> en_observations s \<noteq> []
        \<and> \<not> lagging b (fst (last (en_observations s))) then AList.delete ?sec (en_streaks s) else en_streaks s)"
    by (auto simp: on_book_def Let_def split: if_splits)
  have "h \<noteq> [] \<and> suffix h (en_observations s) \<and> lags_now (en_books s') (en_observations s) security"
    if "(security, h) \<in> set (en_streaks s')" for security h
  proof -
    from that have old: "(security, h) \<in> set (en_streaks s)" by (auto simp: streaks AList.delete_eq split: if_splits)
    then have h: "h \<noteq> []" "suffix h (en_observations s)" "lags_now (en_books s) (en_observations s) security"
      using assms(2) by (auto simp: streaks_ok_def)
    then have "en_observations s \<noteq> []" by auto
    moreover have "map_of (en_streaks s) security \<noteq> None" using old by (auto simp: map_of_eq_None_iff intro: rev_image_eqI)
    ultimately have "security = ?sec \<Longrightarrow> lagging b (fst (last (en_observations s)))"
      using that by (auto simp: streaks AList.delete_eq split: if_splits)
    with h show ?thesis by (cases "security = ?sec") (auto simp: lags_now_def books AList.update_conv')
  qed
  moreover have "distinct (map fst (en_books s'))" using assms(2) by (simp add: books(1) AList.distinct_update streaks_ok_def)
  ultimately show ?thesis by (auto simp: streaks_ok_def books(2))
qed (use assms(2) in simp)

lemma feed_step_streaks: "feed_step s s' \<Longrightarrow> streaks_ok s \<Longrightarrow> streaks_ok s'"
proof (induction rule: feed_step.induct)
  case (signal e s r s') then show ?case by (auto simp: signal_reconnect_def bindS_run streaks_ok_def)
next
  case (market e s r s') then show ?case by (auto simp: market_reconnect_def streaks_ok_def)
next
  case (status st u s r s') then show ?case using alwaysD [OF quiet_on_status] streaks_ok_same by blast
next
  case (ltp x s r s') then show ?case by (auto simp: on_ltp_def intro: streaks_ok_same [rotated] split: if_splits simp: same_signal_def)
next
  case (final now f s r s') then show ?case using alwaysD [OF quiet_on_final] streaks_ok_same by blast
next
  case (iep x value_text s r s') then show ?case by (meson alwaysD keeps_iep keeps_streaks_def)
qed (auto intro: streaks_ok_book)

section \<open>The entry gate\<close>

definition calm :: "'z engine_scheme \<Rightarrow> 'z engine_scheme \<Rightarrow> bool" where
  "calm s s' = (lg_intents (rt_ledger s') = lg_intents (rt_ledger s))"

interpretation calm: step_closed calm
  by unfold_locales (auto simp: calm_def)

text \<open>From a state with intents \<open>I\<close> the handler writes no intent or ends in a state with \<open>P\<close>.\<close>

definition gated :: "intent_row list \<Rightarrow> ('z engine_scheme \<Rightarrow> bool) \<Rightarrow> ('z engine_scheme, 'a) sm \<Rightarrow> 'z engine_scheme \<Rightarrow> bool" where
  "gated I P m s = (lg_intents (rt_ledger s) = I \<longrightarrow> (\<forall>r s'. m s = (r, s') \<longrightarrow> lg_intents (rt_ledger s') = I \<or> P s'))"

lemma gated_calm: "always calm m \<Longrightarrow> gated I P m s"
  by (auto simp: gated_def calm_def dest: alwaysD)

lemma gated_bind:
  assumes "always calm m" "\<And>x t. m s = (Inr x, t) \<Longrightarrow> gated I P (f x) t"
  shows "gated I P (bindS m f) s"
  unfolding gated_def
proof (intro impI allI)
  fix r s' assume i: "lg_intents (rt_ledger s) = I" and run: "bindS m f s = (r, s')"
  obtain v t where m: "m s = (v, t)" by force
  with assms(1) i have t: "lg_intents (rt_ledger t) = I" by (auto simp: calm_def dest: alwaysD)
  show "lg_intents (rt_ledger s') = I \<or> P s'"
  proof (cases v)
    case (Inr x)
    with m assms(2) have "gated I P (f x) t" by simp
    moreover from m run Inr have "f x t = (r, s')" by (simp add: bindS_run)
    ultimately show ?thesis using t by (simp add: gated_def)
  qed (use m run t in \<open>simp add: bindS_run\<close>)
qed

lemma gated_get: "gated I P (f s) s \<Longrightarrow> gated I P (bindS getS f) s"
  by (simp add: gated_def bindS_run)

lemma gated_if: "(b \<Longrightarrow> gated I P m s) \<Longrightarrow> (\<not> b \<Longrightarrow> gated I P n s) \<Longrightarrow> gated I P (if b then m else n) s"
  by simp

lemma calm_modify: "(\<And>s. calm s (f s)) \<Longrightarrow> always calm (modifyS f)"
  by (simp add: always_def)

lemma calm_status: "always calm (set_status f)" "always calm (set_state st)" "always calm (set_reason rs)"
  by (auto simp: always_def calm_def)

lemma calm_permit: "always calm (permit_entry add strategy)"
  by (auto simp: always_def calm_def permit_entry_def)

lemma calm_ledger:
  assumes "\<And>l x l'. f l = Inr (x, l') \<Longrightarrow> lg_intents l' = lg_intents l"
  shows "always calm (on_oms (onledger f))"
  using assms
  by (auto simp: always_def calm_def on_oms_def onledger_def transactionS_run bindR_def split: sum.splits prod.splits)

lemma calm_put_meta: "always calm (put_meta k v)"
  unfolding put_meta_def by (rule calm_ledger) (auto simp: put_metadata_def)

lemmas calm_rules = calm.always_rules calm_status calm_permit calm_put_meta

lemma permit_run: "permit_entry add strategy s = (Inr b, t) \<Longrightarrow> b = entry_permitted add strategy s"
  by (simp add: permit_entry_def)

text \<open>A preparation whose inputs changed writes nothing.\<close>

lemma prepare_not_ready: "\<exists>e. prepare account now ts a n reserved False positions s = (Inl e, s)"
  by (auto simp: prepare_def bindS_run guardR_def split: sum.splits)

lemma submit_not_ready: "\<exists>e. submit account now ts a n reserved False positions answer s = (Inl e, s)"
  using prepare_not_ready [of account now ts a n reserved positions s] by (auto simp: submit_def bindS_run)

definition entry_gate :: "'y cycle_world \<Rightarrow> bool \<Rightarrow> bool \<Rightarrow> 'z engine_scheme \<Rightarrow> bool" where
  "entry_gate w settlement_add final s =
     (entry_permitted settlement_add CAS s \<and> en_market_connected s
      \<and> (final \<or> en_signal_connected s \<and> (case en_cas s of None \<Rightarrow> False | Some c \<Rightarrow> phase c \<in> {CAS_LM_START, CAS_M_STOP}))
      \<and> ist_date (cw_later w) = en_day s
      \<and> ist_time (cw_later w) < (if final then clock 15 38 + seconds 30 else clock 15 30))"

definition quiet_gaps :: "'z engine_scheme cycle_world \<Rightarrow> 'z engine_scheme directional_ops option \<Rightarrow> bool" where
  "quiet_gaps w dir = ((\<forall>s. calm s (cw_funds_gap w s) \<and> calm s (cw_dispatch_gap w s))
     \<and> (case dir of None \<Rightarrow> True | Some d \<Rightarrow> \<forall>x q a. always calm (do_compare d x q a)))"

lemma entry_gate_pending:
  "entry_gate w add final s \<Longrightarrow> entry_gate w add final (s\<lparr>rt_status := (rt_status s)\<lparr>rs_state := ''ENTRY_PENDING'', rs_reason := x\<rparr>\<rparr>)"
  by (auto simp: entry_gate_def entry_permitted_def Let_def split: if_splits)

lemma submit_order_gated:
  assumes "\<And>s. calm s (cw_dispatch_gap w s)" "\<And>s. ready s \<Longrightarrow> entry_gate w add final s"
  shows "gated I (entry_gate w add final) (submit_order w n reserved ready) s"
  unfolding gated_def
proof (intro impI allI)
  fix r s' assume i: "lg_intents (rt_ledger s) = I" and run: "submit_order w n reserved ready s = (r, s')"
  let ?t = "cw_dispatch_gap w s"
  have t: "lg_intents (rt_ledger ?t) = I" using assms(1) i by (simp add: calm_def)
  show "lg_intents (rt_ledger s') = I \<or> entry_gate w add final s'"
  proof (cases "check_intent n")
    case (Inl e)
    with run i show ?thesis by (simp add: submit_order_def bindS_run)
  next
    case (Inr n')
    let ?m = "submit (md_account_id (rt_mandate ?t)) (cw_now w) (cw_timestamp w) (cw_attempt w) n' reserved (ready ?t) (cw_sale_positions w) (cw_reply w)"
    obtain v u where m: "?m (rt_oms ?t) = (v, u)" by force
    from run Inr m have s': "s' = ?t\<lparr>rt_oms := u\<rparr>"
      by (auto simp: submit_order_def bindS_run on_oms_def split: sum.splits)
    show ?thesis
    proof (cases "ready ?t")
      case True
      then have g: "entry_gate w add final ?t" by (rule assms(2))
      have "lg_metadata (om_ledger u) = lg_metadata (rt_ledger ?t)"
        using alwaysD [OF tables_submit m] by (simp add: same_tables_def)
      with g have "entry_gate w add final s'"
        by (simp add: s' entry_gate_def entry_permitted_def metadata_flag_def metadata_def)
      then show ?thesis ..
    next
      case False
      with m have "u = rt_oms ?t"
        using submit_not_ready [of "md_account_id (rt_mandate ?t)" "cw_now w" "cw_timestamp w" "cw_attempt w" n' reserved
            "cw_sale_positions w" "cw_reply w" "rt_oms ?t"] by auto
      then show ?thesis using t by (simp add: s')
    qed
  qed
qed

lemma gated_bind_pure:
  assumes "gated I P m s" "\<And>x t. P t \<Longrightarrow> always (\<lambda>a b. P a \<longrightarrow> P b) (f x)" "\<And>x. always calm (f x)"
  shows "gated I P (bindS m f) s"
  unfolding gated_def
proof (intro impI allI)
  fix r s' assume i: "lg_intents (rt_ledger s) = I" and run: "bindS m f s = (r, s')"
  obtain v t where m: "m s = (v, t)" by force
  with assms(1) i have t: "lg_intents (rt_ledger t) = I \<or> P t" by (auto simp: gated_def)
  show "lg_intents (rt_ledger s') = I \<or> P s'"
  proof (cases v)
    case (Inr x)
    with m run have "f x t = (r, s')" by (simp add: bindS_run)
    with t show ?thesis using alwaysD [OF assms(3)] alwaysD [OF assms(2)] by (fastforce simp: calm_def)
  qed (use m run t in \<open>simp add: bindS_run\<close>)
qed

lemma calm_observe: "always calm (on_oms (onledger (observe k v)))"
  by (rule calm_ledger) (auto simp: observe_def)

lemma calm_open: "always calm (on_oms (onledger (open_lifecycle active c k i q)))"
  by (rule calm_ledger) (auto simp: open_lifecycle_def bindR_Inr_iff)

lemma commit_entry_gated:
  assumes "\<And>s. calm s (cw_dispatch_gap w s)"
  shows "gated I (entry_gate w add final) (commit_entry w active add final a x identity quantity) s"
proof -
  have pending: "always (\<lambda>s t. entry_gate w add final s \<longrightarrow> entry_gate w add final t)
      (bindS (set_status (\<lambda>t. t\<lparr>rs_state := ''ENTRY_PENDING'', rs_reason := reason\<rparr>)) (\<lambda>_. retS True))" for reason
    by (auto simp: always_def bindS_run intro: entry_gate_pending)
  have unchanged: "inputs_unchanged add final st f obs security identity (cw_later w) t \<Longrightarrow> entry_gate w add final t"
    for st f obs security and t :: "'a engine_scheme"
    unfolding inputs_unchanged_def entry_gate_def by blast
  show ?thesis
    unfolding commit_entry_def Let_def
    by (rule gated_get, rule gated_bind [OF calm.always_lift], rule gated_bind [OF calm_observe], rule gated_bind [OF calm_open],
        rule gated_get, rule gated_bind [OF calm.always_lift], rule gated_bind_pure,
        rule submit_order_gated [OF assms unchanged], assumption, rule pending, intro calm_rules)
qed

lemma gated_option:
  "(x = None \<Longrightarrow> gated I P m s) \<Longrightarrow> (\<And>y. x = Some y \<Longrightarrow> gated I P (f y) s)
   \<Longrightarrow> gated I P (case x of None \<Rightarrow> m | Some y \<Rightarrow> f y) s"
  by (cases x) auto

lemma gated_prod: "(\<And>a b. x = (a, b) \<Longrightarrow> gated I P (f a b) s) \<Longrightarrow> gated I P (case x of (a, b) \<Rightarrow> f a b) s"
  by (cases x) auto

lemma enter_gated:
  assumes "quiet_gaps w dir"
  shows "gated I (\<lambda>s'. entry_gate w add (final_entry s) s' \<and> pending_intents (rt_ledger s) = [] \<and> \<not> sn_unresolved snap
      \<and> clock 15 20 \<le> ist_time (cw_now w)) (enter w dir snap active add) s"
  (is "gated I ?P _ _")
proof -
  have d: "\<And>s. calm s (cw_dispatch_gap w s)" and f: "\<And>s. calm s (cw_funds_gap w s)"
    and c: "\<And>d x q a. dir = Some d \<Longrightarrow> always calm (do_compare d x q a)"
    using assms by (auto simp: quiet_gaps_def)
  have commit: "gated I ?P (commit_entry w active add (final_entry s) a x identity quantity) t"
    if "pending_intents (rt_ledger s) = []" "\<not> sn_unresolved snap" "clock 15 20 \<le> ist_time (cw_now w)" for a x identity quantity t
    using commit_entry_gated [OF d, of I add "final_entry s" active a x identity quantity t] that by (auto simp: gated_def)
  show ?thesis
    unfolding enter_def Let_def
    apply (rule gated_get)
    apply (rule gated_bind)
     apply (intro calm_rules)
    apply (rule gated_if)
     apply (rule gated_calm, intro calm_rules)
    apply (rule gated_bind [OF calm.always_lift])
    apply (rule gated_if)
     apply (rule gated_calm, intro calm_rules)
    apply (rule gated_if)
     apply (rule gated_calm, intro calm_rules)
    apply (rule gated_bind [OF calm.always_lift])
    apply (rule gated_bind [OF calm_modify [OF f]])
    apply (rule gated_get)
    apply (rule gated_bind)
     apply (intro calm_rules)
    apply (rule gated_if)
     apply (rule gated_calm, intro calm_rules)
    apply (rule gated_bind [OF calm_status(1)])
    apply (rule gated_bind [OF calm.always_lift])+
    apply (rule gated_option)
     apply (rule gated_calm, intro calm_rules)
    apply (rule gated_prod)
    apply (rule gated_bind [OF calm_permit])
    apply (rule gated_if)
     apply (rule gated_calm, intro calm_rules)
    apply (rule gated_bind)
     apply (auto split: option.splits intro: c calm_rules)[1]
    apply (rule gated_if)
     apply (rule gated_calm, intro calm_rules)
    apply (rule commit)
      apply (auto simp: entry_window_def split: if_splits)
    done
qed

section \<open>A settled account\<close>

definition position_expired :: "lifecycle_row \<Rightarrow> instant \<Rightarrow> bool" where
  "position_expired c now = (expiry (lc_instrument c) < ist_date now \<or> ist_date now = expiry (lc_instrument c) \<and> clock 15 40 \<le> ist_time now)"

definition settlement_matches :: "'z engine_scheme cycle_world \<Rightarrow> lifecycle_row \<Rightarrow> 'z engine_scheme \<Rightarrow> int \<Rightarrow> bool" where
  "settlement_matches w c s quantity = (\<exists>f rows receipt. final_for c s = Some f \<and> cw_statement w = Some rows
     \<and> match_settlement rows (md_account_id (rt_mandate s)) (lc_instrument c) f quantity = Inr (Some receipt))"

text \<open>Nothing is open at the broker, and the position there is the one the ledger holds, or has been settled.\<close>

definition settled_position :: "'z engine_scheme cycle_world \<Rightarrow> snapshot \<Rightarrow> lifecycle_row \<Rightarrow> 'z engine_scheme \<Rightarrow> bool" where
  "settled_position w snap c s = (\<not> sn_unresolved snap \<and> pending_intents (rt_ledger s) = []
     \<and> (\<exists>t q. lifecycle_totals (lc_id c) (rt_ledger s) = Inr t \<and> \<not> unresolved t
          \<and> held_by_broker (security_id (lc_instrument c)) (sn_positions snap) = Inr q
          \<and> (if position_expired c (cw_now w) \<and> held t \<noteq> 0 then q = 0 \<and> settlement_matches w c s (held t) else q = held t)))"

lemma settle_expired_run:
  assumes "settle_expired w c (lc_instrument c) t s = (r, u)"
  shows "lg_intents (rt_ledger u) = lg_intents (rt_ledger s) \<and> (\<forall>t'. r = Inr t' \<longrightarrow> t' = t \<or> settlement_matches w c s (held t))"
  using assms
  by (auto simp: settle_expired_def bindS_run set_status_def final_for_def settlement_matches_def on_oms_def onledger_run record_settlement_def
      split: option.splits sum.splits prod.splits if_splits)

lemma close_intents: "on_oms (onledger (close_lifecycle c x)) s = (r, u) \<Longrightarrow> lg_intents (rt_ledger u) = lg_intents (rt_ledger s)"
  by (auto simp: on_oms_def onledger_run close_lifecycle_def split: sum.splits prod.splits)

lemma manage_unsettled:
  assumes run: "manage_auction w dir snap c s = (r, s')" and u: "\<not> settled_position w snap c s"
  shows "lg_intents (rt_ledger s') = lg_intents (rt_ledger s) \<and> (\<forall>x. r = Inr x \<longrightarrow> x = Some False)"
proof (cases "lifecycle_totals (lc_id c) (rt_ledger s)")
  case (Inl e)
  with run show ?thesis by (auto simp: manage_auction_def bindS_run Let_def)
next
  case t: (Inr t)
  show ?thesis
  proof (cases "held_by_broker (security_id (lc_instrument c)) (sn_positions snap)")
    case (Inl e)
    with t run show ?thesis by (auto simp: manage_auction_def bindS_run Let_def)
  next
    case q: (Inr q)
    show ?thesis
    proof (cases "sn_unresolved snap \<or> unresolved t \<or> pending_intents (rt_ledger s) \<noteq> []")
      case True
      with t q run show ?thesis by (auto simp: manage_auction_def bindS_run Let_def set_state_def set_status_def)
    next
      case False
      let ?e = "position_expired c (cw_now w)"
      obtain v z where m: "(if q = 0 \<and> held t \<noteq> 0 \<and> ?e then settle_expired w c (lc_instrument c) t else retS t) s = (v, z)" by force
      have same: "lg_intents (rt_ledger z) = lg_intents (rt_ledger s)"
        and mt: "\<And>t'. v = Inr t' \<Longrightarrow> t' = t \<or> q = 0 \<and> held t \<noteq> 0 \<and> ?e \<and> settlement_matches w c s (held t)"
        using m settle_expired_run [of w c t s v z] by (auto split: if_splits)
      from u t q False have cond: "if ?e \<and> held t \<noteq> 0 then \<not> (q = 0 \<and> settlement_matches w c s (held t)) else q \<noteq> held t"
        by (auto simp: settled_position_def)
      from run t q False m same mt cond show ?thesis
        by (cases v) (auto simp: manage_auction_def bindS_run Let_def position_expired_def [symmetric] set_status_def split: if_splits)
    qed
  qed
qed

section \<open>Capital\<close>

text \<open>What a lifecycle earned, what it has committed, and the capital that is left for a new one.\<close>

definition net_profit :: "ledger \<Rightarrow> string \<Rightarrow> decimal" where
  "net_profit l k = (case lifecycle_totals k l of Inr t \<Rightarrow> sale_credit t - entry_debit_total t | Inl e \<Rightarrow> 0)"

definition committed_cash :: "ledger \<Rightarrow> string \<Rightarrow> decimal" where
  "committed_cash l k = (case lifecycle_totals k l of Inr t \<Rightarrow> entry_debit_total t + reserved_total t | Inl e \<Rightarrow> 0)"

definition capital_left :: "mandate \<Rightarrow> ledger \<Rightarrow> decimal" where
  "capital_left m l =
     (let earned = sum_by (\<lambda>c. net_profit l (lc_id c)) (filter (\<lambda>c. lc_state c = ''CLOSED'') (lg_lifecycles l))
      in allocated_capital m + (if reinvest_realized_profit m then earned else min 0 earned) + net_profit l ''route-probe'')"

definition counted_lifecycles :: "mandate \<Rightarrow> string \<Rightarrow> ledger \<Rightarrow> lifecycle_row list" where
  "counted_lifecycles m session l = filter (\<lambda>c. debit_cap_scope m = ''mandate'' \<or> lc_session c = session) (lg_lifecycles l)"

lemma mapR_totals:
  "mapR (\<lambda>c. bindR (lifecycle_totals (lc_id c) l) (\<lambda>t. Inr (g t))) cs = Inr xs
     \<Longrightarrow> (\<forall>c \<in> set cs. ok (lifecycle_totals (lc_id c) l))
       \<and> sum_list xs = sum_by (\<lambda>c. case lifecycle_totals (lc_id c) l of Inr t \<Rightarrow> g t | Inl e \<Rightarrow> (0 :: decimal)) cs"
proof (induction cs arbitrary: xs)
  case (Cons c cs)
  then show ?case by (cases "lifecycle_totals (lc_id c) l") (auto simp: bindR_Inr_iff)
qed simp

lemma closed_pnl_sum:
  assumes "closed_pnl l = Inr pnl"
  shows "pnl = sum_by (\<lambda>c. net_profit l (lc_id c)) (filter (\<lambda>c. lc_state c = ''CLOSED'') (lg_lifecycles l))"
    "\<forall>c \<in> set (filter (\<lambda>c. lc_state c = ''CLOSED'') (lg_lifecycles l)). ok (lifecycle_totals (lc_id c) l)"
  using assms by (auto simp: closed_pnl_def net_profit_def bindR_Inr_iff dest!: mapR_totals)

lemma counted_debit_sum:
  assumes "counted_debit m session l = Inr debit"
  shows "debit = sum_by (\<lambda>c. committed_cash l (lc_id c)) (counted_lifecycles m session l)
    \<and> (\<forall>c \<in> set (counted_lifecycles m session l). ok (lifecycle_totals (lc_id c) l))"
  using assms by (auto simp: counted_debit_def counted_lifecycles_def committed_cash_def bindR_Inr_iff dest!: mapR_totals)

section \<open>Properties\<close>

text \<open>
  C24: Allocation. Whatever the engine's allocation permits costs no more than the broker's spendable
  cash. It keeps the open lifecycle (its entry debit, what is still reserved and the new cash) within the
  ceiling of the bankroll it was opened with. For a new lifecycle it stays within the ceiling of the
  capital the mandate has left: what was allocated, plus the profit of the closed lifecycles, or only
  their loss when profit is not reinvested, less what route probes cost, and never more than the
  spendable cash. And it keeps all counted debits within the mandate's cumulative cap. The totals all
  this rests on were read without an error.
\<close>

theorem allocation_within_mandate:
  assumes "allocate m session l funds active = Inr a" "permits a cash"
  shows "cash \<le> spendable_cash funds
    \<and> (case active of
         Some c \<Rightarrow> ok (lifecycle_totals (lc_id c) l) \<and> committed_cash l (lc_id c) + cash \<le> lifecycle_ceiling (lc_bankroll c)
       | None \<Rightarrow> cash \<le> lifecycle_ceiling (min (capital_left m l) (spendable_cash funds)))
    \<and> (\<forall>c \<in> set (''route-probe'' # map lc_id (filter (\<lambda>c. lc_state c = ''CLOSED'') (lg_lifecycles l))). ok (lifecycle_totals c l))
    \<and> (\<forall>cap. cumulative_entry_debit_cap m = Some cap \<longrightarrow>
         (\<forall>c \<in> set (counted_lifecycles m session l). ok (lifecycle_totals (lc_id c) l))
         \<and> sum_by (\<lambda>c. committed_cash l (lc_id c)) (counted_lifecycles m session l) + cash \<le> cap)"
proof -
  from assms(1) obtain spent held_back pnl probe bank cap where
    spent: "(case active of None \<Rightarrow> Inr (0, 0)
        | Some c \<Rightarrow> bindR (lifecycle_totals (lc_id c) l) (\<lambda>t. Inr (entry_debit_total t, reserved_total t))) = Inr (spent, held_back)"
    and pnl: "closed_pnl l = Inr pnl" and probe: "lifecycle_totals ''route-probe'' l = Inr probe"
    and bank: "bank = (case active of Some c \<Rightarrow> lc_bankroll c | None \<Rightarrow>
        max 0 (min (allocated_capital m + (if reinvest_realized_profit m then pnl else min 0 pnl)
          - (entry_debit_total probe - sale_credit probe)) (spendable_cash funds)))"
    and cap: "(case cumulative_entry_debit_cap m of None \<Rightarrow> Inr None
        | Some cap \<Rightarrow> bindR (counted_debit m session l) (\<lambda>debit. Inr (Some (max 0 (cap - debit))))) = Inr cap"
    and a: "a = allocation_start bank (spendable_cash funds) spent held_back cap"
    by (auto simp: allocate_def bindR_Inr_iff Let_def)
  from assms(2) have p: "0 < cash" "cash \<le> remaining a" "cash \<le> al_spendable a"
    "\<And>k. selected_cap_remaining a = Some k \<Longrightarrow> cash \<le> k" by (auto simp: permits_iff)
  have "cash \<le> spendable_cash funds" using p(1,3) by (auto simp: a allocation_start_def Let_def max_def split: if_splits)
  moreover have within: "spent + held_back + cash \<le> lifecycle_ceiling bank"
    using p(1,2) by (auto simp: a allocation_start_def Let_def max_def split: if_splits)
  moreover have "case active of
       Some c \<Rightarrow> ok (lifecycle_totals (lc_id c) l) \<and> committed_cash l (lc_id c) + cash \<le> lifecycle_ceiling (lc_bankroll c)
     | None \<Rightarrow> cash \<le> lifecycle_ceiling (min (capital_left m l) (spendable_cash funds))"
  proof (cases active)
    case (Some c)
    with spent within bank show ?thesis by (auto simp: bindR_Inr_iff committed_cash_def)
  next
    case None
    have "net_profit l ''route-probe'' = sale_credit probe - entry_debit_total probe" by (simp add: net_profit_def probe)
    with bank None have "bank = max 0 (min (capital_left m l) (spendable_cash funds))"
      by (simp add: capital_left_def closed_pnl_sum(1) [OF pnl, symmetric] Let_def algebra_simps)
    moreover from this None spent within p(1) have "0 < lifecycle_ceiling bank" by auto
    ultimately have "bank = min (capital_left m l) (spendable_cash funds)" by (auto simp: lifecycle_ceiling_def split: if_splits)
    with None spent within show ?thesis by auto
  qed
  moreover have "(\<forall>c \<in> set (counted_lifecycles m session l). ok (lifecycle_totals (lc_id c) l))
      \<and> sum_by (\<lambda>c. committed_cash l (lc_id c)) (counted_lifecycles m session l) + cash \<le> k"
    if k: "cumulative_entry_debit_cap m = Some k" for k
  proof -
    obtain debit where d: "counted_debit m session l = Inr debit" "cap = Some (max 0 (k - debit))"
      using cap k by (auto simp: bindR_Inr_iff)
    with p(1) p(4) have "debit + cash \<le> k" by (auto simp: a allocation_start_def Let_def max_def split: if_splits)
    with counted_debit_sum [OF d(1)] show ?thesis by auto
  qed
  ultimately show ?thesis using probe closed_pnl_sum [OF pnl] by auto
qed

lemma allocation_within_mandate_witness:
  "case allocate demo_mandate ''s'' demo_bought demo_funds None of
     Inr a \<Rightarrow> permits a 7000 \<and> sum_by (\<lambda>c. committed_cash demo_bought (lc_id c)) (counted_lifecycles demo_mandate ''s'' demo_bought) + 7000 \<le> 15000
       \<and> 7000 \<le> lifecycle_ceiling (min (capital_left demo_mandate demo_bought) 18000)
   | Inl e \<Rightarrow> False"
proof -
  have "ok (bindR (allocate demo_mandate ''s'' demo_bought demo_funds None) (\<lambda>a. if permits a 7000 then Inr () else Inl TypeError))"
    by code_simp
  then obtain a where a: "allocate demo_mandate ''s'' demo_bought demo_funds None = Inr a" "permits a 7000"
    by (cases "allocate demo_mandate ''s'' demo_bought demo_funds None") (auto split: if_splits)
  with allocation_within_mandate [OF this] show ?thesis by (simp add: demo_mandate_def demo_funds_def)
qed

text \<open>
  C26: Streaks. However the feeds interleave, a contract's streak is a run of the most recent index
  observations, unbroken up to the latest one, and the contract's current book still lags the latest
  observation by a tick with a whole lot displayed on both sides.
\<close>

theorem streaks_are_unbroken_lags:
  assumes "feed_step\<^sup>*\<^sup>* s s'" "en_streaks s = []" "distinct (map fst (en_books s))"
    and "map_of (en_streaks s') security = Some h"
  shows "h \<noteq> [] \<and> suffix h (en_observations s')
    \<and> (\<exists>b. map_of (en_books s') security = Some b \<and> lagging b (fst (last h)))"
proof -
  have "streaks_ok s" using assms(2,3) by (simp add: streaks_ok_def)
  with assms(1) have "streaks_ok s'" by (induction rule: rtranclp_induct) (auto intro: feed_step_streaks)
  with assms(4) have "h \<noteq> []" "suffix h (en_observations s')" "lags_now (en_books s') (en_observations s') security"
    by (auto simp: streaks_ok_def dest: map_of_SomeD)
  moreover from this have "last h = last (en_observations s')" by (auto simp: suffix_def)
  ultimately show ?thesis by (auto simp: lags_now_def split: option.splits)
qed

lemma streaks_are_unbroken_lags_witness: "suffix [(24150, ''1''), (24160, ''2'')] (en_observations demo_lag)"
proof -
  have "feed_step\<^sup>*\<^sup>* demo_engine demo_lag"
    unfolding demo_lag_def
    by (rule rtranclp.rtrancl_into_rtrancl [OF rtranclp.rtrancl_into_rtrancl [OF rtranclp.rtrancl_refl]];
      rule feed_step.iep, rule surjective_pairing)
  moreover have "map_of (en_streaks demo_lag) ''1'' = Some [(24150, ''1''), (24160, ''2'')]" by code_simp
  ultimately show ?thesis
    using streaks_are_unbroken_lags [of demo_engine demo_lag] by (simp add: demo_engine_def)
qed

text \<open>
  C25: Reconciliation first. In a cycle that finds an auction position open, no order is written, for
  the position or for a new entry, unless the account is settled: the last reconciliation is fresh and
  left nothing unresolved, no order is pending, the position's own orders are terminal, and the broker
  reports exactly the quantity the ledger holds. An expired position, still held by the ledger, allows
  an order only when the broker no longer reports it and its statement holds the settlement that
  matches. The directional engine, if there is one, is arbitrary.
\<close>

theorem unsettled_account_sends_nothing:
  assumes "cycle w dir None s = (r, s')" "rt_reconciled s = Some snap"
    and "active_row (rt_ledger s) = Inr (Some c)" "lc_strategy c = CAS"
    and "lg_intents (rt_ledger s') \<noteq> lg_intents (rt_ledger s)"
  shows "settled_position w snap c s \<and> rt_refresh s \<noteq> Some False"
proof -
  have fresh: "rt_refresh s \<noteq> Some False" using assms(1,5) by (auto simp: cycle_def bindS_run set_status_def)
  obtain v u where m: "manage_auction w dir snap c s = (v, u)" by force
  have run: "(case v of Inl e \<Rightarrow> (Inl e, u) | Inr None \<Rightarrow> flat_entry w dir snap u | Inr (Some b) \<Rightarrow> (Inr b, u)) = (r, s')"
    using assms(1-4) fresh by (auto simp: cycle_def bindS_run get_active_def m split: sum.splits option.splits)
  show ?thesis
  proof (rule ccontr)
    assume "\<not> ?thesis"
    with fresh have "\<not> settled_position w snap c s" by simp
    from manage_unsettled [OF m this] run assms(5) show False by (auto split: sum.splits)
  qed
qed

definition demo_held :: engine where
  "demo_held = demo_engine\<lparr>rt_oms := \<lparr>om_ledger = demo_bought\<lparr>
       lg_intents := update_where (\<lambda>r. True) (with_state ''FILLED'') (lg_intents demo_bought),
       lg_lifecycles := [demo_row\<lparr>lc_id := ''l1''\<rparr>]\<rparr>, om_revision = 0\<rparr>,
     rt_reconciled := Some (demo_snapshot\<lparr>sn_positions := demo_positions\<rparr>)\<rparr>"

text \<open>A position whose book is gone is reduced, and the account was settled when it was.\<close>

theorem unsettled_account_sends_nothing_witness:
  "let s = demo_held\<lparr>en_books := []\<rparr>; snap = demo_snapshot\<lparr>sn_positions := demo_positions\<rparr>
   in map ir_side (lg_intents (rt_ledger (snd (cycle (demo_world\<lparr>cw_sale_positions := Inr demo_positions\<rparr>) None None s)))) = [BUY, SELL]
      \<and> settled_position (demo_world\<lparr>cw_sale_positions := Inr demo_positions\<rparr>) snap (demo_row\<lparr>lc_id := ''l1''\<rparr>) s"
proof -
  let ?s = "demo_held\<lparr>en_books := []\<rparr>" and ?c = "demo_row\<lparr>lc_id := ''l1''\<rparr>" and ?w = "demo_world\<lparr>cw_sale_positions := Inr demo_positions\<rparr>"
  obtain r s' where run: "cycle ?w None None ?s = (r, s')" by force
  have sides: "map ir_side (lg_intents (rt_ledger (snd (cycle ?w None None ?s)))) = [BUY, SELL]" by code_simp
  have old: "map ir_side (lg_intents (rt_ledger ?s)) = [BUY]" by code_simp
  have "lg_intents (rt_ledger s') \<noteq> lg_intents (rt_ledger ?s)"
  proof
    assume "lg_intents (rt_ledger s') = lg_intents (rt_ledger ?s)"
    with sides old run show False by simp
  qed
  moreover have "active_row (rt_ledger ?s) = Inr (Some ?c)" by code_simp
  moreover have "lc_strategy ?c = CAS" by code_simp
  moreover have "rt_reconciled ?s = Some (demo_snapshot\<lparr>sn_positions := demo_positions\<rparr>)" by (simp add: demo_held_def)
  ultimately have "settled_position ?w (demo_snapshot\<lparr>sn_positions := demo_positions\<rparr>) ?c ?s"
    using unsettled_account_sends_nothing [OF run] by blast
  with sides show ?thesis by (simp only: Let_def)
qed

text \<open>
  C23: The entry gate. Whatever the feeds do while the engine waits for the broker, an entry attempt
  writes no order unless, when it is written, the runtime permits entries (standing authority, capital,
  verified software and route, funded account, armed and not durably disarmed, fresh account view), the
  feeds are connected in an entry phase, the session is today's and the entry window is still open; and
  the attempt began with a resolved account and no pending order, not before 15:20.
\<close>

theorem entry_needs_every_gate:
  assumes "enter w dir snap active settlement_add s = (r, s')" "quiet_gaps w dir"
    and "lg_intents (rt_ledger s') \<noteq> lg_intents (rt_ledger s)"
  shows "entry_gate w settlement_add (final_entry s) s' \<and> pending_intents (rt_ledger s) = [] \<and> \<not> sn_unresolved snap
    \<and> clock 15 20 \<le> ist_time (cw_now w)"
  using enter_gated [OF assms(2), of "lg_intents (rt_ledger s)" settlement_add s snap active] assms(1,3)
  by (auto simp: gated_def)

theorem entry_needs_every_gate_witness:
  "let s' = snd (enter demo_world None demo_snapshot None False demo_lag)
   in lg_intents (rt_ledger s') \<noteq> [] \<and> entry_gate demo_world False False s'"
proof -
  obtain r s' where run: "enter demo_world None demo_snapshot None False demo_lag = (r, s')" by force
  have "lg_intents (rt_ledger demo_lag) = []" by code_simp
  moreover have "lg_intents (rt_ledger s') \<noteq> []" using demo_lag_commits run by (simp add: demo_lag_enters)
  moreover have "quiet_gaps demo_world None" by (simp add: quiet_gaps_def demo_world_def calm_def)
  ultimately show ?thesis
    using entry_needs_every_gate [OF run] run by (simp add: demo_lag_feeds(5))
qed

end
