(* ===== verification/ShockProps.thy ===== *)
theory ShockProps
  imports ShockEngine
begin

text \<open>
  What the shock rule guarantees: its exit guard only rises and never forgets a trigger, its
  calibration always ends in a narrow bracket, and the contract it buys is affordable.
\<close>

section \<open>The exit guard\<close>

text \<open>One observation: the executable net profit, the minutes held, invalidation, deadline.\<close>

type_synonym exposure = "decimal option \<times> rat \<times> bool \<times> bool"

definition shock_step :: "decimal \<Rightarrow> exposure \<Rightarrow> shock_guard \<Rightarrow> shock_guard" where
  "shock_step entry x g = (case x of (net, held_minutes, invalid, deadline) \<Rightarrow> shock_exit entry net held_minutes invalid deadline g)"

lemma shock_step_tuple: "shock_step entry (n, h, i, d) g = shock_exit entry n h i d g"
  by (simp add: shock_step_def)

definition standing_floor :: "shock_guard \<Rightarrow> decimal" where
  "standing_floor g = (if sg_armed g then sg_floor g else min 0 (sg_floor g))"

lemma shock_exit_fields:
  "sg_peak (shock_exit e n h i d g) = (case n of Some x \<Rightarrow> max (sg_peak g) x | None \<Rightarrow> sg_peak g)"
  "sg_armed (shock_exit e n h i d g) = (sg_armed g \<or> dmul e (8 / 10) \<le> sg_peak (shock_exit e n h i d g))"
  "sg_floor (shock_exit e n h i d g) = (if sg_armed (shock_exit e n h i d g)
     then max (sg_floor g) (max (dmul (sg_peak (shock_exit e n h i d g)) (4 / 10))
            (dsub (sg_peak (shock_exit e n h i d g)) (dmul e (45 / 100)))) else 0)"
  "sg_reason (shock_exit e n h i d g) = (case sg_reason g of Some r \<Rightarrow> Some r
     | None \<Rightarrow> shock_trigger e n h i (sg_armed (shock_exit e n h i d g)) (sg_floor (shock_exit e n h i d g)) (sg_peak (shock_exit e n h i d g)) d)"
  "sg_low (shock_exit e n h i d g) = (case (n, sg_low g) of (None, l) \<Rightarrow> l | (Some x, None) \<Rightarrow> Some x | (Some x, Some l) \<Rightarrow> Some (min l x))"
  by (cases "sg_reason g"; simp add: shock_exit_def Let_def)+

interpretation shock: ratchet "shock_step entry" sg_peak standing_floor "\<lambda>g. sg_reason g = Some r" for entry r
proof unfold_locales
  fix g :: shock_guard and x :: exposure
  obtain n h i d where x: "x = (n, h, i, d)" by (cases x)
  show "sg_peak g \<le> sg_peak (shock_step entry x g)"
    by (auto simp: x shock_step_tuple shock_exit_fields split: option.splits)
  show "standing_floor g \<le> standing_floor (shock_step entry x g)"
    by (auto simp: x shock_step_tuple shock_exit_fields(2,3) standing_floor_def)
  show "sg_reason g = Some r \<Longrightarrow> sg_reason (shock_step entry x g) = Some r"
    by (simp add: x shock_step_tuple shock_exit_fields(4))
qed

text \<open>What the ledger keeps of a guard is read back unchanged.\<close>

lemma guard_of_details: "guard_of (guard_details g @ rest) = g"
  by (cases g) (auto simp: guard_of_def guard_details_def dget_def dec_of_def opt_dec_def opt_text_def split: option.splits)

lemma shock_floor_kept:
  "sg_armed (fold (shock_step entry) xs g) \<longrightarrow> dmul (sg_peak (fold (shock_step entry) xs g)) (4 / 10) \<le> sg_floor (fold (shock_step entry) xs g)"
  if "\<not> sg_armed g"
proof (induction xs rule: rev_induct)
  case (snoc x xs)
  then show ?case by (cases x) (auto simp: shock_step_tuple shock_exit_fields(3))
qed (use that in simp)

text \<open>The six conditions that ask for an exit, in an observation and the guard it leaves.\<close>

definition must_leave :: "decimal \<Rightarrow> shock_guard \<Rightarrow> exposure \<Rightarrow> bool" where
  "must_leave entry g x = (case x of (net, held_minutes, invalid, deadline) \<Rightarrow>
     invalid \<or> deadline \<or> 120 \<le> held_minutes \<or> 45 \<le> held_minutes \<and> sg_peak g < dmul entry (2 / 10)
     \<or> (case net of Some n \<Rightarrow> n \<le> - dmul entry (4 / 10) \<or> sg_armed g \<and> n < sg_floor g | None \<Rightarrow> False))"

lemma must_leave_triggers:
  "sg_reason (shock_step entry x g) \<noteq> None \<longleftrightarrow> sg_reason g \<noteq> None \<or> must_leave entry (shock_step entry x g) x"
  by (cases x; cases "sg_reason g"; cases "fst x")
    (auto simp: must_leave_def shock_step_tuple shock_exit_def Let_def shock_trigger_def)

text \<open>A trigger is exactly what one of the observations asked for.\<close>

lemma triggered_iff:
  "sg_reason (fold (shock_step entry) xs no_guard) \<noteq> None
     \<longleftrightarrow> (\<exists>us x vs. xs = us @ x # vs \<and> must_leave entry (fold (shock_step entry) (us @ [x]) no_guard) x)"
proof (induction xs rule: rev_induct)
  case Nil
  show ?case by (simp add: no_guard_def)
next
  case (snoc y ys)
  let ?run = "\<lambda>zs. fold (shock_step entry) zs no_guard"
  have "sg_reason (?run (ys @ [y])) \<noteq> None \<longleftrightarrow> sg_reason (?run ys) \<noteq> None \<or> must_leave entry (?run (ys @ [y])) y"
    using must_leave_triggers [of entry y "?run ys"] by simp
  also have "\<dots> \<longleftrightarrow> (\<exists>us x vs. ys @ [y] = us @ x # vs \<and> must_leave entry (?run (us @ [x])) x)"
    unfolding snoc.IH
  proof
    assume "(\<exists>us x vs. ys = us @ x # vs \<and> must_leave entry (?run (us @ [x])) x) \<or> must_leave entry (?run (ys @ [y])) y"
    then show "\<exists>us x vs. ys @ [y] = us @ x # vs \<and> must_leave entry (?run (us @ [x])) x"
    proof
      assume "\<exists>us x vs. ys = us @ x # vs \<and> must_leave entry (?run (us @ [x])) x"
      then obtain us x vs where "ys = us @ x # vs" "must_leave entry (?run (us @ [x])) x" by blast
      then show ?thesis by (intro exI [of _ us] exI [of _ x] exI [of _ "vs @ [y]"]) simp
    qed blast
  next
    assume "\<exists>us x vs. ys @ [y] = us @ x # vs \<and> must_leave entry (?run (us @ [x])) x"
    then obtain us x vs where e: "ys @ [y] = us @ x # vs" "must_leave entry (?run (us @ [x])) x" by blast
    then show "(\<exists>us x vs. ys = us @ x # vs \<and> must_leave entry (?run (us @ [x])) x) \<or> must_leave entry (?run (ys @ [y])) y"
    proof (cases vs rule: rev_cases)
      case (snoc ws z)
      then have "ys = us @ x # ws" using e(1) by simp
      with e(2) show ?thesis by blast
    qed (use e in simp)
  qed
  finally show ?case .
qed

lemma shock_bracket:
  assumes "(Some n, h, i, d) \<in> set xs"
  shows "n \<le> sg_peak (fold (shock_step entry) xs g) \<and> (\<exists>l. sg_low (fold (shock_step entry) xs g) = Some l \<and> l \<le> n)"
  using assms
proof (induction xs rule: rev_induct)
  case (snoc x xs)
  let ?g = "fold (shock_step entry) xs g"
  obtain n' h' i' d' where x: "x = (n', h', i', d')" by (cases x)
  show ?case
  proof (cases "(Some n, h, i, d) \<in> set xs")
    case True
    with snoc.IH obtain l where "n \<le> sg_peak ?g" "sg_low ?g = Some l" "l \<le> n" by blast
    then show ?thesis by (auto simp: x shock_step_tuple shock_exit_fields(1,5) split: option.splits)
  next
    case False
    with snoc.prems have "x = (Some n, h, i, d)" by auto
    then show ?thesis by (auto simp: shock_step_tuple shock_exit_fields(1,5) split: option.splits)
  qed
qed simp

text \<open>
  C39: Along any sequence of observations of a shock position, with the guard kept in the
  ledger and read back between them: the peak and the profit floor never fall, a recorded
  trigger never changes, the peak and the low bound every executable profit seen, and an armed
  floor keeps at least four tenths of the peak. There is a trigger exactly when some
  observation asked for the exit: an invalidated hypothesis, a loss of four tenths of the
  entry, a profit below the armed floor, 45 minutes without a peak of two tenths of the entry,
  two hours, or the deadline.
\<close>

theorem shock_guard_ratchet:
  "guard_of (guard_details (fold (shock_step entry) xs no_guard) @ measured_details e fs now q b) = fold (shock_step entry) xs no_guard
   \<and> sg_peak (fold (shock_step entry) xs no_guard) \<le> sg_peak (fold (shock_step entry) (xs @ ys) no_guard)
   \<and> standing_floor (fold (shock_step entry) xs no_guard) \<le> standing_floor (fold (shock_step entry) (xs @ ys) no_guard)
   \<and> (sg_reason (fold (shock_step entry) xs no_guard) = Some r \<longrightarrow> sg_reason (fold (shock_step entry) (xs @ ys) no_guard) = Some r)
   \<and> (\<forall>n h i d. (Some n, h, i, d) \<in> set xs \<longrightarrow> n \<le> sg_peak (fold (shock_step entry) xs no_guard)
        \<and> (\<exists>l. sg_low (fold (shock_step entry) xs no_guard) = Some l \<and> l \<le> n))
   \<and> (sg_armed (fold (shock_step entry) xs no_guard)
        \<longrightarrow> dmul (sg_peak (fold (shock_step entry) xs no_guard)) (4 / 10) \<le> sg_floor (fold (shock_step entry) xs no_guard))
   \<and> (sg_reason (fold (shock_step entry) xs no_guard) \<noteq> None
        \<longleftrightarrow> (\<exists>us x vs. xs = us @ x # vs \<and> must_leave entry (fold (shock_step entry) (us @ [x]) no_guard) x))"
proof (intro conjI)
  show "sg_reason (fold (shock_step entry) xs no_guard) \<noteq> None
        \<longleftrightarrow> (\<exists>us x vs. xs = us @ x # vs \<and> must_leave entry (fold (shock_step entry) (us @ [x]) no_guard) x)"
    by (rule triggered_iff)
qed (use shock_bracket shock_floor_kept [of no_guard entry xs] in
    \<open>auto simp: guard_of_details shock.run_peak shock.run_floor shock.run_latched no_guard_def\<close>)

text \<open>A profit below the floor, and 45 minutes without momentum.\<close>

theorem shock_guard_ratchet_witness:
  "sg_reason (fold (shock_step 100) ([(Some 90, 1, False, False), (Some 30, 2, False, False)] @ [(Some 200, 3, False, False)]) no_guard)
     = Some ''SHOCK_PROFIT_FLOOR''
   \<and> (\<exists>us x vs. [(Some 5, 50, False, False)] = us @ x # vs \<and> must_leave 100 (fold (shock_step 100) (us @ [x]) no_guard) x)"
proof
  have "sg_reason (fold (shock_step 100) [(Some 90, 1, False, False), (Some 30, 2, False, False)] no_guard) = Some ''SHOCK_PROFIT_FLOOR''"
    by code_simp
  then show "sg_reason (fold (shock_step 100) ([(Some 90, 1, False, False), (Some 30, 2, False, False)] @ [(Some 200, 3, False, False)]) no_guard)
     = Some ''SHOCK_PROFIT_FLOOR''"
    using shock_guard_ratchet [of 100 "[(Some 90, 1, False, False), (Some 30, 2, False, False)]" 0 "[]" 0 0 False
      "[(Some 200, 3, False, False)]" "''SHOCK_PROFIT_FLOOR''"] by blast
  have "sg_reason (fold (shock_step 100) [(Some 5, 50, False, False)] no_guard) = Some ''SHOCK_NO_MOMENTUM''" by code_simp
  then show "\<exists>us x vs. [(Some 5, 50, False, False)] = us @ x # vs \<and> must_leave 100 (fold (shock_step 100) (us @ [x]) no_guard) x"
    using shock_guard_ratchet [of 100 "[(Some 5, 50, False, False)]" 0 "[]" 0 0 False "[]" "[]"] by simp
qed

section \<open>The implied volatility\<close>

lemma ctx28_error_nonneg: "0 \<le> x \<Longrightarrow> \<bar>ctx28 x - x\<bar> \<le> x / (2 * 10 ^ 27)"
  using fround_error [of 10 28 x] by (simp add: ctx28_def)

text \<open>The midpoint of a bracket below 8, up to the two roundings that form it.\<close>

definition midpoint_error :: rat where
  "midpoint_error = 1 / 10 ^ 26"

lemma half_close: "\<bar>a - c\<bar> \<le> x \<Longrightarrow> \<bar>b - a / 2\<bar> \<le> y \<Longrightarrow> \<bar>b - c / 2\<bar> \<le> x / 2 + (y :: rat)"
  by (simp add: abs_le_iff)

lemma midpoint_between:
  "\<bar>m - (a + b) / 2\<bar> \<le> e \<Longrightarrow> 10 * e < b - a \<Longrightarrow> 0 < e \<Longrightarrow> a < m \<and> m < (b :: rat)"
  by (auto simp: abs_le_iff field_simps)

lemma midpoint_halves:
  "\<bar>m - (a + b) / 2\<bar> \<le> e \<Longrightarrow> \<bar>b - a - w\<bar> \<le> 2 * e \<Longrightarrow> \<bar>b - m - w / 2\<bar> \<le> 2 * e \<and> \<bar>m - a - w / 2\<bar> \<le> 2 * (e :: rat)"
  by (auto simp: abs_le_iff field_simps)

lemma midpoint_close:
  assumes "0 \<le> lo" "lo \<le> hi" "hi \<le> 8"
  shows "\<bar>ddiv (dadd lo hi) 2 - (lo + hi) / 2\<bar> \<le> midpoint_error"
proof -
  let ?s = "ctx28 (lo + hi)"
  have e: "\<bar>?s - (lo + hi)\<bar> \<le> 16 / (2 * 10 ^ 27)"
    using ctx28_error_nonneg [of "lo + hi"] assms by (simp add: divide_right_mono)
  have s0: "0 \<le> ?s" using assms by (intro ctx28_nonneg) simp
  from abs_le_D1 [OF e] assms have s: "?s \<le> 17" by simp
  have "\<bar>ctx28 (?s / 2) - ?s / 2\<bar> \<le> ?s / 2 / (2 * 10 ^ 27)" using ctx28_error_nonneg [of "?s / 2"] s0 by simp
  also have "\<dots> \<le> 9 / (2 * 10 ^ 27)" using s by (intro divide_right_mono) simp_all
  finally have f: "\<bar>ctx28 (?s / 2) - ?s / 2\<bar> \<le> 9 / (2 * 10 ^ 27)" .
  have "\<bar>ctx28 (?s / 2) - (lo + hi) / 2\<bar> \<le> 16 / (2 * 10 ^ 27) / 2 + 9 / (2 * 10 ^ 27)"
    by (rule half_close [OF e f])
  also have "\<dots> \<le> midpoint_error" by (simp add: midpoint_error_def)
  finally show ?thesis by (simp add: ddiv_def dadd_def)
qed

text \<open>
  Seventy halvings: the bracket shrinks, keeps a price below the quote at its lower end and
  one at or above it at its upper end, and the rounded midpoints never leave it.
\<close>

lemma bisect_bracket:
  assumes "\<And>v. 0 < v \<Longrightarrow> v \<le> 8 \<Longrightarrow> \<exists>q. f v = Inr q"
    and "0 < lo" "hi \<le> 8" "\<bar>hi - lo - w\<bar> \<le> 2 * midpoint_error" "6 * midpoint_error < w / 2 ^ n"
  shows "\<exists>l h. bisect_volatility f p n lo hi = Inr (l, h) \<and> lo \<le> l \<and> l < h \<and> h \<le> hi \<and> \<bar>h - l - w / 2 ^ n\<bar> \<le> 2 * midpoint_error
    \<and> (l = lo \<or> (\<exists>q. f l = Inr q \<and> q < p)) \<and> (h = hi \<or> (\<exists>q. f h = Inr q \<and> p \<le> q))"
  using assms(2-)
proof (induction n arbitrary: lo hi w)
  case 0
  then have "w - (hi - lo) \<le> 2 * midpoint_error" "6 * midpoint_error < w" "0 < midpoint_error"
    using abs_le_D2 [OF 0(3)] by (simp_all add: midpoint_error_def)
  then have "lo < hi" by linarith
  with 0 show ?case by simp
next
  case (Suc n)
  let ?mid = "ddiv (dadd lo hi) 2"
  have pos: "0 < midpoint_error" by (simp add: midpoint_error_def)
  have w: "6 * midpoint_error < w / 2 / 2 ^ n" using Suc.prems(4) by (simp add: field_simps)
  then have "0 < w / 2 / 2 ^ n" using pos by linarith
  then have "w / 2 / 2 ^ n \<le> w / 2 / 1" by (intro divide_left_mono) (simp_all add: zero_less_divide_iff)
  with w have wide: "10 * midpoint_error < hi - lo" using abs_le_D2 [OF Suc.prems(3)] pos by linarith
  then have m: "\<bar>?mid - (lo + hi) / 2\<bar> \<le> midpoint_error" using Suc.prems pos by (intro midpoint_close) linarith+
  have in_: "lo < ?mid" "?mid < hi" using midpoint_between [OF m wide pos] by simp_all
  obtain v where v: "f ?mid = Inr v" using assms(1) [of ?mid] in_ Suc.prems by fastforce
  have half: "\<bar>hi - ?mid - w / 2\<bar> \<le> 2 * midpoint_error" "\<bar>?mid - lo - w / 2\<bar> \<le> 2 * midpoint_error"
    using midpoint_halves [OF m Suc.prems(3)] by simp_all
  show ?case
  proof (cases "v < p")
    case True
    have "0 < ?mid" using in_ Suc.prems by simp
    from Suc.IH [OF this Suc.prems(2) half(1) w] v True in_ show ?thesis by (auto simp: Let_def)
  next
    case False
    from Suc.IH [OF Suc.prems(1) _ half(2) w] v False in_ Suc.prems(2) show ?thesis by (auto simp: Let_def)
  qed
qed


lemma option_value_total:
  assumes "option_value m spot k years 8 sd = Inr upmost" "0 < v"
  shows "\<exists>q. option_value m spot k years v sd = Inr q"
proof -
  have "0 \<le> dbl v" using assms(2) by (simp add: dbl_def fround_nonneg)
  then show ?thesis using assms(1) by (auto simp: option_value_def Let_def split: if_splits)
qed

text \<open>
  C40: A quote that lies between the intrinsic value and its upper limit, and is worth no more
  than the price at volatility 8, always calibrates: the seventy halvings end with a bracket of
  width at most 1e-20 around the answer, whose lower end prices below the quote (or is the
  smallest volatility searched) and whose upper end prices at or above it.
\<close>

theorem implied_volatility_calibrates:
  assumes "0 < years" "max 0 (if sd = CE then spot - k else k - spot) < price" "price < (if sd = CE then spot else k)"
    and "option_value m spot k years 8 sd = Inr upmost" "price \<le> upmost"
  shows "\<exists>v lo hi. implied_volatility m spot k years price sd = Inr v \<and> 1 / 1000000 \<le> lo \<and> lo < v \<and> v < hi \<and> hi \<le> 8 \<and> hi - lo \<le> 1 / 10 ^ 20
    \<and> (lo = 1 / 1000000 \<or> (\<exists>q. option_value m spot k years lo sd = Inr q \<and> q < price))
    \<and> (\<exists>q. option_value m spot k years hi sd = Inr q \<and> price \<le> q)"
proof -
  let ?f = "\<lambda>v. option_value m spot k years v sd" and ?w = "8 - 1 / 1000000 :: rat"
  have num: "6 * midpoint_error < ?w / 2 ^ 70" "12 * midpoint_error < ?w / 2 ^ 70" "?w / 2 ^ 70 + 2 * midpoint_error \<le> 1 / 10 ^ 20"
    "0 < midpoint_error" by (simp_all add: midpoint_error_def)
  have "\<bar>8 - 1 / 1000000 - ?w\<bar> \<le> 2 * midpoint_error" using num(4) by simp
  from bisect_bracket [where f = ?f and p = price, OF option_value_total [OF assms(4)] _ _ this num(1)]
  obtain lo hi where run: "bisect_volatility ?f price 70 (1 / 1000000) 8 = Inr (lo, hi)"
    and b: "1 / 1000000 \<le> lo" "lo < hi" "hi \<le> 8" "\<bar>hi - lo - ?w / 2 ^ 70\<bar> \<le> 2 * midpoint_error"
      "lo = 1 / 1000000 \<or> (\<exists>q. ?f lo = Inr q \<and> q < price)" "hi = 8 \<or> (\<exists>q. ?f hi = Inr q \<and> price \<le> q)" by auto
  have wide: "10 * midpoint_error < hi - lo" using abs_le_D2 [OF b(4)] num(2) by linarith
  have "\<bar>ddiv (dadd lo hi) 2 - (lo + hi) / 2\<bar> \<le> midpoint_error" using b by (intro midpoint_close) simp_all
  from midpoint_between [OF this wide num(4)] have v: "lo < ddiv (dadd lo hi) 2" "ddiv (dadd lo hi) 2 < hi" by simp_all
  have "implied_volatility m spot k years price sd = Inr (ddiv (dadd lo hi) 2)"
    unfolding implied_volatility_def Let_def using assms run by (cases sd) (simp_all add: not_less del: max_less_iff_conj)
  moreover have "hi - lo \<le> 1 / 10 ^ 20" using abs_le_D1 [OF b(4)] num(3) by linarith
  moreover have "\<exists>q. ?f hi = Inr q \<and> price \<le> q" using b(6) assms(4,5) by auto
  ultimately show ?thesis using b v by blast
qed

definition step_libm :: libm where
  "step_libm = \<lparr>lm_log = (\<lambda>x. 0), lm_sqrt = (\<lambda>x. 1), lm_erf = (\<lambda>x. if 0 < x then 1 else - 1)\<rparr>"

lemma step_option_value: "option_value step_libm 100 90 1 8 CE = Inr 100"
proof -
  have d: "dbl 100 = 100" "dbl 90 = 90" "dbl 1 = 1" "dbl 8 = 8" "dbl 64 = 64" "dbl 32 = 32" "dbl 4 = 4" "dbl (- 4) = - 4" "dbl 0 = 0" "dbl 2 = 2"
    using dbl_of_int [of 100] dbl_of_int [of 90] dbl_of_int [of 1] dbl_of_int [of 8] dbl_of_int [of 64] dbl_of_int [of 32]
      dbl_of_int [of 4] dbl_of_int [of "- 4"] dbl_of_int [of 0] dbl_of_int [of 2] by simp_all
  have r: "fround 10 1 100 = 100" using fround_exact [of 10 1 1 2] by (simp add: pow_int_def)
  have "find (\<lambda>p. dbl (fround 10 p 100) = 100) [1..<17] = Some 1"
    by (subst upt_conv_Cons) (simp_all add: r [unfolded One_nat_def] d)
  then have "repr_decimal 100 = 100" by (simp add: repr_decimal_def r [unfolded One_nat_def])
  moreover have "black_scholes step_libm 100 90 1 8 CE = 100"
    by (simp add: black_scholes_def normal_cdf_def step_libm_def Let_def d)
  ultimately show ?thesis by (simp add: option_value_def Let_def d)
qed

theorem implied_volatility_calibrates_witness:
  "\<exists>v. implied_volatility step_libm 100 90 1 20 CE = Inr v \<and> 1 / 1000000 < v \<and> v < 8"
proof -
  from implied_volatility_calibrates [where price = 20, OF _ _ _ step_option_value]
  obtain v lo hi where "implied_volatility step_libm 100 90 1 20 CE = Inr v" "1 / 1000000 \<le> lo" "lo < v" "v < hi" "hi \<le> 8"
    by auto
  then have "implied_volatility step_libm 100 90 1 20 CE = Inr v \<and> 1 / 1000000 < v \<and> v < 8" by linarith
  then show ?thesis by (rule exI)
qed


section \<open>The choice of a contract\<close>

lemma mapR_member: "mapR f xs = Inr ys \<Longrightarrow> y \<in> set ys \<Longrightarrow> \<exists>x \<in> set xs. f x = Inr y"
  by (induction xs arbitrary: ys) (auto simp: bindR_Inr_iff)

lemma mapR_covers: "mapR f xs = Inr ys \<Longrightarrow> x \<in> set xs \<Longrightarrow> \<exists>y \<in> set ys. f x = Inr y"
  by (induction xs arbitrary: ys) (auto simp: bindR_Inr_iff)

lemma last_fitting_fits: "last_fitting fits q ns' = Inr r \<Longrightarrow> r = q \<or> (r \<in> set ns' \<and> fits r = Inr True)"
  by (induction ns' arbitrary: q) (auto simp: bindR_Inr_iff split: if_splits)

lemma last_fitting_range:
  assumes "last_fitting fits 0 (py_range lot (capacity + 1) lot) = Inr r" "r \<noteq> 0" "0 < lot"
  shows "fits r = Inr True \<and> (\<exists>k \<ge> 1. r = k * lot) \<and> r \<le> capacity \<and> 0 < r"
proof -
  from last_fitting_fits [OF assms(1)] assms(2) have r: "r \<in> set (py_range lot (capacity + 1) lot)" "fits r = Inr True" by auto
  then obtain k where "1 \<le> k" "r = k * lot" "r \<le> capacity" using set_py_range [OF assms(3), of capacity] by auto
  moreover from this have "0 < r" using assms(3) by simp
  ultimately show ?thesis using r(2) by blast
qed

definition affordable_shock :: "decimal \<Rightarrow> instant \<Rightarrow> (string \<times> option_book) list \<Rightarrow> shock_candidate \<Rightarrow> bool" where
  "affordable_shock cash now books c = (let i = kc_instrument c; b = kc_book c; q = kc_quantity c in
     map_of books (security_id i) = Some b \<and> 0 \<le> ns now - bk_received_ns b \<and> ns now - bk_received_ns b \<le> 2000000000
     \<and> 0 < q \<and> (\<exists>k \<ge> 1. q = k * lot_size i) \<and> q \<le> freeze_qty i
     \<and> q \<le> sum_by lv_qty (filter (\<lambda>l. lv_price l \<le> kc_limit c) (asks b))
     \<and> q \<le> sum_by lv_qty (filter (\<lambda>l. bid_price b - 2 * tick_size i \<le> lv_price l) (bids b))
     \<and> ask_price b \<le> kc_limit c \<and> \<not> outside_band i (kc_limit c)
     \<and> worst_case_entry_cash default_fees q (kc_limit c) 1 = Inr (kc_entry c) \<and> kc_entry c + kc_reserve c \<le> cash
     \<and> 18 / 10 \<le> kc_multiple c)"

lemma size_shock_fits:
  assumes "size_shock i b cash limit scenario spread = Inr (Inr c)" "0 < lot_size i"
  shows "kc_instrument c = i \<and> kc_book c = b \<and> kc_limit c = limit \<and> 0 < kc_quantity c \<and> (\<exists>k \<ge> 1. kc_quantity c = k * lot_size i)
    \<and> kc_quantity c \<le> shock_capacity i b limit \<and> worst_case_entry_cash default_fees (kc_quantity c) limit 1 = Inr (kc_entry c)
    \<and> kc_entry c + kc_reserve c \<le> cash \<and> 18 / 10 \<le> kc_multiple c"
proof -
  from assms(1) obtain q where q: "last_fitting (shock_fits cash limit scenario) 0 (py_range (lot_size i) (shock_capacity i b limit + 1) (lot_size i)) = Inr q"
    and "q \<noteq> 0" by (auto simp: size_shock_def bindR_Inr_iff split: if_splits)
  from last_fitting_range [OF q this(2) assms(2)] have r: "shock_fits cash limit scenario q = Inr True"
    "\<exists>k \<ge> 1. q = k * lot_size i" "q \<le> shock_capacity i b limit" "0 < q" by auto
  with assms(1) q show ?thesis
    by (auto simp: size_shock_def shock_fits_def bindR_Inr_iff Let_def split: if_splits)
qed

lemma assess_shock_affordable:
  assumes "assess_shock m signal books cash now opens closes i = Inr (Inr c)" "0 < lot_size i"
    and "\<forall>l b. map_of books (security_id i) = Some b \<longrightarrow> l \<in> set (bids b) \<longrightarrow> 0 \<le> lv_qty l"
  shows "affordable_shock cash now books c \<and> kc_instrument c = i"
proof -
  from assms(1) obtain b scenario spread where b: "map_of books (security_id i) = Some b"
    "0 \<le> ns now - bk_received_ns b" "ns now - bk_received_ns b \<le> 2000000000" "ask_price b \<le> shock_limit i b" "\<not> outside_band i (shock_limit i b)"
    and s: "size_shock i b cash (shock_limit i b) scenario spread = Inr (Inr c)"
    by (auto simp: assess_shock_def Let_def split: option.splits if_splits dval.splits sum.splits)
  have "sum_by lv_qty (filter (\<lambda>l. max (tick_size i) (bid_price b - 2 * tick_size i) \<le> lv_price l) (bids b))
     \<le> sum_by lv_qty (filter (\<lambda>l. bid_price b - 2 * tick_size i \<le> lv_price l) (bids b))"
    using assms(3) b(1) by (intro sum_by_filter_mono) auto
  with size_shock_fits [OF s assms(2)] b show ?thesis
    by (auto simp: affordable_shock_def shock_capacity_def Let_def)
qed


lemma strike_ladder_subset: "set (strike_ladder rungs way spot) \<subseteq> set rungs"
  by (auto simp: strike_ladder_def Let_def split: option.splits dest!: in_set_takeD)

lemma shock_universe_subset: "set (shock_universe instruments sd spot today) \<subseteq> {i \<in> set instruments. today \<le> expiry i \<and> otype i = sd}"
  unfolding shock_universe_def Let_def using strike_ladder_subset by (fastforce dest!: in_set_takeD)

text \<open>
  The shock rule buys only a contract it may buy: one of the known instruments of the
  signal's side that has not expired, with a fresh two-sided book, in whole lots within the
  freeze quantity and the displayed depth on both sides, at a limit inside the band that
  reaches the ask, whose worst-case cash and exit reserve fit the cash and whose scenario
  returns at least 1.8 times the entry; and no other contract it accepted ends with more cash.
\<close>

theorem shock_selection_sound:
  assumes "select_shock m signal instruments books cash now hours = Inr (Some c, checks)"
    and "\<forall>i \<in> set instruments. 0 < lot_size i"
    and "\<forall>(k, b) \<in> set books. \<forall>l \<in> set (bids b). 0 \<le> lv_qty l"
  shows "kc_instrument c \<in> set instruments \<and> ev_side signal = Some (otype (kc_instrument c)) \<and> ist_date now \<le> expiry (kc_instrument c)
    \<and> affordable_shock cash now books c
    \<and> (\<exists>sd spot. ev_side signal = Some sd \<and> ev_spot signal = Some spot
        \<and> (\<forall>j \<in> set (shock_universe instruments sd spot (ist_date now)). \<forall>d.
             assess_shock m signal books cash now (fst hours) (snd hours) j = Inr (Inr d) \<longrightarrow> kc_ending d \<le> kc_ending c))"
proof -
  let ?f = "\<lambda>i. assess_shock m signal books cash now (fst hours) (snd hours) i"
  let ?pick = "\<lambda>(i, x). case x of Inr c \<Rightarrow> Some c | Inl _ \<Rightarrow> None"
  from assms(1) obtain sd spot xs where side: "ev_side signal = Some sd" "ev_spot signal = Some spot"
    and xs: "mapR (\<lambda>i. bindR (?f i) (\<lambda>x. Inr (i, x))) (shock_universe instruments sd spot (ist_date now)) = Inr xs"
    and c: "py_max_by shock_preference (List.map_filter ?pick xs) = Some c"
    by (auto simp: select_shock_def Let_def bindR_Inr_iff split: option.splits if_splits)
  have "c \<in> set (List.map_filter ?pick xs)" using c by (rule py_max_by_in)
  then obtain i where "(i, Inr c) \<in> set xs" by (auto simp: map_filter_def split: sum.splits)
  with mapR_member [OF xs this] have i: "i \<in> set (shock_universe instruments sd spot (ist_date now))" "?f i = Inr (Inr c)"
    by (auto simp: bindR_Inr_iff)
  then have known: "i \<in> set instruments" "ist_date now \<le> expiry i" "otype i = sd" using shock_universe_subset [of instruments sd spot "ist_date now"] by auto
  have "\<forall>l b. map_of books (security_id i) = Some b \<longrightarrow> l \<in> set (bids b) \<longrightarrow> 0 \<le> lv_qty l"
    using assms(3) by (auto dest!: map_of_SomeD)
  with assess_shock_affordable [OF i(2)] known(1) assms(2) have a: "affordable_shock cash now books c" "kc_instrument c = i" by auto
  have "kc_ending d \<le> kc_ending c" if "j \<in> set (shock_universe instruments sd spot (ist_date now))" "?f j = Inr (Inr d)" for j d
  proof -
    from mapR_covers [OF xs that(1)] that(2) have "(j, Inr d) \<in> set xs" by (auto simp: bindR_Inr_iff)
    then have "d \<in> set (List.map_filter ?pick xs)" by (force simp: map_filter_def)
    from py_max_by_ge [OF c this] show ?thesis by (auto simp: shock_preference_def less_eq_prod_def intro: less_imp_le)
  qed
  with side known a show ?thesis by blast
qed

end
