(* ===== verification/DirectionalProps.thy ===== *)
theory DirectionalProps
  imports ShockProps EngineProps Directional
begin

text \<open>
  What the directional engine guarantees: which conditions hold when an entry is written and
  when a position is reduced, and what the contract of a minute signal costs.
\<close>

section \<open>Handlers that write no order and lose no note\<close>

definition mild :: "'z engine_scheme \<Rightarrow> 'z engine_scheme \<Rightarrow> bool" where
  "mild s t = (calm s t \<and> (\<forall>k. metadata k (rt_ledger s) \<noteq> None \<longrightarrow> metadata k (rt_ledger t) \<noteq> None))"

interpretation mild: step_closed mild
  by unfold_locales (auto simp: mild_def calm_def)

lemma mild_calm: "always mild m \<Longrightarrow> always calm m"
  by (auto simp: always_def mild_def)

lemma mild_modify: "(\<And>s. rt_oms (f s) = rt_oms s) \<Longrightarrow> always mild (modifyS f)"
  by (simp add: always_def mild_def calm_def)

lemma mild_status: "always mild (set_status f)" "always mild (set_state st)" "always mild (set_reason rs)"
  by (simp_all add: always_def mild_def calm_def)

lemma mild_permit: "always mild (permit_entry add strategy)"
  by (auto simp: always_def mild_def calm_def permit_entry_def)

lemma mild_active: "always mild get_active"
  by (auto simp: always_def mild_def calm_def get_active_def bindS_run)

lemma mild_ledger:
  assumes "\<And>l x l'. f l = Inr (x, l') \<Longrightarrow> lg_intents l' = lg_intents l \<and> (\<forall>k. metadata k l \<noteq> None \<longrightarrow> metadata k l' \<noteq> None)"
  shows "always mild (on_oms (onledger f))"
  using assms
  by (fastforce simp: always_def mild_def calm_def on_oms_def onledger_def transactionS_run bindR_def split: sum.splits prod.splits)

lemma row_with_put: "row_with fst k (upsert_row fst (\<lambda>old r. r) (k', v) rows) = (if k = k' then Some (k', v) else row_with fst k rows)"
proof -
  have upd: "row_with fst k (update_where (\<lambda>x. fst x = k') (\<lambda>old. (k', v)) rows)
      = map_option (\<lambda>x. if fst x = k' then (k', v) else x) (row_with fst k rows)"
    by (rule row_with_update_where) simp
  then show ?thesis
    by (cases "k = k'"; cases "row_with fst k rows") (auto simp: upsert_row_def row_with_append dest: row_with_SomeD)
qed

lemma metadata_upserted: "metadata k (l\<lparr>lg_metadata := upsert_row fst (\<lambda>old r. r) (k', v) (lg_metadata l)\<rparr>)
    = (if k = k' then Some v else metadata k l)"
  by (simp add: metadata_def row_with_put)

lemma mild_put_meta: "always mild (put_meta k v)" and mild_put_note: "always mild (put_note k d rows)"
  unfolding put_note_def put_meta_def by (rule mild_ledger; auto simp: put_metadata_def metadata_upserted)+

lemma mild_observe: "always mild (on_oms (onledger (observe k v)))" "always mild (on_oms (onledger (observe_batch items)))"
  by (rule mild_ledger; auto simp: observe_def observe_batch_def metadata_def)+

lemma mild_set_dr: "always mild (set_dr_reason r)" "always mild (set_sk_reason r)"
  unfolding set_dr_reason_def set_sk_reason_def by (rule mild_modify; simp)+

lemmas mild_rules = mild.always_rules mild_status mild_permit mild_active mild_put_meta mild_put_note mild_observe mild_set_dr

text \<open>Case distinctions of handlers.\<close>

lemma mild_option: "(x = None \<Longrightarrow> always R m) \<Longrightarrow> (\<And>y. x = Some y \<Longrightarrow> always R (f y)) \<Longrightarrow> always R (case x of None \<Rightarrow> m | Some y \<Rightarrow> f y)"
  by (cases x) auto

lemma mild_prod: "(\<And>a b. always R (f a b)) \<Longrightarrow> always R (case x of (a, b) \<Rightarrow> f a b)"
  by (cases x) auto

lemma mild_sum: "(\<And>a. always R (f a)) \<Longrightarrow> (\<And>b. always R (g b)) \<Longrightarrow> always R (case x of Inl a \<Rightarrow> f a | Inr b \<Rightarrow> g b)"
  by (cases x) auto

lemma mild_list: "(x = [] \<Longrightarrow> always R m) \<Longrightarrow> (\<And>y ys. always R (f y ys)) \<Longrightarrow> always R (case x of [] \<Rightarrow> m | y # ys \<Rightarrow> f y ys)"
  by (cases x) auto

lemmas mild_cases = mild_option mild_prod mild_sum mild_list

lemma mild_record: "always mild (record_assessment now x reason checks)"
  unfolding record_assessment_def Let_def by (intro mild_rules mild_cases)

lemma mild_ranking: "always mild (refresh_ranking col now)"
  unfolding refresh_ranking_def by (intro mild_rules mild_modify) simp_all

lemma mild_refresh: "always mild (seconds_refresh w now budget force)"
  unfolding seconds_refresh_def observe_evaluations_def Let_def by (intro mild_rules mild_cases mild_modify) simp_all

lemma mild_signals: "always mild (seconds_signals w now)"
  unfolding seconds_signals_def discovery_budget_def Let_def
  by (intro mild_rules mild_cases mild_modify mild_refresh) (auto intro!: mild_rules mild_cases mild_modify split: option.splits bool.splits)

lemma mild_consume: "always mild (consume x d)" "always mild (consumed x)"
  unfolding consume_def consumed_def by (intro mild_rules mild_cases)+

lemma mild_candidate: "always mild (directional_candidate w now x a)"
  unfolding directional_candidate_def seconds_candidate_def minute_candidate_def Let_def
  by (intro mild_rules mild_cases mild_refresh mild_modify) (auto intro!: mild_rules mild_cases mild_modify split: option.splits prod.splits)

lemma mild_seconds_valid: "always mild (seconds_valid w now x)"
  unfolding seconds_valid_def by (intro mild_rules mild_cases mild_refresh)

lemma mild_still_current: "always mild (still_current w x i b)"
  unfolding still_current_def Let_def by (intro mild_rules mild_cases mild_seconds_valid)

lemma mild_weigh:
  assumes "\<And>s. mild s (cw_funds_gap w s)"
  shows "always mild (weigh_signal w x acc)"
proof -
  have gap: "always mild (modifyS (cw_funds_gap w))" using assms by (simp add: always_def)
  have cand: "always mild (weigh_candidate w x a choices)" for a choices
    unfolding weigh_candidate_def by (intro mild_rules mild_cases mild_candidate mild_record)
  have missed: "always mild (miss_deadline x)"
    unfolding miss_deadline_def Let_def by (intro mild_rules mild_cases)
  have fund: "always mild (fund_choice w x)"
    unfolding fund_choice_def by (intro mild_rules mild_cases gap)
  show ?thesis
    unfolding weigh_signal_def Let_def by (intro mild_rules mild_cases mild_record mild_consume cand missed fund)
qed

lemma mild_weigh_all: "(\<And>s. mild s (cw_funds_gap w s)) \<Longrightarrow> always mild (weigh_all w xs acc)"
  by (induction xs arbitrary: acc) (auto intro!: mild_rules mild_option mild_weigh)


section \<open>The last check before an order leaves\<close>

text \<open>The part of the state the entry gate and the exchange session are read from.\<close>

definition same_gate :: "'z directional_scheme \<Rightarrow> 'z directional_scheme \<Rightarrow> bool" where
  "same_gate s t = (rt_status t = rt_status s \<and> rt_enabled t = rt_enabled s \<and> rt_refresh t = rt_refresh s \<and> rt_mandate t = rt_mandate s
     \<and> lg_metadata (rt_ledger t) = lg_metadata (rt_ledger s) \<and> lg_lifecycles (rt_ledger t) = lg_lifecycles (rt_ledger s)
     \<and> dr_inputs t = dr_inputs s)"

interpretation gate: step_closed same_gate
  by unfold_locales (auto simp: same_gate_def)

lemma gate_permit: "always same_gate (permit_entry add strategy)"
  by (auto simp: always_def same_gate_def permit_entry_def)

lemma gate_observe: "always same_gate (on_oms (onledger (observe_batch items)))"
  by (auto simp: always_def same_gate_def on_oms_def onledger_def transactionS_run observe_batch_def)

lemma gate_modify: "(\<And>s. same_gate s (f s)) \<Longrightarrow> always same_gate (modifyS f)"
  by (simp add: always_def)

lemma gate_refresh: "always same_gate (seconds_refresh w now budget force)"
  unfolding seconds_refresh_def observe_evaluations_def Let_def
  by (intro gate.always_rules mild_cases gate_modify gate_observe) (simp_all add: same_gate_def)

lemma gate_seconds_valid: "always same_gate (seconds_valid w now x)"
  unfolding seconds_valid_def by (intro gate.always_rules gate_refresh)

lemma gate_still_current: "always same_gate (still_current w x i b)" "always same_gate (shock_still_current w x c budget)"
  unfolding still_current_def shock_still_current_def Let_def
  by (intro gate.always_rules mild_cases gate_permit gate_seconds_valid)+

lemma gate_permitted: "same_gate s t \<Longrightarrow> entry_permitted add strategy t = entry_permitted add strategy s"
  by (simp add: same_gate_def entry_permitted_def metadata_flag_def metadata_def)

lemma gate_open: "same_gate s t \<Longrightarrow> calendar_of t = calendar_of s"
  by (simp add: same_gate_def calendar_of_def)

definition session_open :: "instant \<Rightarrow> 'z directional_scheme \<Rightarrow> bool" where
  "session_open now s = (case calendar_of s of None \<Rightarrow> False | Some c \<Rightarrow> is_open c now)"

definition in_entry_window :: "instant \<Rightarrow> evaluation \<Rightarrow> bool" where
  "in_entry_window now x = (due_of x \<le> now \<and> now < due_of x + window_of x
     \<or> ev_strategy x = SHOCK \<and> 0 \<le> now - ev_at x \<and> now - ev_at x \<le> seconds 30)"

definition entry_check :: "instant \<Rightarrow> evaluation \<Rightarrow> 'z directional_scheme \<Rightarrow> bool" where
  "entry_check now x s = (entry_permitted False (ev_strategy x) s \<and> session_open now s \<and> in_entry_window now x)"

lemma entry_check_same: "same_gate s t \<Longrightarrow> entry_check now x s \<Longrightarrow> entry_check now x t"
  by (simp add: entry_check_def gate_permitted session_open_def gate_open)

lemma seconds_valid_open: "seconds_valid w now x s = (Inr True, t) \<Longrightarrow> session_open now s"
  by (auto simp: seconds_valid_def bindS_run seconds_ready_def session_open_def split: if_splits)

lemma input_ready_open: "input_ready now s \<Longrightarrow> session_open now s"
  by (auto simp: input_ready_def session_open_def calendar_of_def split: option.splits)

lemma still_current_check:
  assumes "still_current w x i b s = (Inr True, t)"
  shows "entry_check (cw_later w) x t"
proof -
  let ?s = "snd (permit_entry False (ev_strategy x) s)"
  have s: "same_gate s ?s" by (rule alwaysD [OF gate_permit, where r = "fst (permit_entry False (ev_strategy x) s)"]) simp
  have perm: "entry_permitted False (ev_strategy x) s"
    using assms(1) by (auto simp: still_current_def bindS_run permit_entry_def Let_def split: if_splits)
  show ?thesis
  proof (cases "is_micro x")
    case True
    then obtain u where v: "seconds_valid (directional_world.truncate w) (cw_later w) x ?s = (Inr True, u)" and t: "t = u"
      and "due_of x \<le> cw_later w" "cw_later w < due_of x + window_of x"
      using assms(1) perm by (auto simp: still_current_def bindS_run permit_entry_def Let_def split: if_splits prod.splits sum.splits)
    moreover have "same_gate ?s t" using alwaysD [OF gate_seconds_valid v] t by simp
    ultimately show ?thesis
      using gate.trans [OF s] perm seconds_valid_open [OF v]
      by (auto simp: entry_check_def in_entry_window_def gate_permitted [of s] session_open_def gate_open [of ?s])
  next
    case False
    with assms(1) perm have "input_ready (cw_later w) ?s" "t = ?s" "due_of x \<le> cw_later w" "cw_later w < due_of x + window_of x"
      by (auto simp: still_current_def bindS_run permit_entry_def Let_def split: if_splits)
    with s perm show ?thesis
      by (auto simp: entry_check_def in_entry_window_def gate_permitted [of s] dest: input_ready_open)
  qed
qed

lemma shock_still_check:
  assumes "shock_still_current w x c budget s = (Inr True, t)" "ev_strategy x = SHOCK"
  shows "entry_check (cw_later w) x t"
proof -
  from assms(1) have perm: "entry_permitted False SHOCK s" and t: "t = snd (permit_entry False SHOCK s)"
    and "shock_valid (cw_later w) x t = Inr True"
    by (auto simp: shock_still_current_def bindS_run permit_entry_def split: if_splits sum.splits)
  then have "session_open (cw_later w) t" "in_entry_window (cw_later w) x" using assms(2)
    by (auto simp: shock_valid_def session_open_def calendar_of_def in_entry_window_def split: option.splits if_splits)
  moreover have "same_gate s t" unfolding t by (rule alwaysD [OF gate_permit, where r = "fst (permit_entry False SHOCK s)"]) simp
  ultimately show ?thesis using perm assms(2) by (simp add: entry_check_def gate_permitted)
qed


section \<open>Entries consume their signal\<close>

text \<open>
  The state after an entry. A buy was added for a lifecycle that is open now and records the
  signal it acts on: its strategy, its time, its side, its exit and its details. The marks of
  that signal and of its family did not exist before and exist now, and the gate held for it
  when the order was written.
\<close>

definition records :: "lifecycle_row \<Rightarrow> evaluation \<Rightarrow> bool" where
  "records row x = (lc_strategy row = ev_strategy x \<and> lc_signal_at row = Some (ev_at x) \<and> lc_side row = ev_side x
     \<and> lc_exit_at row = ev_exit_at x \<and> lc_details row = ev_details x)"

definition buys_for :: "intent \<Rightarrow> lifecycle_row \<Rightarrow> bool" where
  "buys_for n row = (in_side n = BUY \<and> in_lifecycle_id n = lc_id row \<and> in_instrument n = lc_instrument row)"

definition entry_made :: "instant \<Rightarrow> 'z directional_scheme \<Rightarrow> 'z directional_scheme \<Rightarrow> bool" where
  "entry_made later s t = (\<exists>x row n reserved st key family.
     lg_intents (rt_ledger t) = lg_intents (rt_ledger s) @ [new_row n reserved st] \<and> buys_for n row
     \<and> row \<in> set (lg_lifecycles (rt_ledger t)) \<and> records row x \<and> signal_key x = Inr key \<and> family_key x = Inr family
     \<and> metadata (key @ '':consumed'') (rt_ledger s) = None \<and> metadata family (rt_ledger s) = None
     \<and> metadata (key @ '':consumed'') (rt_ledger t) \<noteq> None \<and> metadata family (rt_ledger t) \<noteq> None
     \<and> entry_check later x t)"

lemma open_directional_marks:
  assumes "on_oms (onledger (open_directional row key family)) s = (Inr u, t)"
  shows "calm s t \<and> metadata key (rt_ledger s) = None \<and> metadata family (rt_ledger s) = None
    \<and> metadata key (rt_ledger t) \<noteq> None \<and> metadata family (rt_ledger t) \<noteq> None \<and> row \<in> set (lg_lifecycles (rt_ledger t))"
  using assms
  by (auto simp: on_oms_def onledger_def transactionS_run open_directional_def new_note_def bindR_Inr_iff insert_row_def
      metadata_def calm_def row_with_append split: prod.splits sum.splits if_splits option.splits)

text \<open>The marks and the row are still there after the decision was noted.\<close>

definition marked :: "string \<Rightarrow> string \<Rightarrow> lifecycle_row \<Rightarrow> 'z directional_scheme \<Rightarrow> bool" where
  "marked key family row s = (metadata key (rt_ledger s) \<noteq> None \<and> metadata family (rt_ledger s) \<noteq> None \<and> row \<in> set (lg_lifecycles (rt_ledger s)))"

lemma marked_observed:
  assumes "on_oms (onledger (open_directional row key family)) s = (Inr u, t)" "on_oms (onledger (observe k v)) t = (Inr u', t')"
  shows "marked key family row t'"
  using open_directional_marks [OF assms(1)] assms(2)
  by (auto simp: marked_def on_oms_def onledger_def transactionS_run observe_def metadata_def split: prod.splits sum.splits)

lemma mild_open: "always mild (on_oms (onledger (open_directional row key family)))"
  by (rule mild_ledger)
    (auto simp: open_directional_def new_note_def bindR_Inr_iff insert_row_def metadata_def row_with_append split: if_splits option.splits)

text \<open>The gate and the marks survive what follows the check.\<close>

definition check_and_marks :: "instant \<Rightarrow> evaluation \<Rightarrow> string \<Rightarrow> string \<Rightarrow> lifecycle_row \<Rightarrow> intent_row list \<Rightarrow> 'z directional_scheme \<Rightarrow> bool" where
  "check_and_marks later x key family row rows t = (entry_check later x t \<and> marked key family row t \<and> lg_intents (rt_ledger t) = rows)"

lemma gate_metadata: "same_gate s t \<Longrightarrow> metadata k (rt_ledger t) = metadata k (rt_ledger s)"
  by (simp add: same_gate_def metadata_def)

lemma marked_same: "same_gate s t \<Longrightarrow> marked key family row t = marked key family row s"
  by (simp add: marked_def gate_metadata) (simp add: same_gate_def)

lemma check_and_marks_pending:
  "check_and_marks later x key family row rows s \<Longrightarrow>
   check_and_marks later x key family row rows (s\<lparr>rt_status := (rt_status s)\<lparr>rs_state := ''ENTRY_PENDING'', rs_reason := r\<rparr>\<rparr>)"
  by (auto simp: check_and_marks_def marked_def entry_check_def session_open_def calendar_of_def entry_permitted_def Let_def split: if_splits)

lemma check_and_marks_reason: "check_and_marks later x key family row rows s \<Longrightarrow> check_and_marks later x key family row rows (s\<lparr>dr_reason := r\<rparr>)"
  by (simp add: check_and_marks_def marked_def entry_check_def session_open_def calendar_of_def entry_permitted_def Let_def)

lemma entry_tail:
  "always (\<lambda>s t. check_and_marks later x key family row rows s \<longrightarrow> check_and_marks later x key family row rows t)
     (bindS (set_dr_reason r) (\<lambda>_. bindS (set_status (\<lambda>t. t\<lparr>rs_state := ''ENTRY_PENDING'', rs_reason := r'\<rparr>)) (\<lambda>_. retS True)))"
  using check_and_marks_pending [OF check_and_marks_reason, of later x key family row rows _ r' r]
  by (auto simp: always_def bindS_run set_dr_reason_def)

lemma shock_entry_tail:
  "always (\<lambda>s t. check_and_marks later x key family row rows s \<longrightarrow> check_and_marks later x key family row rows t)
     (bindS (set_status (\<lambda>t. t\<lparr>rs_state := ''ENTRY_PENDING'', rs_reason := r'\<rparr>)) (\<lambda>_. retS True))"
  using check_and_marks_pending [of later x key family row rows _ r']
  by (auto simp: always_def bindS_run)

definition mild_gaps :: "'z directional_scheme shock_world \<Rightarrow> bool" where
  "mild_gaps w = (\<forall>s. mild s (cw_funds_gap w s) \<and> mild s (cw_dispatch_gap w s)
     \<and> set (lg_lifecycles (rt_ledger s)) \<subseteq> set (lg_lifecycles (rt_ledger (cw_dispatch_gap w s))))"

text \<open>Either no order is written, or this one, with its marks, its row and the gate that was asked last.\<close>

definition written :: "instant \<Rightarrow> evaluation \<Rightarrow> string \<Rightarrow> string \<Rightarrow> lifecycle_row \<Rightarrow> intent_row list \<Rightarrow> intent \<Rightarrow> decimal \<Rightarrow> 'z directional_scheme \<Rightarrow> bool" where
  "written later x key family row I n reserved t = (\<exists>st. check_and_marks later x key family row (I @ [new_row n reserved st]) t)"

lemma submit_when_gated:
  assumes gaps: "mild_gaps w" and check: "always mild check" "always same_gate check"
    and true: "\<And>s t. check s = (Inr True, t) \<Longrightarrow> entry_check later x t"
    and marks: "marked key family row s"
  shows "gated I (written later x key family row I n reserved) (submit_when w n reserved check) s"
  unfolding gated_def
proof (intro impI allI)
  fix r s' assume i: "lg_intents (rt_ledger s) = I" and run: "submit_when w n reserved check s = (r, s')"
  let ?t = "cw_dispatch_gap w s"
  obtain v t where c: "check ?t = (v, t)" by force
  have gap: "mild s ?t" "set (lg_lifecycles (rt_ledger s)) \<subseteq> set (lg_lifecycles (rt_ledger ?t))"
    using gaps by (auto simp: mild_gaps_def)
  have m: "mild s t" using gap(1) alwaysD [OF check(1) c] by (rule mild.trans)
  then have t: "lg_intents (rt_ledger t) = I" using i by (simp add: mild_def calm_def)
  have "marked key family row ?t" using marks gap by (auto simp: marked_def mild_def)
  then have mt: "marked key family row t" using marked_same [OF alwaysD [OF check(2) c]] by simp
  show "lg_intents (rt_ledger s') = I \<or> written later x key family row I n reserved s'"
  proof (cases v)
    case (Inl e)
    with run c t show ?thesis by (simp add: submit_when_def bindS_run)
  next
    case (Inr ready)
    let ?m = "submit (md_account_id (rt_mandate t)) (cw_now w) (cw_timestamp w) (cw_attempt w) n reserved ready (cw_sale_positions w) (cw_reply w)"
    obtain v' u where sub: "?m (rt_oms t) = (v', u)" by force
    from run c Inr sub have s': "s' = t\<lparr>rt_oms := u\<rparr>"
      by (auto simp: submit_when_def bindS_run on_oms_def split: sum.splits)
    show ?thesis
    proof (cases ready)
      case True
      have same: "same_gate t s'" using alwaysD [OF tables_submit sub] by (simp add: s' same_gate_def same_tables_def)
      have "entry_check later x s'" using entry_check_same [OF same] true [of ?t t] c Inr True by simp
      moreover have "marked key family row s'" using marked_same [OF same] mt by simp
      ultimately show ?thesis
        using submit_adds_own [OF sub] t by (auto simp: written_def check_and_marks_def with_own_def s')
    next
      case False
      with sub have "u = rt_oms t"
        using submit_not_ready [of "md_account_id (rt_mandate t)" "cw_now w" "cw_timestamp w" "cw_attempt w" n reserved
            "cw_sale_positions w" "cw_reply w" "rt_oms t"] by auto
      then show ?thesis using t by (simp add: s')
    qed
  qed
qed

lemma written_tail:
  "(\<And>rows. always (\<lambda>s t. check_and_marks later x key family row rows s \<longrightarrow> check_and_marks later x key family row rows t) m)
     \<Longrightarrow> always (\<lambda>s t. written later x key family row I n reserved s \<longrightarrow> written later x key family row I n reserved t) m"
  unfolding always_def written_def by blast

text \<open>From the insertion of the marks to the answer, for both kinds of commitment.\<close>

lemma gated_weaken: "gated I Q m s \<Longrightarrow> (\<And>t. Q t \<Longrightarrow> P t) \<Longrightarrow> gated I P m s"
  by (auto simp: gated_def)

lemma entry_made_marks:
  assumes "mild s0 s" "on_oms (onledger (open_directional row (key @ '':consumed'') family)) s = (Inr u, t)"
    and "signal_key x = Inr key" "family_key x = Inr family" "records row x" "buys_for n row"
    and "written later x (key @ '':consumed'') family row (lg_intents (rt_ledger s0)) n reserved t'"
  shows "entry_made later s0 t'"
proof -
  from open_directional_marks [OF assms(2)] assms(1)
  have "metadata (key @ '':consumed'') (rt_ledger s0) = None" "metadata family (rt_ledger s0) = None"
    by (auto simp: mild_def)
  with assms(3-7) show ?thesis unfolding entry_made_def written_def check_and_marks_def marked_def by blast
qed

lemma checked_intent: "liftS (check_intent n) s = (Inr m, t) \<Longrightarrow> m = n \<and> t = s"
  by (auto simp: check_intent_def split: if_splits)

lemma commit_directional_gated:
  assumes "mild_gaps w" "mild s0 s"
  shows "gated (lg_intents (rt_ledger s0)) (entry_made (cw_later w) s0) (commit_directional w a x c) s"
proof -
  obtain i q limit b where c: "c = (i, q, limit, b)" by (cases c)
  show ?thesis
    unfolding commit_directional_def c prod.case Let_def
    apply (rule gated_get, rule gated_bind [OF calm.always_lift], rule gated_bind [OF calm.always_lift], rule gated_bind [OF calm.always_lift],
        rule gated_bind [OF mild_calm [OF mild_open]], rule gated_bind [OF calm_observe], rule gated_bind [OF calm.always_lift])
    apply (drule checked_intent)
    apply (rule gated_weaken, rule gated_bind_pure)
       apply (rule submit_when_gated [OF assms(1) mild_still_current gate_still_current(1)])
        apply (erule still_current_check)
       apply (elim conjE, simp, erule (1) marked_observed)
      apply (rule written_tail [OF entry_tail])
     apply (intro mild_calm mild_rules)
    apply (rule entry_made_marks [OF assms(2)])
          apply (auto simp: records_def buys_for_def)
    done
qed

lemma commit_shock_gated:
  assumes "mild_gaps w" "mild s0 s" "ev_strategy x = SHOCK"
  shows "gated (lg_intents (rt_ledger s0)) (entry_made (cw_later w) s0) (commit_shock w x c a budget) s"
  unfolding commit_shock_def Let_def
  apply (rule gated_get, rule gated_bind, rule mild_calm, rule mild_modify, simp, rule gated_bind, intro mild_calm mild_put_note,
      rule gated_bind [OF calm.always_lift], rule gated_bind [OF calm.always_lift], rule gated_bind [OF calm.always_lift],
      rule gated_bind [OF mild_calm [OF mild_open]], rule gated_bind [OF calm_observe])
  apply (drule checked_intent)
  apply (rule gated_weaken, rule gated_bind_pure)
     apply (rule submit_when_gated [OF assms(1) _ gate_still_current(2)])
       apply (unfold shock_still_current_def, intro mild_rules)[1]
      apply (erule shock_still_check [OF _ assms(3)])
     apply (elim conjE, simp, erule (1) marked_observed)
    apply (rule written_tail [OF shock_entry_tail])
   apply (intro mild_calm mild_rules)
  subgoal for u0 t0 u1 t1 n t key t' family t'' u v u' v' s''
    apply (rule entry_made_marks [where s = t''])
    subgoal using alwaysD [OF mild_put_note] assms(2) by (force simp: mild_def calm_def)
         apply (auto simp: records_def buys_for_def assms(3))
    done
  done

definition settled_start :: "snapshot \<Rightarrow> 'z engine_scheme \<Rightarrow> bool" where
  "settled_start snap s = (pending_intents (rt_ledger s) = [] \<and> \<not> sn_unresolved snap \<and> active_row (rt_ledger s) = Inr None
     \<and> foreign_position None (sn_positions snap) = Inr False)"

lemma mild_prefix: "always mild m \<Longrightarrow> mild s0 s \<Longrightarrow> m s = (Inr x, t) \<Longrightarrow> mild s0 t"
  by (meson alwaysD mild.trans)

text \<open>A gated continuation after a handler that writes no order and loses no note.\<close>

lemma gated_after:
  assumes "mild s0 s" "always mild m" "\<And>x t. m s = (Inr x, t) \<Longrightarrow> mild s0 t \<Longrightarrow> gated I P (f x) t"
  shows "gated I P (bindS m f) s"
  using assms(3) mild_prefix [OF assms(2,1)] by (intro gated_bind mild_calm [OF assms(2)]) blast

lemma decide_entry_gated:
  assumes "mild_gaps w" "mild s0 s"
  shows "gated (lg_intents (rt_ledger s0)) (entry_made (cw_later w) s0) (decide_entry w a choices) s"
proof -
  have sel: "always mild (put_selection d ds rows)" for d ds rows
    unfolding put_selection_def by (intro mild_rules mild_modify) simp_all
  show ?thesis
    unfolding decide_entry_def
    apply (rule gated_if, rule gated_calm, rule calm.always_ret, rule gated_prod, rule gated_prod, rule gated_after [OF assms(2) sel], rule gated_option)
     apply (rule gated_calm, rule mild_calm, intro mild_rules mild_cases mild_record)
    apply (auto intro: commit_directional_gated [OF assms(1)] gated_calm [OF calm.always_raise] split: option.splits)
    done
qed


lemma mild_choose: "always mild (choose_shock w x budget)"
  unfolding choose_shock_def by (intro mild_rules mild_cases mild_modify mild_record) simp_all

lemma fund_shock_gated:
  assumes "mild_gaps w" "mild s0 s" "ev_strategy x = SHOCK"
  shows "gated (lg_intents (rt_ledger s0)) (entry_made (cw_later w) s0) (fund_shock w x) s"
proof -
  have f: "always mild (modifyS (cw_funds_gap w))"
    using assms(1) by (auto simp: mild_gaps_def always_def)
  have no: "gated I P (retS False) t" for I P and t :: "'a directional_scheme" by (rule gated_calm) (rule calm.always_ret)
  show ?thesis
    unfolding fund_shock_def
    apply (rule gated_after [OF assms(2) mild.always_lift], erule gated_after [OF _ f], rule gated_get, rule gated_if, rule no,
        erule gated_after [OF _ mild.always_lift], rule gated_if, rule no, erule gated_after [OF _ mild_permit], rule gated_if, rule no,
        erule gated_after [OF _ mild.always_lift])
    unfolding Let_def
    apply (erule gated_after [OF _ mild_choose], rule gated_option, rule no, erule commit_shock_gated [OF assms(1) _ assms(3)])
    done
qed

lemma active_run: "get_active s = (Inr a, t) \<Longrightarrow> active_row (rt_ledger s) = Inr a"
  by (auto simp: get_active_def bindS_run)

lemma no_entry: "gated I P (retS b) s"
  by (rule gated_calm) (rule calm.always_ret)

lemma refuse_gated: "gated I P (refuse_shock now x reason) s"
  unfolding refuse_shock_def by (intro gated_calm mild_calm mild_rules mild_record)

lemma lift_run: "liftS v s = (Inr x, t) \<Longrightarrow> v = Inr x \<and> t = s"
  by simp

text \<open>An entry of the shock rule, and of the others.\<close>

lemma shock_enter_gated:
  assumes "mild_gaps w" "\<And>x. sk_sample s = Some x \<Longrightarrow> ev_strategy x = SHOCK"
  shows "gated (lg_intents (rt_ledger s)) (\<lambda>t. entry_made (cw_later w) s t \<and> settled_start snap s) (shock_enter w snap) s"
  unfolding shock_enter_def Let_def
  apply (rule gated_get, rule gated_if, rule no_entry, rule gated_option, rule no_entry)
  subgoal for x
    apply (rule gated_after [OF mild.refl mild_consume(2)], rule gated_if, rule no_entry, rule gated_if)
     apply (intro gated_calm mild_calm mild_rules mild_consume)
    apply (erule gated_after [OF _ mild_active], rule gated_if, rule no_entry,
        erule gated_after [OF _ mild.always_lift], rule gated_if, rule no_entry, rule gated_if, rule refuse_gated,
        erule gated_after [OF _ mild_permit], rule gated_if, rule refuse_gated,
        erule gated_after [OF _ mild.always_lift], rule gated_if, rule refuse_gated)
    apply (rule gated_weaken, erule fund_shock_gated [OF assms(1)], erule assms(2))
    apply (auto simp: settled_start_def foreign_holding_def consumed_def bindS_run dest!: active_run split: prod.splits sum.splits)
    done
  done

lemma directional_enter_gated:
  assumes "mild_gaps w" "\<And>x. sk_sample s = Some x \<Longrightarrow> ev_strategy x = SHOCK"
  shows "gated (lg_intents (rt_ledger s)) (\<lambda>t. entry_made (cw_later w) s t \<and> settled_start snap s) (directional_enter w snap) s"
proof -
  have f: "\<And>s. mild s (cw_funds_gap w s)" using assms(1) by (auto simp: mild_gaps_def)
  have micro: "always mild (if b then seconds_signals w' now else retS [])" for b and w' :: "'a directional_scheme directional_world" and now
    by (intro mild_rules mild_signals)
  show ?thesis
    unfolding directional_enter_def Let_def
    apply (rule gated_get, rule gated_if, rule shock_enter_gated [OF assms], assumption)
    apply (rule gated_after [OF mild.refl mild_active], rule gated_if, rule no_entry,
        erule gated_after [OF _ mild.always_lift], rule gated_if)
     apply (intro gated_calm mild_calm mild_rules)
    apply (erule gated_after [OF _ mild_ranking], erule gated_after [OF _ micro], rule gated_get,
        erule gated_after [OF _ mild_weigh_all [OF f]], rule gated_option, rule no_entry, rule gated_prod)
    apply (rule gated_weaken, erule decide_entry_gated [OF assms(1)])
    apply (auto simp: settled_start_def foreign_holding_def dest!: active_run)
    done
qed


lemma calm_compare: "always mild (compare_auction w x q a)"
proof -
  have sel: "always mild (put_selection d ds rows)" for d ds rows
    unfolding put_selection_def by (intro mild_rules mild_modify) simp_all
  have rival: "always mild (rival_row w a y)" for y
    unfolding rival_row_def Let_def by (intro mild_rules mild_cases mild_candidate)
  have rivals: "always mild (rival_rows w a ys)" for ys
    by (induction ys) (unfold rival_rows.simps, intro mild_rules rival, intro mild_rules rival)
  show ?thesis
    unfolding compare_auction_def Let_def
    by (intro mild_rules mild_cases mild_ranking sel rivals mild_modify) simp_all
qed

section \<open>Exits\<close>

definition steady :: "'z directional_scheme \<Rightarrow> 'z directional_scheme \<Rightarrow> bool" where
  "steady s t = (mild s t \<and> dr_inputs t = dr_inputs s \<and> en_books t = en_books s \<and> en_market_connected t = en_market_connected s)"

interpretation steady: step_closed steady
  by unfold_locales (auto simp: steady_def intro: mild.refl mild.trans)

lemma steady_put_meta: "always steady (put_meta k v)"
proof (rule alwaysI)
  fix s t :: "'a directional_scheme" and r
  assume run: "put_meta k v s = (r, t)"
  then show "steady s t" using alwaysD [OF mild_put_meta run] by (auto simp: steady_def put_meta_run)
qed

lemma steady_put_note: "always steady (put_note k d rows)"
  unfolding put_note_def by (rule steady_put_meta)

lemma steady_status: "always steady (set_status f)" "always steady (set_state st)" "always steady (set_reason rs)"
  by (auto simp: always_def steady_def mild_def calm_def)

lemmas steady_rules = steady.always_rules steady_put_meta steady_put_note steady_status

lemma steady_decide: "always steady (decide_exit w c t q)"
proof -
  have "always steady (protect_profit w c t q e units retain)" for e units retain
    unfolding protect_profit_def Let_def by (intro steady_rules mild_cases)
  then show ?thesis
    unfolding decide_exit_def Let_def
    by (intro steady_rules mild_cases) (auto intro!: steady_rules split: option.splits)
qed

lemma gated_steady:
  assumes "steady s0 s" "always steady m" "\<And>x t. m s = (Inr x, t) \<Longrightarrow> steady s0 t \<Longrightarrow> gated I P (f x) t"
  shows "gated I P (bindS m f) s"
proof (rule gated_bind)
  show "always calm m" using assms(2) by (auto simp: always_def steady_def mild_def)
  show "gated I P (f x) t" if "m s = (Inr x, t)" for x t
    using assms(3) [OF that] steady.trans [OF assms(1) alwaysD [OF assms(2) that]] by blast
qed

text \<open>What was read before the order, and the note it leaves.\<close>

definition exit_due :: "('z, 'e) cycle_world_scheme \<Rightarrow> string \<Rightarrow> 'y runtime_scheme \<Rightarrow> bool" where
  "exit_due w lifecycle t = (\<exists>r due. metadata (''directional-exit:'' @ lifecycle) (rt_ledger t) = Some (MExit r due) \<and> due \<le> cw_now w)"

definition exit_possible :: "('z, 'e) cycle_world_scheme \<Rightarrow> instrument \<Rightarrow> 'y directional_scheme \<Rightarrow> bool" where
  "exit_possible w i s = (session_open (cw_now w) s
     \<and> (\<exists>b. map_of (en_books s) (security_id i) = Some b \<and> book_current (cw_now w) (Some b) s \<and> top_bid b \<noteq> None))"

definition exits_kept :: "'z directional_scheme shock_world \<Rightarrow> bool" where
  "exits_kept w = (\<forall>s. mild s (cw_dispatch_gap w s) \<and> mild s (cw_funds_gap w s)
     \<and> (\<forall>k r d. metadata k (rt_ledger s) = Some (MExit r d) \<longrightarrow> metadata k (rt_ledger (cw_dispatch_gap w s)) = Some (MExit r d)))"

lemma reduce_keeps_exit:
  assumes "exits_kept w" "reduce (cycle_world.truncate w) i q b l False s = (r, t)" "exit_due w l s"
  shows "exit_due w l t"
proof -
  let ?s = "cw_dispatch_gap w s"
  have gap: "exit_due w l ?s" using assms(1,3) unfolding exits_kept_def exit_due_def by blast
  from assms(2) consider "t = s" | u where "t = ?s\<lparr>rt_oms := u\<rparr>" "lg_metadata (om_ledger u) = lg_metadata (rt_ledger ?s)"
    by (auto simp: reduce_def submit_order_def bindS_run on_oms_def cycle_world.defs split: prod.splits sum.splits
        dest!: alwaysD [OF tables_submit] simp: same_tables_def)
  then show ?thesis using gap assms(3) by cases (simp_all add: exit_due_def metadata_def)
qed

lemma latched_exit_gated:
  assumes "exits_kept w" "steady s0 s" "exit_due w l s"
  shows "gated I (\<lambda>t. exit_possible w i s0 \<and> exit_due w l t) (latched_exit w i q l) s"
  unfolding gated_def
proof (intro impI allI)
  fix r t assume i: "lg_intents (rt_ledger s) = I" and run: "latched_exit w i q l s = (r, t)"
  show "lg_intents (rt_ledger t) = I \<or> exit_possible w i s0 \<and> exit_due w l t"
  proof (cases "exit_possible w i s")
    case True
    then obtain b where b: "map_of (en_books s) (security_id i) = Some b" "book_current (cw_now w) (Some b) s" "top_bid b \<noteq> None"
      and "session_open (cw_now w) s" by (auto simp: exit_possible_def)
    then have "bindS (reduce (cycle_world.truncate w) i q b l False) (\<lambda>_. bindS (set_state ''EXIT_PENDING'') (\<lambda>_. retS True)) s = (r, t)"
      using run by (auto simp: latched_exit_def bindS_run session_open_def split: option.splits)
    then obtain v u where u: "reduce (cycle_world.truncate w) i q b l False s = (v, u)" "rt_oms t = rt_oms u"
      by (auto simp: bindS_run split: prod.splits sum.splits)
    have "exit_due w l t" using reduce_keeps_exit [OF assms(1) u(1) assms(3)] u(2) by (simp add: exit_due_def)
    moreover have "exit_possible w i s0"
      using True assms(2) by (auto simp: exit_possible_def steady_def session_open_def calendar_of_def book_current_def)
    ultimately show ?thesis by blast
  next
    case False
    with run have "lg_intents (rt_ledger t) = lg_intents (rt_ledger s)"
      by (auto simp: latched_exit_def exit_possible_def session_open_def bindS_run split: option.splits if_splits)
    with i show ?thesis by simp
  qed
qed


lemma exit_noted: "put_meta (''directional-exit:'' @ l) (MExit r due) s = (Inr u, t) \<Longrightarrow> due \<le> cw_now w \<Longrightarrow> exit_due w l t"
  by (auto simp: put_meta_run exit_due_def put_metadata_def metadata_upserted)

lemma exit_due_status: "set_status f s = (r, t) \<Longrightarrow> exit_due w l s \<Longrightarrow> exit_due w l t"
  by (auto simp: exit_due_def)

lemma manage_rule_gated:
  assumes "exits_kept w" "steady s0 s"
  shows "gated I (\<lambda>t. exit_possible w (lc_instrument c) s0 \<and> exit_due w (lc_id c) t) (manage_rule w c t q) s"
  unfolding manage_rule_def
  apply (rule gated_steady [OF assms(2) steady_decide])
  subgoal for x u
    apply (cases x)
     apply (simp only: option.case)
     apply (intro gated_calm mild_calm mild_rules)
    apply (simp only: option.case prod.case_eq_if)
    apply (erule gated_steady, intro steady_rules, erule gated_steady, intro steady_rules, rule gated_if, rule no_entry)
    apply (erule latched_exit_gated [OF assms(1)])
    apply (erule exit_due_status, erule exit_noted)
    apply simp
    done
  done

lemma shock_manage_gated:
  assumes "exits_kept w" "steady s0 s"
  shows "gated I (\<lambda>t. exit_possible w (lc_instrument c) s0 \<and> exit_due w (lc_id c) t) (shock_manage w c t q) s"
  unfolding shock_manage_def Let_def
  apply (rule gated_get)
  apply (rule gated_steady [OF assms(2)], intro steady_rules, erule gated_steady, intro steady_rules, erule gated_steady, intro steady_rules,
      erule gated_steady, intro steady_rules, erule gated_steady, intro steady_rules, erule gated_steady, intro steady_rules,
      erule gated_steady, intro steady_rules)
  apply (rule gated_option, rule no_entry)
  apply (erule gated_steady, intro steady_rules)
  apply (erule latched_exit_gated [OF assms(1)], erule exit_noted, simp)
  done

text \<open>What reconciliation said of the position.\<close>

definition reconciled :: "lifecycle_row \<Rightarrow> snapshot \<Rightarrow> instant \<Rightarrow> 'z runtime_scheme \<Rightarrow> bool" where
  "reconciled c snap now s = (\<exists>t. lifecycle_totals (lc_id c) (rt_ledger s) = Inr t \<and> \<not> unresolved t \<and> held t \<noteq> 0
     \<and> held_by_broker (security_id (lc_instrument c)) (sn_positions snap) = Inr (held t)
     \<and> \<not> sn_unresolved snap \<and> pending_intents (rt_ledger s) = [] \<and> ist_date now \<le> expiry (lc_instrument c))"

lemma manage_directional_gated:
  assumes "exits_kept w"
  shows "gated I (\<lambda>t. exit_possible w (lc_instrument c) s \<and> exit_due w (lc_id c) t \<and> reconciled c snap (cw_now w) s
    \<and> lc_strategy c \<in> set STRATEGIES \<and> lc_strategy c \<noteq> CAS) (manage_directional w c snap) s"
proof -
  have f: "always calm (modifyS (cw_funds_gap w))" using assms by (auto simp: exits_kept_def always_def mild_def)
  have close_calm: "always calm (close_directional w c t)" for t
    unfolding close_directional_def
    by (intro calm_rules f calm_ledger mild_calm mild_put_note) (auto simp: close_lifecycle_def)
  show ?thesis
    unfolding manage_directional_def Let_def
    apply (rule gated_get, rule gated_if, intro gated_calm calm_rules)
    apply (rule gated_steady [OF steady.refl], intro steady_rules, erule gated_steady, intro steady_rules)
    apply (rule gated_if, intro gated_calm calm_rules, rule gated_if, intro gated_calm calm_rules, rule gated_if, rule gated_calm, rule close_calm,
        rule gated_if, intro gated_calm calm_rules, rule gated_if)
     apply (rule gated_weaken, erule shock_manage_gated [OF assms])
     apply (auto simp: reconciled_def)[1]
    apply (rule gated_weaken, erule manage_rule_gated [OF assms])
    apply (auto simp: reconciled_def)
    done
qed

end
