(* ===== verification/DirectionalDemo.thy ===== *)
theory DirectionalDemo
  imports DirectionalProps
begin

text \<open>
  One exit and one entry of the directional engine, run in the kernel: a position whose time
  is up is reduced, and a signal of the gap rule becomes an order. The witnesses of the
  engine's properties are evaluated on them.
\<close>

definition noon :: instant where "noon = ist_at 20000 (clock 12 0)"

definition noon_calendar :: calendar where
  "noon_calendar = \<lparr>cl_opens = Some (ist_at 20000 (clock 9 15)), cl_closes = Some (ist_at 20000 (clock 15 30)),
     cl_previous_opens = 0, cl_previous_closes = 0, cl_next_opens = 0, cl_next_closes = 0, cl_checked_at = ist_at 20000 (clock 9 0),
     cl_day = None, cl_spot_closes = None, cl_previous_spot_closes = None\<rparr>"

definition noon_book :: option_book where
  "noon_book = thin_book\<lparr>bk_received_ns := noon * 1000 - 1000000000\<rparr>"

definition demo_minute :: "instant \<Rightarrow> bar" where
  "demo_minute t = \<lparr>br_available = t, br_open = 95, br_close = 476 / 5, br_volume = 2000, br_oi = 1000, br_high = None, br_low = None\<rparr>"

definition demo_signal :: evaluation where
  "demo_signal = \<lparr>ev_strategy = GAP, ev_state = ''SIGNAL'', ev_reason = ''GAP'', ev_at = noon - minutes 1, ev_side = Some CE, ev_spot = Some 24000,
     ev_minimum_expiry = Some 20000, ev_exit_at = Some (noon + minutes 60), ev_details = [], ev_conditions = [], ev_next_check = None\<rparr>"

definition demo_inputs :: inputs where
  "demo_inputs = \<lparr>ip_calendar = Some noon_calendar, ip_evaluations = [(GAP, demo_signal)],
     ip_option_bars = [(''1'', map (\<lambda>t. (t, demo_minute t)) (minutes_back (noon - minutes 1) [0, 1, 2]))],
     ip_received = noon - seconds 10, ip_error = [], ip_spot_bars = [], ip_future_bars = []\<rparr>"

definition demo_key :: string where "demo_key = projr (signal_key demo_signal)"

definition demo_directional :: directional where
  "demo_directional = engine.extend (engine.truncate (demo_engine\<lparr>rt_enabled := [CAS, GAP], en_books := [(''1'', noon_book)]\<rparr>))
     \<lparr>dr_enabled = [GAP], dr_retain = None, dr_inputs = Some demo_inputs, dr_signals = [(demo_key, demo_signal)], dr_reason = [], dr_checks = [],
      dr_ranking = [], dr_ranked_at = Some noon, dr_blocked = False, dr_selection = ([], []), dr_instruments = [demo_instrument], dr_funds = None,
      dr_future = None, dr_live_spot = None, se_tape = tape_reset, se_evaluations = [], se_last_refresh = None, se_last_recorded = None,
      se_last_budget = None, se_discovery = None, se_event = None, se_event_connected = False, sk_sample = None, sk_reason = [], sk_checks = [],
      sk_assessed_at = None, sk_signal_at = None\<rparr>"


definition demo_shock_world :: "directional shock_world" where
  "demo_shock_world = \<lparr>cw_now = noon, cw_later = noon, cw_uuid = ''u'', cw_timestamp = 1 / 2, cw_attempt = ''a'', cw_reply = Replied None,
     cw_sale_positions = Inr demo_positions, cw_funds = Inr demo_funds, cw_statement = None, cw_funds_gap = (\<lambda>s. s), cw_dispatch_gap = (\<lambda>s. s),
     dw_mid = noon, dw_columns = \<lparr>charge_seen = (\<lambda>k. 0), decision_of = (\<lambda>k. None)\<rparr>, dw_hash = (\<lambda>t. t), dw_stamp = show_int, dw_sink = False,
     sw_digest = (\<lambda>d. []), sw_episode = (\<lambda>day way t. []), sw_libm = step_libm\<rparr>"

definition demo_exit_row :: lifecycle_row where
  "demo_exit_row = \<lparr>lc_id = ''l1'', lc_session = ''s'', lc_security = ''1'', lc_bankroll = 20000, lc_state = ''OPEN'', lc_strategy = GAP,
     lc_instrument = demo_instrument, lc_signal_at = Some (noon - minutes 60), lc_exit_at = Some (noon - minutes 1), lc_details = [], lc_retain = None,
     lc_side = Some CE, lc_shock = None\<rparr>"

definition demo_exiting :: directional where
  "demo_exiting = demo_directional\<lparr>rt_oms := \<lparr>om_ledger = snd (projr (set_intent_state ''i1'' ''FILLED'' demo_bought)), om_revision = 0\<rparr>\<rparr>"




lemma demo_exit_row_fields [simp]:
  "lc_id demo_exit_row = ''l1''" "lc_strategy demo_exit_row = GAP" "lc_instrument demo_exit_row = demo_instrument" "lc_details demo_exit_row = []"
  "lc_exit_at demo_exit_row = Some (noon - minutes 1)" "lc_signal_at demo_exit_row = Some (noon - minutes 60)" "lc_retain demo_exit_row = None"
  by (simp_all add: demo_exit_row_def)

lemma demo_shock_world_fields [simp]:
  "cw_now demo_shock_world = noon" "cw_later demo_shock_world = noon" "dw_mid demo_shock_world = noon" "cw_uuid demo_shock_world = ''u''"
  "cw_funds demo_shock_world = Inr demo_funds" "cw_funds_gap demo_shock_world = (\<lambda>s. s)" "cw_dispatch_gap demo_shock_world = (\<lambda>s. s)"
  by (simp_all add: demo_shock_world_def)

lemma demo_rule_names: "GAP \<in> set STRATEGIES" "GAP \<noteq> CAS" "GAP \<noteq> SHOCK" "GAP \<notin> set SECONDS_NAMES" "GAP \<noteq> REBOUND"
  by (simp add: STRATEGIES_def) code_simp+

definition demo_noted :: directional where
  "demo_noted = snd (bindS (put_meta ''directional-exit:l1'' (MExit ''TIME_EXIT'' (noon - minutes 1))) (\<lambda>_.
     set_status (\<lambda>st. st\<lparr>rs_state := ''POSITION_OPEN'', rs_reason := GAP @ '':TIME_EXIT''\<rparr>)) demo_exiting)"

lemma demo_exiting_reads:
  "metadata ''directional-exit:l1'' (rt_ledger demo_exiting) = None" "pending_intents (rt_ledger demo_exiting) = []"
  "held_by_broker (security_id demo_instrument) demo_positions = Inr 75" "expiry demo_instrument = 20000" "ist_date noon = 20000"
  "calendar_of demo_noted = Some noon_calendar" "is_open noon_calendar noon" "map_of (en_books demo_noted) (security_id demo_instrument) = Some noon_book"
  "top_bid noon_book \<noteq> None" "book_current noon (Some noon_book) demo_noted"
  by code_simp+

lemma demo_exiting_totals: "\<exists>t. lifecycle_totals ''l1'' (rt_ledger demo_exiting) = Inr t \<and> held t = 75 \<and> \<not> unresolved t"
proof -
  have "(case lifecycle_totals ''l1'' (rt_ledger demo_exiting) of Inr t \<Rightarrow> held t = 75 \<and> \<not> unresolved t | Inl e \<Rightarrow> False)" by code_simp
  then show ?thesis by (cases "lifecycle_totals ''l1'' (rt_ledger demo_exiting)") auto
qed

lemma demo_exit_decided: "decide_exit demo_shock_world demo_exit_row t 75 demo_exiting = (Inr (Some (''TIME_EXIT'', noon - minutes 1)), demo_exiting)"
  by (simp add: decide_exit_def bindS_run Let_def demo_exiting_reads recorded_policy_def minutes_def dget_def)

lemma demo_exit_sent: "length (lg_intents (rt_ledger (snd (reduce (cycle_world.truncate demo_shock_world) demo_instrument 75 noon_book ''l1'' False demo_noted)))) = 2"
  by code_simp

lemma demo_exit_run:
  assumes "manage_directional demo_shock_world demo_exit_row (demo_snapshot\<lparr>sn_positions := demo_positions\<rparr>) demo_exiting = (r, s')"
  shows "length (lg_intents (rt_ledger s')) = 2"
proof -
  obtain t where t: "lifecycle_totals ''l1'' (rt_ledger demo_exiting) = Inr t" "held t = 75" "\<not> unresolved t" using demo_exiting_totals by blast
  have "manage_directional demo_shock_world demo_exit_row (demo_snapshot\<lparr>sn_positions := demo_positions\<rparr>) demo_exiting
      = latched_exit demo_shock_world demo_instrument 75 ''l1'' demo_noted"
    by (simp add: manage_directional_def manage_rule_def bindS_run demo_rule_names t demo_exiting_reads demo_snapshot_def Let_def demo_exit_decided
        demo_noted_def put_meta_run minutes_def)
  also have "\<dots> = bindS (reduce (cycle_world.truncate demo_shock_world) demo_instrument 75 noon_book ''l1'' False)
      (\<lambda>_. bindS (set_state ''EXIT_PENDING'') (\<lambda>_. retS True)) demo_noted"
    using demo_exiting_reads by (auto simp: latched_exit_def bindS_run)
  finally show ?thesis using assms demo_exit_sent by (auto simp: bindS_run split: prod.splits sum.splits)
qed


text \<open>An entry of a minute rule, from the signal to the order.\<close>

definition demo_choice :: candidate where
  "demo_choice = (demo_instrument, 75, 100, noon_book)"

definition demo_score_row :: score_row where
  "demo_score_row = projr (execution_score demo_signal demo_choice [] noon)"

lemma demo_minute_fields: "br_volume (demo_minute t) = 2000" "br_oi (demo_minute t) = 1000" "br_close (demo_minute t) = 476 / 5"
  by (simp_all add: demo_minute_def)

lemma demo_signal_fields: "ev_strategy demo_signal = GAP" "ev_side demo_signal = Some CE" "ev_spot demo_signal = Some 24000"
  "ev_minimum_expiry demo_signal = Some 20000" "ev_at demo_signal = noon - minutes 1" "is_micro demo_signal = False"
  by (simp_all add: demo_signal_def is_micro_def demo_rule_names)

lemma demo_exit_reserve: "fee_sell default_fees 15000 3 = Inr (5111 / 50)"
  by (simp add: price_rules ceiling_div ceiling_inverse)

lemma demo_contract_reads:
  "allocate demo_mandate (session_id demo_directional) (rt_ledger demo_directional) demo_funds None = Inr demo_alloc" "entry_budget demo_alloc = 10000"
  "option_bars demo_inputs ''1'' (noon - minutes 1) = Some [demo_minute (noon - minutes 1), demo_minute (noon - minutes 2), demo_minute (noon - minutes 3)]"
  "fixed_limit demo_instrument (476 / 5) = 100" "outside_band demo_instrument 100 = False" "book_ready noon (Some noon_book) demo_directional"
  "minute_capacity demo_instrument noon_book 2000 100 = 75" "py_range 75 76 75 = [75]" "lot_size demo_instrument = 75" "security_id demo_instrument = ''1''"
  "map_of (en_books demo_directional) ''1'' = Some noon_book" "dr_inputs demo_directional = Some demo_inputs"
  "atm_ladder (known_instruments demo_directional) CE 20000 24000 = [demo_instrument]"
  "open_signal noon demo_signal demo_directional = Inr True" "input_ready noon demo_directional" "rt_refresh demo_directional = None"
  by code_simp+

lemma demo_contract_cash: "entry_with_exit 75 100 = Inr 7630"
  by (simp add: entry_with_exit_def demo_entry_cash demo_exit_reserve)

end
