(* ===== verification/DirectionalClaims.thy ===== *)
theory DirectionalClaims
  imports DirectionalDemo
begin













































text \<open>
  C28: An exit has a reason that is due. When the directional engine's management of an open
  lifecycle changes the orders, the rule is one of the strategies and not the auction; the
  account is settled, no order is pending, and the ledger's quantity is not zero and is the
  broker's; the session is open and the book current with a displayed bid; and the ledger
  holds the exit's reason, due no later than now.
\<close>

theorem exit_needs_a_due_reason:
  assumes "manage_directional w c snap s = (r, s')" "exits_kept w"
    "lg_intents (rt_ledger s') \<noteq> lg_intents (rt_ledger s)"
  shows "lc_strategy c \<in> set STRATEGIES \<and> lc_strategy c \<noteq> CAS \<and> reconciled c snap (cw_now w) s
    \<and> exit_possible w (lc_instrument c) s \<and> exit_due w (lc_id c) s'"
  using manage_directional_gated [OF assms(2), of "lg_intents (rt_ledger s)" c s snap] assms by (auto simp: gated_def)

theorem exit_needs_a_due_reason_witness:
  "\<exists>r s'. manage_directional demo_shock_world demo_exit_row (demo_snapshot\<lparr>sn_positions := demo_positions\<rparr>) demo_exiting = (r, s')
     \<and> exit_due demo_shock_world ''l1'' s'"
proof -
  obtain r s' where run: "manage_directional demo_shock_world demo_exit_row (demo_snapshot\<lparr>sn_positions := demo_positions\<rparr>) demo_exiting = (r, s')"
    by force
  have "exits_kept demo_shock_world" by (simp add: exits_kept_def mild.refl)
  moreover have "length (lg_intents (rt_ledger demo_exiting)) = 1" by code_simp
  with demo_exit_run [OF run] have "lg_intents (rt_ledger s') \<noteq> lg_intents (rt_ledger demo_exiting)" by auto
  ultimately show ?thesis
    using exit_needs_a_due_reason [OF run] run by auto
qed

end
