(* ===== verification/Spec2Isabelle.thy ===== *)
theory Spec2Isabelle
  imports AccountRefresh Subscriptions FutureInput ReadScheduler Route Reserved ExitOrders EngineProps Governor Feeds SecondsProps
    DirectionalClaims
begin

text \<open>
  A verification development of \<open>dhan_cas_bot\<close>, a bot that trades NIFTY options around the
  closing auction session.

  The program. Feeds deliver index observations and option books to one session engine
  (\<open>engine.py\<close>), which enters a position when a displayed quote lags the index, manages it and
  settles it. Every order goes through the order manager (\<open>orders.py\<close>), which writes the intent
  and its attempt into the durable ledger (\<open>ledger.py\<close>) before the broker is called and
  reconciles the ledger with the broker's orders, trades and positions afterwards. Risk
  (\<open>risk.py\<close>) bounds the cash of an order, strategy (\<open>strategy.py\<close>) finds the opportunity, exits
  (\<open>exits.py\<close>, \<open>exit_manager.py\<close>, \<open>profit_exit.py\<close>) price and trigger reductions, settlement
  (\<open>settlement*.py\<close>) matches an expired position with the broker's statement. Recorded
  session rules (\<open>session_strategies.py\<close>, \<open>expanded_strategies.py\<close>) evaluate minute bars.

  Theories, from the bottom up.
  \<^item> Prelude: the result type of fallible code, state passing with errors (\<open>sm\<close>), list updates
    of table rows, the locale \<open>step_closed\<close> of relations that handlers preserve.
  \<^item> PyNum, PyText, Json: Python's numbers and text. A Decimal is an exact rational whose
    divisions are rounded to 28 digits (\<open>ctx28\<close>), a float a rational rounded to 53 bits (\<open>dbl\<close>).
    JSON texts appear as the values they parse to.
  \<^item> Search, Tables: the binary searches of the sizing loops, and table rows with unique keys.
  \<^item> Domain (\<open>domain.py\<close>), Risk (\<open>risk.py\<close>), Settlement (\<open>settlement.py\<close>,
    \<open>settlement_adapter.py\<close>, \<open>settlement_cash.py\<close>), Exits (\<open>exits.py\<close>, \<open>exit_manager.py\<close>,
    \<open>profit_exit.py\<close>), Strategy (\<open>strategy.py\<close>): the contracts' records and the pure rules.
  \<^item> Ledger (\<open>ledger.py\<close>): the database as a record of tables; a transaction is a function that
    answers an error and changes nothing, or the new ledger.
  \<^item> Orders (\<open>orders.py\<close>): submission as preparation and dispatch, reconciliation as a commit
    guarded by the account revision. Governor (\<open>governor.py\<close>): sliding rate windows.
    Submitted: what a submission and a reconciliation leave alone. Reserved: every recorded buy
    is reserved for in full. ExitOrders: the request of an exit, from its price to the order
    manager's checks.
  \<^item> Route (\<open>route.py\<close>): the probe order that shows the broker accepts orders, under budgets
    kept in the ledger's counters, and what earlier orders already show; its lemma
    \<open>probe_budget\<close> bounds the orders and the cash of a session's probes.
  \<^item> Sessions (\<open>session_strategies.py\<close>), Expanded (\<open>expanded_strategies.py\<close>): calendar, minute
    bars and every rule with its evidence.
  \<^item> Feeds (\<open>dhan_feed.py\<close>, \<open>feeds.py\<close>): bytes to packets, packets to books, connection epochs.
  \<^item> Subscriptions (\<open>market_subscriptions.py\<close>): the window of contracts the market feed carries
    and the requests that move the feed to a new window. FutureInput (\<open>future_input.py\<close>): the
    messages of the futures contract as observations of the tape.
  \<^item> AccountRefresh (\<open>account_refresh.py\<close>): the background account reader, whose answer is the
    freshness the entry gate asks for; a pass awaits the broker four times, and each await is a
    function on the state that may change the account only together with its revision.
    ReadScheduler (\<open>read_scheduler.py\<close>): the queue that admits its reads.
  \<^item> Arbiter (\<open>strategy_arbiter.py\<close>): receipts of closed executions and the choice between
    executable candidates.
  \<^item> Seconds (\<open>seconds_strategies.py\<close>): the entry assessment with its price search, the tape of
    quotes and the five quote-driven rules; SecondsProps holds their properties.
  \<^item> Runtime (\<open>runtime.py\<close>), Engine (\<open>engine.py\<close>): the live state, the entry gate, the feed
    callbacks and the cycle. EngineDemo runs one entry of the engine in the kernel; EngineProps
    holds the engine's properties.
  \<^item> DirectionalState (\<open>directional.py\<close>, \<open>seconds_engine.py\<close>): the state of the directional part,
    its signals, readiness and the ladder of contracts. ShockRules (\<open>volatility_shock.py\<close>): the
    hypothesis, the pricing scenario and the exit guard of the volatility shock; ShockEngine
    (\<open>shock_engine.py\<close>): its episodes, entry and exit on the engine. Directional
    (\<open>directional.py\<close>): the weighing of competing signals, entry, the comparison with the
    auction, the managed position, and the cycle with this part plugged in.
  \<^item> ShockProps, DirectionalProps, DirectionalClaims: the properties of these parts.
    DirectionalDemo and DirectionalClaims run one exit and one entry in the kernel.

  Conventions. An instant is an integer of microseconds, a day an integer; clocks, drawn
  identities, and the answers of the broker are arguments, so that every theorem holds for every
  answer. Where a coroutine awaits the broker, what other callbacks do meanwhile is a function on
  the state (\<open>cw_funds_gap\<close>, \<open>cw_dispatch_gap\<close>) or an arbitrary sequence of steps
  (\<open>om_step\<close>, \<open>feed_step\<close>). Exceptions are values of \<open>py_error\<close>. The identities that one entry
  draws share one hexadecimal text. Telemetry calls are left out.

  Parameters. The logarithm, root and error function of the C library are the fields of
  \<open>libm\<close>; the digests of an episode and of a text, and the text of a time stamp, are functions of
  the world; the ledger's columns that only a score reads are \<open>columns\<close>. Two books are the same
  object in the program when they are equal here.

  Lemma groups. \<open>always\<close>-rules show that a handler keeps a relation between the states before
  and after it; \<open>gated\<close>-rules that it writes an order only under a condition. Locales:
  \<open>fee_envelope\<close> (buy and sell charges), \<open>ratchet\<close> (peaks and floors that only rise), \<open>rate_limiter\<close>
  (windows that never exceed their limit), \<open>scan_invariant\<close> (what a scan of a series keeps),
  \<open>threshold\<close> (guarded halving finds the last admissible size or price), \<open>keyed_store\<close> (tables
  with unique keys),
  \<open>step_closed\<close> (preserved relations) and its extension \<open>order_writes\<close> (what each single write of
  the order manager preserves, a whole submission or reconciliation preserves); each is
  interpreted on the model's definitions where they are given, \<open>ratchet\<close> on the auction's profit
  guard and on the shock's. The relations \<open>calm\<close> (no order is written), \<open>mild\<close> (nor is a note
  lost), \<open>steady\<close> (nor is the market's view changed) and \<open>same_gate\<close> (the gate's fields are kept)
  say what a handler of the directional part may touch, \<open>aside\<close> what a callback may do while the
  account reader waits, and the \<open>gated\<close>-rules compose them into what an entry or an exit must
  have found.

  Termination. Every recursion is structural or has a measure: the sizing searches shrink their
  interval, and the only count of iterations is the source's own, the seventy halvings of the
  implied volatility, after which the bracket is at most 1e-20 wide.

  Not modelled: opening and closing the SQLite file, JSON text and digests, the HTTP reads of
  \<open>strategy_inputs.py\<close>, the observation and paper ledger of the seconds rules, the recovery of the route, the
  instrument master, the replay journal, HTTP and web socket transport,
  log-in, the service, its configuration and command line, the dashboard and every view the
  engine builds for it, the operations scripts and the offline research. The realized
  volatility of 31 closes (floating-point logarithms) is a parameter of the rules. Amounts are
  finite: an infinite Decimal of a broker's row is an error here, and doubles have neither
  infinities nor NaN. Synchronising the subscriptions is one step: books that arrive while its
  requests are sent, and the closing of the socket when one fails, are left out. An evaluation
  of the tape that raises discards what it had ingested, where the program keeps it.
\<close>

end
